theory Spec2Isabelle
  imports Main "HOL-Library.Word" "HOL-Library.Multiset"
begin

unbundle bit_operations_syntax

section \<open>Platform: bytes, sizes, the allocator\<close>

text \<open>
  The library is C on an LP64 platform: \<open>size_t\<close> is 64 bits wide, an \<open>enum\<close> and an
  \<open>int\<close> are 32 bits wide, memory is a sequence of bytes in little-endian order.
  A buffer (\<open>void*\<close>, \<open>size_t*\<close>) is modelled by its contents.
\<close>

type_synonym byte = "8 word"
type_synonym size_t = "64 word"

text \<open>
  What a C function of the library can do besides returning an object: return \<open>NULL\<close>,
  or run into undefined behaviour (an access outside an array or a buffer, a store
  through a null pointer).
\<close>

datatype failure = ReturnedNULL | UndefinedBehaviour

text \<open>
  \<open>malloc\<close>: whether a request of \<open>n\<close> bytes succeeds is up to the platform
  (\<open>can_alloc\<close>), and so is the content of the fresh block (\<open>junk\<close>), which the
  library never clears.
\<close>

record heap =
  can_alloc :: "nat \<Rightarrow> bool"
  junk :: "nat \<Rightarrow> byte"

definition malloc :: "heap \<Rightarrow> nat \<Rightarrow> byte list option" where
  "malloc h n = (if can_alloc h n then Some (map (junk h) [0..<n]) else None)"

text \<open>A value of \<open>8 * k\<close> bits in memory: \<open>k\<close> bytes, least significant first.\<close>

definition to_bytes :: "'a::len word \<Rightarrow> byte list" where
  "to_bytes w = map (\<lambda>k. ucast (drop_bit (8 * k) w)) [0..<LENGTH('a) div 8]"

definition of_bytes :: "byte list \<Rightarrow> 'a::len word" where
  "of_bytes bs = foldr (\<lambda>b acc. ucast b OR push_bit 8 acc) bs 0"

text \<open>
  Element \<open>i\<close> of a buffer seen as an array of \<open>'a word\<close> (\<open>((T*)p)[i]\<close>); outside the
  buffer the access is undefined (\<open>None\<close>).
\<close>

definition rd :: "byte list \<Rightarrow> nat \<Rightarrow> 'a::len word option" where
  "rd bs i =
     (let w = LENGTH('a) div 8
      in if (i + 1) * w \<le> length bs then Some (of_bytes (take w (drop (i * w) bs))) else None)"

definition wr :: "byte list \<Rightarrow> nat \<Rightarrow> 'a::len word \<Rightarrow> byte list option" where
  "wr bs i v =
     (let w = LENGTH('a) div 8
      in if (i + 1) * w \<le> length bs
         then Some (take (i * w) bs @ to_bytes v @ drop ((i + 1) * w) bs) else None)"

text \<open>\<open>for (size_t i = i0; i < n; i++) body\<close>, the body possibly undefined.\<close>

function for_loop :: "nat \<Rightarrow> nat \<Rightarrow> (nat \<Rightarrow> 's \<Rightarrow> 's option) \<Rightarrow> 's \<Rightarrow> 's option" where
  "for_loop i n body s =
     (if i < n
      then (case body i s of None \<Rightarrow> None | Some s' \<Rightarrow> for_loop (Suc i) n body s')
      else Some s)"
  by pat_completeness auto
termination
  by (relation "measure (\<lambda>(i, n, body, s). n - i)") auto

declare for_loop.simps [simp del]

section \<open>include/tensr/tensr.h\<close>

text \<open>
  \<open>TensrDType\<close> is a C enumeration; an object of that type holds any 32-bit value (the
  loader stores what it finds in the file), so the tag is a 32-bit word and the
  enumerators are constants.
\<close>

type_synonym TensrDType = "32 word"

definition TENSR_FLOAT32 :: TensrDType where "TENSR_FLOAT32 = 0"
definition TENSR_FLOAT64 :: TensrDType where "TENSR_FLOAT64 = 1"
definition TENSR_INT32 :: TensrDType where "TENSR_INT32 = 2"
definition TENSR_INT64 :: TensrDType where "TENSR_INT64 = 3"
definition TENSR_UINT8 :: TensrDType where "TENSR_UINT8 = 4"
definition TENSR_BOOL :: TensrDType where "TENSR_BOOL = 5"

lemmas dtype_defs =
  TENSR_FLOAT32_def TENSR_FLOAT64_def TENSR_INT32_def TENSR_INT64_def TENSR_UINT8_def
  TENSR_BOOL_def

datatype TensrDevice = TENSR_CPU | TENSR_CUDA | TENSR_XPU | TENSR_NPU | TENSR_TPU

text \<open>
  \<open>struct Tensor\<close>. \<open>data\<close>, \<open>shape\<close> and \<open>strides\<close> hold the contents of the blocks the
  three pointers refer to; the field \<open>size\<close> is \<open>tsize\<close> here.
\<close>

record Tensor =
  data :: "byte list"
  shape :: "size_t list"
  strides :: "size_t list"
  ndim :: size_t
  tsize :: size_t
  dtype :: TensrDType
  device :: TensrDevice
  device_id :: int
  owns_data :: bool

section \<open>src/core/tensor.c\<close>

definition tensr_dtype_size :: "TensrDType \<Rightarrow> size_t" where
  "tensr_dtype_size dt =
     (if dt = TENSR_FLOAT32 then 4
      else if dt = TENSR_FLOAT64 then 8
      else if dt = TENSR_INT32 then 4
      else if dt = TENSR_INT64 then 8
      else if dt = TENSR_UINT8 then 1
      else if dt = TENSR_BOOL then 1
      else 0)"

text \<open>
  \<open>compute_size\<close>: the product of the first \<open>ndim\<close> entries of \<open>shape\<close>, in \<open>size_t\<close>
  arithmetic. The callers make sure that \<open>shape\<close> has \<open>ndim\<close> entries.
\<close>

definition compute_size :: "size_t list \<Rightarrow> size_t \<Rightarrow> size_t" where
  "compute_size shp nd = foldl (\<lambda>sz d. sz * d) 1 (take (unat nd) shp)"

text \<open>
  \<open>compute_strides\<close>. The loop counter is an \<open>int\<close>, starting from \<open>(int)ndim - 2\<close>.
  With \<open>ndim = 0\<close> the first store goes to \<open>strides[SIZE_MAX]\<close>, outside the block.
\<close>

function strides_loop :: "int \<Rightarrow> size_t list \<Rightarrow> size_t list \<Rightarrow> size_t list" where
  "strides_loop i strd shp =
     (if 0 \<le> i
      then strides_loop (i - 1) (strd[nat i := strd ! (nat i + 1) * shp ! (nat i + 1)]) shp
      else strd)"
  by pat_completeness auto
termination
  by (relation "measure (\<lambda>(i, strd, shp). nat (i + 1))") auto

declare strides_loop.simps [simp del]

definition compute_strides :: "size_t list \<Rightarrow> size_t list \<Rightarrow> size_t \<Rightarrow> failure + size_t list" where
  "compute_strides strd shp nd =
     (if nd = 0 \<or> length strd < unat nd \<or> length shp < unat nd then Inl UndefinedBehaviour
      else Inr (strides_loop (sint (ucast nd :: 32 word) - 2) (strd[unat nd - 1 := 1]) shp))"

text \<open>A fresh block of \<open>n\<close> \<open>size_t\<close> objects, with whatever the allocator left in it.\<close>

definition junk_words :: "heap \<Rightarrow> nat \<Rightarrow> size_t list" where
  "junk_words h n = map (\<lambda>i. of_bytes (map (junk h) [8 * i..<8 * i + 8])) [0..<n]"

text \<open>\<open>sizeof(Tensor)\<close>: three pointers, two \<open>size_t\<close>, three 32-bit fields, a \<open>bool\<close>, padding.\<close>

definition sizeof_Tensor :: nat where
  "sizeof_Tensor = 56"

definition tensr_create ::
  "heap \<Rightarrow> size_t list \<Rightarrow> size_t \<Rightarrow> TensrDType \<Rightarrow> TensrDevice \<Rightarrow> failure + Tensor" where
  "tensr_create h shp nd dt dev =
     (if \<not> can_alloc h sizeof_Tensor then Inl ReturnedNULL
      else if \<not> can_alloc h (unat (nd * 8)) then Inl ReturnedNULL
      else if length shp < unat nd then Inl UndefinedBehaviour
      else
        (case compute_strides (junk_words h (unat nd)) (take (unat nd) shp) nd of
           Inl e \<Rightarrow> Inl e
         | Inr strd \<Rightarrow>
             (let sz = compute_size shp nd;
                  bytes = sz * tensr_dtype_size dt
              in case malloc h (unat bytes) of
                   None \<Rightarrow> Inl ReturnedNULL
                 | Some d \<Rightarrow>
                     Inr \<lparr>data = d, shape = take (unat nd) shp, strides = strd, ndim = nd,
                          tsize = sz, dtype = dt, device = dev, device_id = 0,
                          owns_data = True\<rparr>)))"

text \<open>\<open>memset\<close> and \<open>memcpy\<close> on the first \<open>n\<close> bytes of a block.\<close>

definition memset :: "byte list \<Rightarrow> byte \<Rightarrow> nat \<Rightarrow> byte list option" where
  "memset d v n = (if n \<le> length d then Some (replicate n v @ drop n d) else None)"

definition memcpy :: "byte list \<Rightarrow> byte list \<Rightarrow> nat \<Rightarrow> byte list option" where
  "memcpy dst src n =
     (if n \<le> length dst \<and> n \<le> length src then Some (take n src @ drop n dst) else None)"

text \<open>
  Floating point. A \<open>float\<close> is its 32-bit pattern and a \<open>double\<close> its 64-bit pattern
  (IEEE 754 binary32 and binary64). The arithmetic, the comparisons, the conversions and
  the functions of \<open>math.h\<close> belong to the platform: they are the fields of \<open>fpu\<close>.
  A conversion to an integer type is undefined (\<open>None\<close>) where the value does not fit.
\<close>

type_synonym float = "32 word"
type_synonym double = "64 word"

record fpu =
  f32_add :: "float \<Rightarrow> float \<Rightarrow> float"
  f32_sub :: "float \<Rightarrow> float \<Rightarrow> float"
  f32_mul :: "float \<Rightarrow> float \<Rightarrow> float"
  f32_div :: "float \<Rightarrow> float \<Rightarrow> float"
  f32_gt :: "float \<Rightarrow> float \<Rightarrow> bool"
  f32_lt :: "float \<Rightarrow> float \<Rightarrow> bool"
  f64_add :: "double \<Rightarrow> double \<Rightarrow> double"
  f64_sub :: "double \<Rightarrow> double \<Rightarrow> double"
  f64_mul :: "double \<Rightarrow> double \<Rightarrow> double"
  f64_div :: "double \<Rightarrow> double \<Rightarrow> double"
  f64_gt :: "double \<Rightarrow> double \<Rightarrow> bool"
  f64_lt :: "double \<Rightarrow> double \<Rightarrow> bool"
  f64_to_f32 :: "double \<Rightarrow> float"
  f64_to_i32 :: "double \<Rightarrow> 32 word option"
  f64_to_i64 :: "double \<Rightarrow> 64 word option"
  f64_to_u64 :: "double \<Rightarrow> 64 word option"
  u64_to_f64 :: "64 word \<Rightarrow> double"
  i32_to_f64 :: "32 word \<Rightarrow> double"
  f64_ceil :: "double \<Rightarrow> double"
  f64_sqrt :: "double \<Rightarrow> double"
  f64_log :: "double \<Rightarrow> double"
  f64_cos :: "double \<Rightarrow> double"

definition f32_zero :: float where "f32_zero = 0x00000000"
definition f32_one :: float where "f32_one = 0x3F800000"
definition f64_zero :: double where "f64_zero = 0x0000000000000000"
definition f64_one :: double where "f64_one = 0x3FF0000000000000"

text \<open>
  \<open>data[i] = v i\<close> for \<open>i < n\<close>, the pattern of every initialising loop of the library.
\<close>

definition fill :: "nat \<Rightarrow> (nat \<Rightarrow> 'a::len word option) \<Rightarrow> byte list \<Rightarrow> byte list option" where
  "fill n v d =
     for_loop 0 n (\<lambda>i d. case v i of None \<Rightarrow> None | Some x \<Rightarrow> wr d i x) d"

definition tensr_zeros ::
  "heap \<Rightarrow> size_t list \<Rightarrow> size_t \<Rightarrow> TensrDType \<Rightarrow> TensrDevice \<Rightarrow> failure + Tensor" where
  "tensr_zeros h shp nd dt dev =
     (case tensr_create h shp nd dt dev of
        Inl e \<Rightarrow> Inl e
      | Inr t \<Rightarrow>
          (case memset (data t) 0 (unat (tsize t * tensr_dtype_size dt)) of
             None \<Rightarrow> Inl UndefinedBehaviour
           | Some d \<Rightarrow> Inr (t\<lparr>data := d\<rparr>)))"

text \<open>The store of a filling loop back into the tensor.\<close>

definition stored :: "Tensor \<Rightarrow> byte list option \<Rightarrow> failure + Tensor" where
  "stored t r = (case r of None \<Rightarrow> Inl UndefinedBehaviour | Some d \<Rightarrow> Inr (t\<lparr>data := d\<rparr>))"

definition tensr_ones ::
  "heap \<Rightarrow> size_t list \<Rightarrow> size_t \<Rightarrow> TensrDType \<Rightarrow> TensrDevice \<Rightarrow> failure + Tensor" where
  "tensr_ones h shp nd dt dev =
     (case tensr_create h shp nd dt dev of
        Inl e \<Rightarrow> Inl e
      | Inr t \<Rightarrow>
          if dt = TENSR_FLOAT32 then stored t (fill (unat (tsize t)) (\<lambda>i. Some f32_one) (data t))
          else if dt = TENSR_FLOAT64 then stored t (fill (unat (tsize t)) (\<lambda>i. Some f64_one) (data t))
          else if dt = TENSR_INT32 then stored t (fill (unat (tsize t)) (\<lambda>i. Some (1 :: 32 word)) (data t))
          else if dt = TENSR_INT64 then stored t (fill (unat (tsize t)) (\<lambda>i. Some (1 :: 64 word)) (data t))
          else Inr t)"

definition tensr_full ::
  "fpu \<Rightarrow> heap \<Rightarrow> size_t list \<Rightarrow> size_t \<Rightarrow> double \<Rightarrow> TensrDType \<Rightarrow> TensrDevice
     \<Rightarrow> failure + Tensor" where
  "tensr_full fp h shp nd v dt dev =
     (case tensr_create h shp nd dt dev of
        Inl e \<Rightarrow> Inl e
      | Inr t \<Rightarrow>
          if dt = TENSR_FLOAT32 then stored t (fill (unat (tsize t)) (\<lambda>i. Some (f64_to_f32 fp v)) (data t))
          else if dt = TENSR_FLOAT64 then stored t (fill (unat (tsize t)) (\<lambda>i. Some v) (data t))
          else if dt = TENSR_INT32 then stored t (fill (unat (tsize t)) (\<lambda>i. f64_to_i32 fp v) (data t))
          else if dt = TENSR_INT64 then stored t (fill (unat (tsize t)) (\<lambda>i. f64_to_i64 fp v) (data t))
          else Inr t)"

text \<open>\<open>start + i * step\<close> in \<open>double\<close>, the index converted from \<open>size_t\<close>.\<close>

definition affine :: "fpu \<Rightarrow> double \<Rightarrow> double \<Rightarrow> nat \<Rightarrow> double" where
  "affine fp start step i = f64_add fp start (f64_mul fp (u64_to_f64 fp (of_nat i)) step)"

definition tensr_arange ::
  "fpu \<Rightarrow> heap \<Rightarrow> double \<Rightarrow> double \<Rightarrow> double \<Rightarrow> TensrDType \<Rightarrow> TensrDevice
     \<Rightarrow> failure + Tensor" where
  "tensr_arange fp h start stop step dt dev =
     (case f64_to_u64 fp (f64_ceil fp (f64_div fp (f64_sub fp stop start) step)) of
        None \<Rightarrow> Inl UndefinedBehaviour
      | Some n \<Rightarrow>
          (case tensr_create h [n] 1 dt dev of
             Inl e \<Rightarrow> Inl e
           | Inr t \<Rightarrow>
               if dt = TENSR_FLOAT32
               then stored t (fill (unat n) (\<lambda>i. Some (f64_to_f32 fp (affine fp start step i))) (data t))
               else if dt = TENSR_FLOAT64
               then stored t (fill (unat n) (\<lambda>i. Some (affine fp start step i)) (data t))
               else if dt = TENSR_INT32
               then stored t (fill (unat n) (\<lambda>i. f64_to_i32 fp (affine fp start step i)) (data t))
               else if dt = TENSR_INT64
               then stored t (fill (unat n) (\<lambda>i. f64_to_i64 fp (affine fp start step i)) (data t))
               else Inr t))"

definition tensr_linspace ::
  "fpu \<Rightarrow> heap \<Rightarrow> double \<Rightarrow> double \<Rightarrow> size_t \<Rightarrow> TensrDType \<Rightarrow> TensrDevice
     \<Rightarrow> failure + Tensor" where
  "tensr_linspace fp h start stop num dt dev =
     (case tensr_create h [num] 1 dt dev of
        Inl e \<Rightarrow> Inl e
      | Inr t \<Rightarrow>
          (let step = f64_div fp (f64_sub fp stop start) (u64_to_f64 fp (num - 1))
           in if dt = TENSR_FLOAT32
              then stored t (fill (unat num) (\<lambda>i. Some (f64_to_f32 fp (affine fp start step i))) (data t))
              else if dt = TENSR_FLOAT64
              then stored t (fill (unat num) (\<lambda>i. Some (affine fp start step i)) (data t))
              else Inr t))"

text \<open>\<open>data[i * n + i] = one\<close> for \<open>i < n\<close>; the index is computed in \<open>size_t\<close>.\<close>

definition diagonal :: "size_t \<Rightarrow> 'a::len word \<Rightarrow> byte list \<Rightarrow> byte list option" where
  "diagonal n one d =
     for_loop 0 (unat n) (\<lambda>i d. wr d (unat (of_nat i * n + of_nat i)) one) d"

definition tensr_eye :: "heap \<Rightarrow> size_t \<Rightarrow> TensrDType \<Rightarrow> TensrDevice \<Rightarrow> failure + Tensor" where
  "tensr_eye h n dt dev =
     (case tensr_zeros h [n, n] 2 dt dev of
        Inl e \<Rightarrow> Inl e
      | Inr t \<Rightarrow>
          if dt = TENSR_FLOAT32 then stored t (diagonal n f32_one (data t))
          else if dt = TENSR_FLOAT64 then stored t (diagonal n f64_one (data t))
          else if dt = TENSR_INT32 then stored t (diagonal n (1 :: 32 word) (data t))
          else if dt = TENSR_INT64 then stored t (diagonal n (1 :: 64 word) (data t))
          else Inr t)"

definition tensr_copy :: "heap \<Rightarrow> Tensor \<Rightarrow> failure + Tensor" where
  "tensr_copy h src =
     (case tensr_create h (shape src) (ndim src) (dtype src) (device src) of
        Inl e \<Rightarrow> Inl e
      | Inr t \<Rightarrow>
          stored t (memcpy (data t) (data src) (unat (tsize src * tensr_dtype_size (dtype src)))))"

text \<open>
  \<open>tensr_reshape\<close>: the two blocks for \<open>shape\<close> and \<open>strides\<close> are used unchecked. The
  result shares the buffer of \<open>t\<close> (\<open>owns_data\<close> is false); \<open>data\<close> is its content.
\<close>

definition tensr_reshape :: "heap \<Rightarrow> Tensor \<Rightarrow> size_t list \<Rightarrow> size_t \<Rightarrow> failure + Tensor" where
  "tensr_reshape h t new_shape new_ndim =
     (if length new_shape < unat new_ndim then Inl UndefinedBehaviour
      else if compute_size new_shape new_ndim \<noteq> tsize t then Inl ReturnedNULL
      else if \<not> can_alloc h sizeof_Tensor then Inl ReturnedNULL
      else if \<not> can_alloc h (unat (new_ndim * 8)) then Inl UndefinedBehaviour
      else
        (case compute_strides (junk_words h (unat new_ndim)) (take (unat new_ndim) new_shape)
                new_ndim of
           Inl e \<Rightarrow> Inl e
         | Inr strd \<Rightarrow>
             Inr \<lparr>data = data t, shape = take (unat new_ndim) new_shape, strides = strd,
                  ndim = new_ndim, tsize = tsize t, dtype = dtype t, device = device t,
                  device_id = device_id t, owns_data = False\<rparr>))"

text \<open>
  \<open>tensr_transpose\<close>. With \<open>naxes = 0\<close> the axes are the reversal, written into a block
  that is used unchecked. The result comes from \<open>tensr_create\<close>: its buffer is fresh and
  nothing is ever stored into it.
\<close>

definition permute_shape :: "size_t list \<Rightarrow> size_t list \<Rightarrow> nat \<Rightarrow> size_t list \<Rightarrow> size_t list option" where
  "permute_shape src axes n dst =
     for_loop 0 n
       (\<lambda>i dst. if i < length axes \<and> unat (axes ! i) < length src \<and> i < length dst
                then Some (dst[i := src ! unat (axes ! i)]) else None) dst"

definition tensr_transpose :: "heap \<Rightarrow> Tensor \<Rightarrow> size_t list \<Rightarrow> size_t \<Rightarrow> failure + Tensor" where
  "tensr_transpose h t axes naxes =
     (if naxes = 0 \<and> ndim t \<noteq> 0 \<and> \<not> can_alloc h (unat (ndim t * 8)) then Inl UndefinedBehaviour
      else
        (let axes' = (if naxes = 0 then map (\<lambda>i. ndim t - 1 - of_nat i) [0..<unat (ndim t)]
                      else axes)
         in case tensr_create h (shape t) (ndim t) (dtype t) (device t) of
              Inl e \<Rightarrow> Inl e
            | Inr result \<Rightarrow>
                (case permute_shape (shape t) axes' (unat (ndim t)) (shape result) of
                   None \<Rightarrow> Inl UndefinedBehaviour
                 | Some shp \<Rightarrow>
                     (case compute_strides (strides result) shp (ndim result) of
                        Inl e \<Rightarrow> Inl e
                      | Inr strd \<Rightarrow> Inr (result\<lparr>shape := shp, strides := strd\<rparr>)))))"

section \<open>src/ops/arithmetic.c\<close>

text \<open>
  Integer arithmetic on \<open>int32_t\<close> and \<open>int64_t\<close> elements: two's complement, a sum,
  difference or product that does not fit wraps around. A division by zero, or of the
  least value by \<open>-1\<close>, is undefined; the quotient is truncated towards zero.
\<close>

definition int_add :: "'a::len word \<Rightarrow> 'a word \<Rightarrow> 'a word option" where
  "int_add x y = Some (x + y)"

definition int_sub :: "'a::len word \<Rightarrow> 'a word \<Rightarrow> 'a word option" where
  "int_sub x y = Some (x - y)"

definition int_mul :: "'a::len word \<Rightarrow> 'a word \<Rightarrow> 'a word option" where
  "int_mul x y = Some (x * y)"

definition int_div :: "'a::len word \<Rightarrow> 'a word \<Rightarrow> 'a word option" where
  "int_div x y =
     (if y = 0 \<or> (sint x = - (2 ^ (LENGTH('a) - 1)) \<and> sint y = - 1) then None
      else Some (word_of_int (sgn (sint x) * sgn (sint y) * (\<bar>sint x\<bar> div \<bar>sint y\<bar>))))"

text \<open>\<open>for (i = 0; i < n; i++) rr[i] = ra[i] op rb[i]\<close> at one element type.\<close>

definition binary_loop ::
  "('a::len word \<Rightarrow> 'a word \<Rightarrow> 'a word option) \<Rightarrow> byte list \<Rightarrow> byte list \<Rightarrow> nat \<Rightarrow> byte list
     \<Rightarrow> byte list option" where
  "binary_loop f ra rb n rr =
     for_loop 0 n
       (\<lambda>i rr. case rd ra i of
                  None \<Rightarrow> None
                | Some x \<Rightarrow>
                    (case rd rb i of
                       None \<Rightarrow> None
                     | Some y \<Rightarrow> (case f x y of None \<Rightarrow> None | Some z \<Rightarrow> wr rr i z))) rr"

text \<open>
  The macro \<open>BINARY_OP(name, op)\<close>; \<open>op\<close> is given by what it means at each of the four
  element types the macro has a branch for.
\<close>

definition BINARY_OP ::
  "(float \<Rightarrow> float \<Rightarrow> float) \<Rightarrow> (double \<Rightarrow> double \<Rightarrow> double)
     \<Rightarrow> (32 word \<Rightarrow> 32 word \<Rightarrow> 32 word option) \<Rightarrow> (64 word \<Rightarrow> 64 word \<Rightarrow> 64 word option)
     \<Rightarrow> heap \<Rightarrow> Tensor \<Rightarrow> Tensor \<Rightarrow> failure + Tensor" where
  "BINARY_OP opf opd opi opl h a b =
     (if tsize a \<noteq> tsize b \<or> dtype a \<noteq> dtype b then Inl ReturnedNULL
      else
        (case tensr_create h (shape a) (ndim a) (dtype a) (device a) of
           Inl e \<Rightarrow> Inl e
         | Inr result \<Rightarrow>
             if dtype a = TENSR_FLOAT32
             then stored result
                    (binary_loop (\<lambda>x y. Some (opf x y)) (data a) (data b) (unat (tsize a)) (data result))
             else if dtype a = TENSR_FLOAT64
             then stored result
                    (binary_loop (\<lambda>x y. Some (opd x y)) (data a) (data b) (unat (tsize a)) (data result))
             else if dtype a = TENSR_INT32
             then stored result (binary_loop opi (data a) (data b) (unat (tsize a)) (data result))
             else if dtype a = TENSR_INT64
             then stored result (binary_loop opl (data a) (data b) (unat (tsize a)) (data result))
             else Inr result))"

definition tensr_add :: "fpu \<Rightarrow> heap \<Rightarrow> Tensor \<Rightarrow> Tensor \<Rightarrow> failure + Tensor" where
  "tensr_add fp = BINARY_OP (f32_add fp) (f64_add fp) int_add int_add"

definition tensr_sub :: "fpu \<Rightarrow> heap \<Rightarrow> Tensor \<Rightarrow> Tensor \<Rightarrow> failure + Tensor" where
  "tensr_sub fp = BINARY_OP (f32_sub fp) (f64_sub fp) int_sub int_sub"

definition tensr_mul :: "fpu \<Rightarrow> heap \<Rightarrow> Tensor \<Rightarrow> Tensor \<Rightarrow> failure + Tensor" where
  "tensr_mul fp = BINARY_OP (f32_mul fp) (f64_mul fp) int_mul int_mul"

definition tensr_div :: "fpu \<Rightarrow> heap \<Rightarrow> Tensor \<Rightarrow> Tensor \<Rightarrow> failure + Tensor" where
  "tensr_div fp = BINARY_OP (f32_div fp) (f64_div fp) int_div int_div"

section \<open>src/ops/reduction.c\<close>

text \<open>
  \<open>acc = init; for (i = 0; i < n; i++) acc = step acc data[i]\<close>: the accumulation of the
  full reductions and of the dot products.
\<close>

definition reduce_loop ::
  "('a::len word \<Rightarrow> 'a word \<Rightarrow> 'a word) \<Rightarrow> 'a word \<Rightarrow> byte list \<Rightarrow> nat \<Rightarrow> 'a word option" where
  "reduce_loop step init d n =
     for_loop 0 n (\<lambda>i acc. case rd d i of None \<Rightarrow> None | Some x \<Rightarrow> Some (step acc x)) init"

text \<open>\<open>((T*)result->data)[0] = v\<close>.\<close>

definition store_scalar :: "Tensor \<Rightarrow> 'a::len word option \<Rightarrow> failure + Tensor" where
  "store_scalar result v =
     (case v of None \<Rightarrow> Inl UndefinedBehaviour | Some x \<Rightarrow> stored result (wr (data result) 0 x))"

text \<open>
  \<open>tensr_sum\<close>. The local array \<open>shape\<close> has one entry, whatever \<open>ndim\<close> is passed on to
  \<open>tensr_create\<close>. The argument \<open>axes\<close> is never read.
\<close>

definition tensr_sum ::
  "fpu \<Rightarrow> heap \<Rightarrow> Tensor \<Rightarrow> int list \<Rightarrow> size_t \<Rightarrow> bool \<Rightarrow> failure + Tensor" where
  "tensr_sum fp h t axes naxes keepdims =
     (if naxes = 0
      then
        (case tensr_create h [1] (if keepdims then ndim t else 1) (dtype t) (device t) of
           Inl e \<Rightarrow> Inl e
         | Inr result \<Rightarrow>
             if dtype t = TENSR_FLOAT32
             then store_scalar result (reduce_loop (f32_add fp) f32_zero (data t) (unat (tsize t)))
             else if dtype t = TENSR_FLOAT64
             then store_scalar result (reduce_loop (f64_add fp) f64_zero (data t) (unat (tsize t)))
             else Inr result)
      else Inl ReturnedNULL)"

text \<open>
  \<open>FLT_MAX\<close> and \<open>DBL_MAX\<close> of \<open>float.h\<close>, and the unary minus on a floating constant,
  which flips the sign bit.
\<close>

definition FLT_MAX :: float where "FLT_MAX = 0x7F7FFFFF"
definition DBL_MAX :: double where "DBL_MAX = 0x7FEFFFFFFFFFFFFF"

definition f32_neg :: "float \<Rightarrow> float" where "f32_neg x = x XOR 0x80000000"
definition f64_neg :: "double \<Rightarrow> double" where "f64_neg x = x XOR 0x8000000000000000"

text \<open>\<open>tensr_max\<close> and \<open>tensr_min\<close> read none of \<open>axes\<close>, \<open>naxes\<close> and \<open>keepdims\<close>.\<close>

definition tensr_max ::
  "fpu \<Rightarrow> heap \<Rightarrow> Tensor \<Rightarrow> int list \<Rightarrow> size_t \<Rightarrow> bool \<Rightarrow> failure + Tensor" where
  "tensr_max fp h t axes naxes keepdims =
     (case tensr_create h [1] 1 (dtype t) (device t) of
        Inl e \<Rightarrow> Inl e
      | Inr result \<Rightarrow>
          if dtype t = TENSR_FLOAT32
          then store_scalar result
                 (reduce_loop (\<lambda>max_val x. if f32_gt fp x max_val then x else max_val)
                    (f32_neg FLT_MAX) (data t) (unat (tsize t)))
          else if dtype t = TENSR_FLOAT64
          then store_scalar result
                 (reduce_loop (\<lambda>max_val x. if f64_gt fp x max_val then x else max_val)
                    (f64_neg DBL_MAX) (data t) (unat (tsize t)))
          else Inr result)"

definition tensr_min ::
  "fpu \<Rightarrow> heap \<Rightarrow> Tensor \<Rightarrow> int list \<Rightarrow> size_t \<Rightarrow> bool \<Rightarrow> failure + Tensor" where
  "tensr_min fp h t axes naxes keepdims =
     (case tensr_create h [1] 1 (dtype t) (device t) of
        Inl e \<Rightarrow> Inl e
      | Inr result \<Rightarrow>
          if dtype t = TENSR_FLOAT32
          then store_scalar result
                 (reduce_loop (\<lambda>min_val x. if f32_lt fp x min_val then x else min_val)
                    FLT_MAX (data t) (unat (tsize t)))
          else if dtype t = TENSR_FLOAT64
          then store_scalar result
                 (reduce_loop (\<lambda>min_val x. if f64_lt fp x min_val then x else min_val)
                    DBL_MAX (data t) (unat (tsize t)))
          else Inr result)"

section \<open>src/linalg/linalg.c\<close>

text \<open>
  The innermost loop of \<open>tensr_matmul\<close>:
  \<open>sum = 0; for (p = 0; p < k; p++) sum += da[i * k + p] * db[p * n + j]\<close>, the indices
  computed in \<open>size_t\<close>.
\<close>

definition dot_loop ::
  "('a::len word \<Rightarrow> 'a word \<Rightarrow> 'a word) \<Rightarrow> ('a word \<Rightarrow> 'a word \<Rightarrow> 'a word) \<Rightarrow> 'a word
     \<Rightarrow> byte list \<Rightarrow> byte list \<Rightarrow> size_t \<Rightarrow> size_t \<Rightarrow> nat \<Rightarrow> nat \<Rightarrow> 'a word option" where
  "dot_loop add mul zero da db k n i j =
     for_loop 0 (unat k)
       (\<lambda>p acc. case rd da (unat (of_nat i * k + of_nat p)) of
                   None \<Rightarrow> None
                 | Some x \<Rightarrow>
                     (case rd db (unat (of_nat p * n + of_nat j)) of
                        None \<Rightarrow> None
                      | Some y \<Rightarrow> Some (add acc (mul x y)))) zero"

definition matmul_loops ::
  "('a::len word \<Rightarrow> 'a word \<Rightarrow> 'a word) \<Rightarrow> ('a word \<Rightarrow> 'a word \<Rightarrow> 'a word) \<Rightarrow> 'a word
     \<Rightarrow> byte list \<Rightarrow> byte list \<Rightarrow> size_t \<Rightarrow> size_t \<Rightarrow> size_t \<Rightarrow> byte list \<Rightarrow> byte list option" where
  "matmul_loops add mul zero da db m n k dr =
     for_loop 0 (unat m)
       (\<lambda>i dr. for_loop 0 (unat n)
          (\<lambda>j dr. case dot_loop add mul zero da db k n i j of
                     None \<Rightarrow> None
                   | Some acc \<Rightarrow> wr dr (unat (of_nat i * n + of_nat j)) acc) dr) dr"

definition tensr_matmul :: "fpu \<Rightarrow> heap \<Rightarrow> Tensor \<Rightarrow> Tensor \<Rightarrow> failure + Tensor" where
  "tensr_matmul fp h a b =
     (if ndim a \<noteq> 2 \<or> ndim b \<noteq> 2 then Inl ReturnedNULL
      else if length (shape a) < 2 \<or> length (shape b) < 2 then Inl UndefinedBehaviour
      else if shape a ! 1 \<noteq> shape b ! 0 then Inl ReturnedNULL
      else
        (let m = shape a ! 0; n = shape b ! 1; k = shape a ! 1
         in case tensr_zeros h [m, n] 2 (dtype a) (device a) of
              Inl e \<Rightarrow> Inl e
            | Inr result \<Rightarrow>
                if dtype a = TENSR_FLOAT32
                then stored result
                       (matmul_loops (f32_add fp) (f32_mul fp) f32_zero (data a) (data b) m n k
                          (data result))
                else if dtype a = TENSR_FLOAT64
                then stored result
                       (matmul_loops (f64_add fp) (f64_mul fp) f64_zero (data a) (data b) m n k
                          (data result))
                else Inr result))"

definition tensr_inv :: "heap \<Rightarrow> Tensor \<Rightarrow> failure + Tensor" where
  "tensr_inv h t =
     (if ndim t \<noteq> 2 then Inl ReturnedNULL
      else if length (shape t) < 2 then Inl UndefinedBehaviour
      else if shape t ! 0 \<noteq> shape t ! 1 then Inl ReturnedNULL
      else tensr_copy h t)"

section \<open>src/io/io.c\<close>

text \<open>
  The index computation of \<open>tensr_get\<close> and \<open>tensr_set\<close>:
  \<open>idx = 0; for (i = 0; i < nindices; i++) idx += indices[i] * t->strides[i]\<close>.
\<close>

definition element_index :: "Tensor \<Rightarrow> size_t list \<Rightarrow> size_t \<Rightarrow> size_t option" where
  "element_index t indices nindices =
     for_loop 0 (unat nindices)
       (\<lambda>i idx. if i < length indices \<and> i < length (strides t)
                 then Some (idx + indices ! i * strides t ! i) else None) 0"

text \<open>
  Files. A file is its bytes; \<open>fopen(name, "rb")\<close> fails where \<open>files\<close> has nothing
  under the name, \<open>fopen(name, "wb")\<close> where the name is not \<open>writable\<close>. The writes of
  \<open>tensr_save\<close> are taken to arrive in full (the library does not look at what
  \<open>fwrite\<close> returns).
\<close>

record filesys =
  files :: "string \<Rightarrow> byte list option"
  writable :: "string \<Rightarrow> bool"

text \<open>The \<open>size_t\<close> objects stored in a block of bytes.\<close>

definition words_of :: "byte list \<Rightarrow> size_t list" where
  "words_of bs = map (\<lambda>i. of_bytes (take 8 (drop (8 * i) bs))) [0..<length bs div 8]"

text \<open>
  \<open>tensr_save\<close>: the status returned and the file system afterwards. \<open>fwrite\<close> reads
  \<open>ndim\<close> entries of \<open>shape\<close> and \<open>size\<close> elements of \<open>data\<close>, whatever the blocks hold.
\<close>

definition tensr_save :: "filesys \<Rightarrow> string \<Rightarrow> Tensor \<Rightarrow> failure + int \<times> filesys" where
  "tensr_save fs filename t =
     (if \<not> writable fs filename then Inr (- 1, fs)
      else if length (shape t) < unat (ndim t) then Inl UndefinedBehaviour
      else if length (data t) < unat (tensr_dtype_size (dtype t)) * unat (tsize t)
      then Inl UndefinedBehaviour
      else
        Inr (0, fs\<lparr>files := (files fs)(filename \<mapsto>
               to_bytes (ndim t) @ to_bytes (dtype t) @ to_bytes (tsize t)
               @ concat (map to_bytes (take (unat (ndim t)) (shape t)))
               @ take (unat (tensr_dtype_size (dtype t)) * unat (tsize t)) (data t))\<rparr>))"

text \<open>
  \<open>fread(buf, sz, n, f)\<close>: the bytes that arrive replace the start of \<open>buf\<close>; the result
  is the buffer and the rest of the stream. The library never looks at the count
  \<open>fread\<close> returns.
\<close>

definition fread :: "byte list \<Rightarrow> nat \<Rightarrow> nat \<Rightarrow> byte list \<Rightarrow> byte list \<times> byte list" where
  "fread buf sz n stream =
     (let got = take (sz * n) stream in (got @ drop (length got) buf, drop (sz * n) stream))"

text \<open>
  \<open>tensr_load\<close>. The locals \<open>ndim\<close>, \<open>dtype\<close> and \<open>size\<close> are not initialised: they
  start as \<open>ndim0\<close>, \<open>dtype0\<close>, \<open>size0\<close>, whatever the stack holds. The block for
  \<open>shape\<close> is used unchecked. The payload is read by the \<open>size\<close> of the file, into the
  buffer \<open>tensr_create\<close> made from the \<open>shape\<close> of the file.
\<close>

definition tensr_load ::
  "heap \<Rightarrow> size_t \<times> TensrDType \<times> size_t \<Rightarrow> filesys \<Rightarrow> string \<Rightarrow> failure + Tensor" where
  "tensr_load h locals fs filename =
     (case files fs filename of
        None \<Rightarrow> Inl ReturnedNULL
      | Some f0 \<Rightarrow>
          (let (ndim0, dtype0, size0) = locals;
               (b1, f1) = fread (to_bytes ndim0) 8 1 f0;
               nd = (of_bytes b1 :: size_t);
               (b2, f2) = fread (to_bytes dtype0) 4 1 f1;
               dt = (of_bytes b2 :: TensrDType);
               (b3, f3) = fread (to_bytes size0) 8 1 f2;
               sz = (of_bytes b3 :: size_t)
           in case malloc h (unat (nd * 8)) of
                None \<Rightarrow>
                  if take (8 * unat nd) f3 \<noteq> [] then Inl UndefinedBehaviour
                  else tensr_create h [] nd dt TENSR_CPU
              | Some blk \<Rightarrow>
                  if length blk < length (take (8 * unat nd) f3) then Inl UndefinedBehaviour
                  else
                    (let (b4, f4) = fread blk 8 (unat nd) f3
                     in case tensr_create h (words_of b4) nd dt TENSR_CPU of
                          Inl e \<Rightarrow> Inl e
                        | Inr t \<Rightarrow>
                            if length (data t) < length (take (unat (tensr_dtype_size dt) * unat sz) f4)
                            then Inl UndefinedBehaviour
                            else Inr (t\<lparr>data := fst (fread (data t) (unat (tensr_dtype_size dt))
                                                         (unat sz) f4)\<rparr>))))"

section \<open>src/random/random.c\<close>

text \<open>
  The generator of the C library: \<open>srand\<close> makes its state from a seed, \<open>rand\<close> draws
  from a state; \<open>RAND_MAX\<close> is its bound. The state of the library is the static
  \<open>rng_state\<close> together with the state of that generator.
\<close>

record 'g libc =
  srand :: "32 word \<Rightarrow> 'g"
  rand :: "'g \<Rightarrow> 32 word \<times> 'g"
  RAND_MAX :: "32 word"

record 'g rng =
  rng_state :: "32 word"
  gen :: 'g

definition tensr_seed :: "'g libc \<Rightarrow> 32 word \<Rightarrow> 'g rng \<Rightarrow> 'g rng" where
  "tensr_seed lc seed st = \<lparr>rng_state = seed, gen = srand lc seed\<rparr>"

text \<open>\<open>if (rng_state == 0) tensr_seed((unsigned int)time(NULL))\<close>; \<open>now\<close> is the clock.\<close>

definition seed_if_unseeded :: "'g libc \<Rightarrow> 64 word \<Rightarrow> 'g rng \<Rightarrow> 'g rng" where
  "seed_if_unseeded lc now st = (if rng_state st = 0 then tensr_seed lc (ucast now) st else st)"

definition rand_uniform :: "'g libc \<Rightarrow> fpu \<Rightarrow> 'g \<Rightarrow> double \<times> 'g" where
  "rand_uniform lc fp g =
     (let (r, g') = rand lc g
      in (f64_div fp (i32_to_f64 fp r) (i32_to_f64 fp (RAND_MAX lc)), g'))"

definition f64_minus_two :: double where "f64_minus_two = 0xC000000000000000"
definition f64_two :: double where "f64_two = 0x4000000000000000"
definition M_PI :: double where "M_PI = 0x400921FB54442D18"

definition rand_normal :: "'g libc \<Rightarrow> fpu \<Rightarrow> 'g \<Rightarrow> double \<times> 'g" where
  "rand_normal lc fp g =
     (let (u1, g1) = rand_uniform lc fp g;
          (u2, g2) = rand_uniform lc fp g1
      in (f64_mul fp (f64_sqrt fp (f64_mul fp f64_minus_two (f64_log fp u1)))
            (f64_cos fp (f64_mul fp (f64_mul fp f64_two M_PI) u2)), g2))"

text \<open>\<open>for (i = 0; i < n; i++) data[i] = draw()\<close>, the generator threaded through.\<close>

definition draw_loop ::
  "('g \<Rightarrow> 'a::len word option \<times> 'g) \<Rightarrow> nat \<Rightarrow> byte list \<Rightarrow> 'g \<Rightarrow> (byte list \<times> 'g) option" where
  "draw_loop draw n d g =
     for_loop 0 n
       (\<lambda>i (d, g). case draw g of
                      (None, g') \<Rightarrow> None
                    | (Some x, g') \<Rightarrow> (case wr d i x of None \<Rightarrow> None | Some d' \<Rightarrow> Some (d', g')))
       (d, g)"

text \<open>What a generating function leaves: its result and the state of the generator.\<close>

definition drawn ::
  "'g rng \<Rightarrow> Tensor \<Rightarrow> (byte list \<times> 'g) option \<Rightarrow> (failure + Tensor) \<times> 'g rng" where
  "drawn st t r =
     (case r of
        None \<Rightarrow> (Inl UndefinedBehaviour, st)
      | Some (d, g) \<Rightarrow> (Inr (t\<lparr>data := d\<rparr>), st\<lparr>gen := g\<rparr>))"

definition tensr_rand ::
  "'g libc \<Rightarrow> fpu \<Rightarrow> heap \<Rightarrow> 64 word \<Rightarrow> 'g rng \<Rightarrow> size_t list \<Rightarrow> size_t \<Rightarrow> TensrDevice
     \<Rightarrow> (failure + Tensor) \<times> 'g rng" where
  "tensr_rand lc fp h now st0 shp nd dev =
     (let st = seed_if_unseeded lc now st0
      in case tensr_create h shp nd TENSR_FLOAT32 dev of
           Inl e \<Rightarrow> (Inl e, st)
         | Inr t \<Rightarrow>
             drawn st t
               (draw_loop (\<lambda>g. let (u, g') = rand_uniform lc fp g in (Some (f64_to_f32 fp u), g'))
                  (unat (tsize t)) (data t) (gen st)))"

definition tensr_randn ::
  "'g libc \<Rightarrow> fpu \<Rightarrow> heap \<Rightarrow> 64 word \<Rightarrow> 'g rng \<Rightarrow> size_t list \<Rightarrow> size_t \<Rightarrow> TensrDevice
     \<Rightarrow> (failure + Tensor) \<times> 'g rng" where
  "tensr_randn lc fp h now st0 shp nd dev =
     (let st = seed_if_unseeded lc now st0
      in case tensr_create h shp nd TENSR_FLOAT32 dev of
           Inl e \<Rightarrow> (Inl e, st)
         | Inr t \<Rightarrow>
             drawn st t
               (draw_loop (\<lambda>g. let (u, g') = rand_normal lc fp g in (Some (f64_to_f32 fp u), g'))
                  (unat (tsize t)) (data t) (gen st)))"

text \<open>
  \<open>low + (rand() % range)\<close> on \<open>int\<close>: the remainder has the sign of \<open>rand()\<close>, and is
  undefined for \<open>range = 0\<close>.
\<close>

definition int_rem :: "32 word \<Rightarrow> 32 word \<Rightarrow> 32 word option" where
  "int_rem x y =
     (if y = 0 \<or> (sint x = - (2 ^ 31) \<and> sint y = - 1) then None
      else Some (word_of_int (sgn (sint x) * (\<bar>sint x\<bar> mod \<bar>sint y\<bar>))))"

definition tensr_randint ::
  "'g libc \<Rightarrow> heap \<Rightarrow> 64 word \<Rightarrow> 'g rng \<Rightarrow> 32 word \<Rightarrow> 32 word \<Rightarrow> size_t list \<Rightarrow> size_t
     \<Rightarrow> TensrDevice \<Rightarrow> (failure + Tensor) \<times> 'g rng" where
  "tensr_randint lc h now st0 low high shp nd dev =
     (let st = seed_if_unseeded lc now st0
      in case tensr_create h shp nd TENSR_INT32 dev of
           Inl e \<Rightarrow> (Inl e, st)
         | Inr t \<Rightarrow>
             drawn st t
               (draw_loop (\<lambda>g. let (r, g') = rand lc g
                                in (case int_rem r (high - low) of
                                      None \<Rightarrow> None
                                    | Some x \<Rightarrow> Some (low + x), g'))
                  (unat (tsize t)) (data t) (gen st)))"

section \<open>A reference floating-point unit\<close>

text \<open>
  The arithmetic of IEEE 754 in the default rounding mode (to nearest, ties to even), on
  the bit patterns of a binary format with \<open>ew\<close> exponent bits and \<open>fw\<close> fraction bits
  (\<open>float\<close>: 8 and 23, \<open>double\<close>: 11 and 52). It is the platform the examples run on.
  A pattern is a number \<open>(-1)\<^sup>s * m * 2\<^sup>e\<close>, an infinity or a NaN; every NaN that an
  operation makes is the quiet NaN with the sign bit clear.
\<close>

datatype fpval = Finite bool int int | Infinity bool | NaN

text \<open>The number of binary digits of a positive integer.\<close>

function bitlen :: "int \<Rightarrow> int" where
  "bitlen n = (if n \<le> 0 then 0 else 1 + bitlen (n div 2))"
  by pat_completeness auto
termination
  by (relation "measure nat") auto

declare bitlen.simps [simp del]

definition fp_bias :: "nat \<Rightarrow> int" where
  "fp_bias ew = 2 ^ (ew - 1) - 1"

definition fp_decode :: "nat \<Rightarrow> nat \<Rightarrow> 'a::len word \<Rightarrow> fpval" where
  "fp_decode ew fw w =
     (let s = bit w (ew + fw); e = (uint w div 2 ^ fw) mod 2 ^ ew; m = uint w mod 2 ^ fw
      in if e = 2 ^ ew - 1 then (if m = 0 then Infinity s else NaN)
         else if e = 0 then Finite s m (1 - fp_bias ew - int fw)
         else Finite s (2 ^ fw + m) (e - fp_bias ew - int fw))"

definition fp_sign :: "nat \<Rightarrow> nat \<Rightarrow> bool \<Rightarrow> int" where
  "fp_sign ew fw s = (if s then 2 ^ (ew + fw) else 0)"

definition fp_zero :: "nat \<Rightarrow> nat \<Rightarrow> bool \<Rightarrow> 'a::len word" where
  "fp_zero ew fw s = word_of_int (fp_sign ew fw s)"

definition fp_inf :: "nat \<Rightarrow> nat \<Rightarrow> bool \<Rightarrow> 'a::len word" where
  "fp_inf ew fw s = word_of_int (fp_sign ew fw s + (2 ^ ew - 1) * 2 ^ fw)"

definition fp_nan :: "nat \<Rightarrow> nat \<Rightarrow> 'a::len word" where
  "fp_nan ew fw = word_of_int ((2 ^ ew - 1) * 2 ^ fw + 2 ^ (fw - 1))"

text \<open>
  The pattern nearest to \<open>(-1)\<^sup>s * (m + x) * 2\<^sup>e\<close>, where \<open>0 < x < 1\<close> if \<open>sticky\<close> and
  \<open>x = 0\<close> otherwise. The exponent of the last place is \<open>e'\<close>; a carry out of the
  fraction moves into the exponent field, and past the largest exponent the result is an
  infinity.
\<close>

definition fp_round :: "nat \<Rightarrow> nat \<Rightarrow> bool \<Rightarrow> int \<Rightarrow> int \<Rightarrow> bool \<Rightarrow> 'a::len word" where
  "fp_round ew fw s m e sticky =
     (if m = 0 then fp_zero ew fw s
      else
        (let emin = 1 - fp_bias ew - int fw;
             e' = max (e + bitlen m - int (fw + 1)) emin;
             m' = (if e' \<le> e then m * 2 ^ nat (e - e')
                   else
                     (let d = nat (e' - e); q = m div 2 ^ d; r = m mod 2 ^ d; half = 2 ^ (d - 1)
                      in if half < r \<or> (r = half \<and> (sticky \<or> odd q)) then q + 1 else q));
             bits = (e' - emin) * 2 ^ fw + m'
         in if (2 ^ ew - 1) * 2 ^ fw \<le> bits then fp_inf ew fw s
            else word_of_int (fp_sign ew fw s + bits)))"

definition with_sign :: "bool \<Rightarrow> int \<Rightarrow> int" where
  "with_sign s m = (if s then - m else m)"

fun fp_add_val :: "nat \<Rightarrow> nat \<Rightarrow> fpval \<Rightarrow> fpval \<Rightarrow> 'a::len word" where
  "fp_add_val ew fw NaN y = fp_nan ew fw"
| "fp_add_val ew fw x NaN = fp_nan ew fw"
| "fp_add_val ew fw (Infinity s) (Infinity s') = (if s = s' then fp_inf ew fw s else fp_nan ew fw)"
| "fp_add_val ew fw (Infinity s) y = fp_inf ew fw s"
| "fp_add_val ew fw x (Infinity s) = fp_inf ew fw s"
| "fp_add_val ew fw (Finite s1 m1 e1) (Finite s2 m2 e2) =
     (let e = min e1 e2;
          c = with_sign s1 m1 * 2 ^ nat (e1 - e) + with_sign s2 m2 * 2 ^ nat (e2 - e)
      in if c = 0 then fp_zero ew fw (s1 \<and> s2) else fp_round ew fw (c < 0) \<bar>c\<bar> e False)"

fun fp_mul_val :: "nat \<Rightarrow> nat \<Rightarrow> fpval \<Rightarrow> fpval \<Rightarrow> 'a::len word" where
  "fp_mul_val ew fw NaN y = fp_nan ew fw"
| "fp_mul_val ew fw x NaN = fp_nan ew fw"
| "fp_mul_val ew fw (Infinity s) (Infinity s') = fp_inf ew fw (s \<noteq> s')"
| "fp_mul_val ew fw (Infinity s) (Finite s' m e) =
     (if m = 0 then fp_nan ew fw else fp_inf ew fw (s \<noteq> s'))"
| "fp_mul_val ew fw (Finite s' m e) (Infinity s) =
     (if m = 0 then fp_nan ew fw else fp_inf ew fw (s \<noteq> s'))"
| "fp_mul_val ew fw (Finite s1 m1 e1) (Finite s2 m2 e2) =
     fp_round ew fw (s1 \<noteq> s2) (m1 * m2) (e1 + e2) False"

text \<open>
  The quotient of the significands is taken with \<open>fw + 3\<close> bits or more; what the integer
  division leaves is the sticky bit.
\<close>

fun fp_div_val :: "nat \<Rightarrow> nat \<Rightarrow> fpval \<Rightarrow> fpval \<Rightarrow> 'a::len word" where
  "fp_div_val ew fw NaN y = fp_nan ew fw"
| "fp_div_val ew fw x NaN = fp_nan ew fw"
| "fp_div_val ew fw (Infinity s) (Infinity s') = fp_nan ew fw"
| "fp_div_val ew fw (Infinity s) (Finite s' m e) = fp_inf ew fw (s \<noteq> s')"
| "fp_div_val ew fw (Finite s' m e) (Infinity s) = fp_zero ew fw (s \<noteq> s')"
| "fp_div_val ew fw (Finite s1 m1 e1) (Finite s2 m2 e2) =
     (if m2 = 0 then (if m1 = 0 then fp_nan ew fw else fp_inf ew fw (s1 \<noteq> s2))
      else
        (let k = nat (int fw + 3 + bitlen m2)
         in fp_round ew fw (s1 \<noteq> s2) (m1 * 2 ^ k div m2) (e1 - e2 - int k)
              (m1 * 2 ^ k mod m2 \<noteq> 0)))"

fun fp_less_val :: "fpval \<Rightarrow> fpval \<Rightarrow> bool" where
  "fp_less_val NaN y = False"
| "fp_less_val x NaN = False"
| "fp_less_val (Infinity s) (Infinity s') = (s \<and> \<not> s')"
| "fp_less_val (Infinity s) y = s"
| "fp_less_val x (Infinity s) = (\<not> s)"
| "fp_less_val (Finite s1 m1 e1) (Finite s2 m2 e2) =
     (let e = min e1 e2
      in with_sign s1 m1 * 2 ^ nat (e1 - e) < with_sign s2 m2 * 2 ^ nat (e2 - e))"

definition fp_add :: "nat \<Rightarrow> nat \<Rightarrow> 'a::len word \<Rightarrow> 'a word \<Rightarrow> 'a word" where
  "fp_add ew fw x y = fp_add_val ew fw (fp_decode ew fw x) (fp_decode ew fw y)"

definition fp_sub :: "nat \<Rightarrow> nat \<Rightarrow> 'a::len word \<Rightarrow> 'a word \<Rightarrow> 'a word" where
  "fp_sub ew fw x y = fp_add ew fw x (y XOR word_of_int (fp_sign ew fw True))"

definition fp_mul :: "nat \<Rightarrow> nat \<Rightarrow> 'a::len word \<Rightarrow> 'a word \<Rightarrow> 'a word" where
  "fp_mul ew fw x y = fp_mul_val ew fw (fp_decode ew fw x) (fp_decode ew fw y)"

definition fp_div :: "nat \<Rightarrow> nat \<Rightarrow> 'a::len word \<Rightarrow> 'a word \<Rightarrow> 'a word" where
  "fp_div ew fw x y = fp_div_val ew fw (fp_decode ew fw x) (fp_decode ew fw y)"

definition fp_less :: "nat \<Rightarrow> nat \<Rightarrow> 'a::len word \<Rightarrow> 'a word \<Rightarrow> bool" where
  "fp_less ew fw x y = fp_less_val (fp_decode ew fw x) (fp_decode ew fw y)"

text \<open>The conversion of a value to a format.\<close>

fun fp_encode :: "nat \<Rightarrow> nat \<Rightarrow> fpval \<Rightarrow> 'a::len word" where
  "fp_encode ew fw NaN = fp_nan ew fw"
| "fp_encode ew fw (Infinity s) = fp_inf ew fw s"
| "fp_encode ew fw (Finite s m e) = fp_round ew fw s m e False"

text \<open>
  The conversion to an integer type drops the fraction; it is undefined where the
  result is not a value of the type (\<open>lo \<le> v \<le> hi\<close>).
\<close>

fun fp_to_int :: "int \<Rightarrow> int \<Rightarrow> fpval \<Rightarrow> 'a::len word option" where
  "fp_to_int lo hi (Finite s m e) =
     (let v = with_sign s (if 0 \<le> e then m * 2 ^ nat e else m div 2 ^ nat (- e))
      in if lo \<le> v \<and> v \<le> hi then Some (word_of_int v) else None)"
| "fp_to_int lo hi x = None"

text \<open>\<open>ceil\<close>: the least integral value not below the argument.\<close>

fun fp_ceil_val :: "fpval \<Rightarrow> fpval" where
  "fp_ceil_val (Finite s m e) =
     (if 0 \<le> e then Finite s m e
      else
        (let q = m div 2 ^ nat (- e); r = m mod 2 ^ nat (- e)
         in Finite s (if \<not> s \<and> r \<noteq> 0 then q + 1 else q) 0))"
| "fp_ceil_val x = x"

text \<open>
  The unit: arithmetic, comparisons and conversions as above; \<open>sqrt\<close>, \<open>log\<close> and \<open>cos\<close>
  are those of the mathematical library, which are given.
\<close>

definition ieee754 :: "(double \<Rightarrow> double) \<Rightarrow> (double \<Rightarrow> double) \<Rightarrow> (double \<Rightarrow> double) \<Rightarrow> fpu" where
  "ieee754 sqrt_fn log_fn cos_fn =
     \<lparr>f32_add = fp_add 8 23, f32_sub = fp_sub 8 23, f32_mul = fp_mul 8 23, f32_div = fp_div 8 23,
      f32_gt = (\<lambda>x y. fp_less 8 23 y x), f32_lt = fp_less 8 23,
      f64_add = fp_add 11 52, f64_sub = fp_sub 11 52, f64_mul = fp_mul 11 52,
      f64_div = fp_div 11 52,
      f64_gt = (\<lambda>x y. fp_less 11 52 y x), f64_lt = fp_less 11 52,
      f64_to_f32 = (\<lambda>x. fp_encode 8 23 (fp_decode 11 52 x)),
      f64_to_i32 = (\<lambda>x. fp_to_int (- (2 ^ 31)) (2 ^ 31 - 1) (fp_decode 11 52 x)),
      f64_to_i64 = (\<lambda>x. fp_to_int (- (2 ^ 63)) (2 ^ 63 - 1) (fp_decode 11 52 x)),
      f64_to_u64 = (\<lambda>x. fp_to_int 0 (2 ^ 64 - 1) (fp_decode 11 52 x)),
      u64_to_f64 = (\<lambda>w. fp_round 11 52 False (uint w) 0 False),
      i32_to_f64 = (\<lambda>w. fp_round 11 52 (sint w < 0) \<bar>sint w\<bar> 0 False),
      f64_ceil = (\<lambda>x. fp_encode 11 52 (fp_ceil_val (fp_decode 11 52 x))),
      f64_sqrt = sqrt_fn, f64_log = log_fn, f64_cos = cos_fn\<rparr>"

section \<open>Example inputs\<close>

text \<open>A heap on which every request succeeds; fresh memory holds the byte \<open>0xAA\<close>.\<close>

definition heap_ok :: heap where
  "heap_ok = \<lparr>can_alloc = (\<lambda>n. True), junk = (\<lambda>i. 0xAA)\<rparr>"

text \<open>
  A tensor as \<open>tensr_create\<close> lays it out, from its shape, its row-major strides, its
  size and the bytes of its buffer.
\<close>

definition tensor_of ::
  "TensrDType \<Rightarrow> size_t list \<Rightarrow> size_t list \<Rightarrow> size_t \<Rightarrow> byte list \<Rightarrow> Tensor" where
  "tensor_of dt shp strd sz d =
     \<lparr>data = d, shape = shp, strides = strd, ndim = of_nat (length shp), tsize = sz, dtype = dt,
      device = TENSR_CPU, device_id = 0, owns_data = True\<rparr>"

text \<open>The \<open>float\<close> matrix \<open>[[1, 2, 3], [4, 5, 6]]\<close>.\<close>

definition matrix_2x3 :: Tensor where
  "matrix_2x3 =
     tensor_of TENSR_FLOAT32 [2, 3] [3, 1] 6
       (concat (map to_bytes
          [0x3F800000, 0x40000000, 0x40400000, 0x40800000, 0x40A00000, 0x40C00000 :: float]))"

text \<open>The \<open>float\<close> matrices \<open>[[0, 0], [0, 0]]\<close> (singular) and \<open>[[2, 0], [0, 2]]\<close>.\<close>

definition zero_2x2 :: Tensor where
  "zero_2x2 = tensor_of TENSR_FLOAT32 [2, 2] [2, 1] 4 (replicate 16 0)"

definition twice_identity_2x2 :: Tensor where
  "twice_identity_2x2 =
     tensor_of TENSR_FLOAT32 [2, 2] [2, 1] 4
       (concat (map to_bytes [0x40000000, 0, 0, 0x40000000 :: float]))"

text \<open>
  The element of a \<open>float\<close> tensor at the coordinates \<open>indices\<close>, found as \<open>tensr_get\<close>
  finds it.
\<close>

definition float_at :: "Tensor \<Rightarrow> size_t list \<Rightarrow> float option" where
  "float_at t indices =
     (case element_index t indices (ndim t) of None \<Rightarrow> None | Some idx \<Rightarrow> rd (data t) (unat idx))"

text \<open>An empty \<open>float\<close> tensor: shape \<open>[0]\<close>, no element.\<close>

definition empty_f32 :: Tensor where
  "empty_f32 = tensor_of TENSR_FLOAT32 [0] [1] 0 []"

text \<open>
  The generator the C standard gives as an example for \<open>rand\<close> and \<open>srand\<close>
  (\<open>next = next * 1103515245 + 12345; return (next / 65536) % 32768\<close>), its state an
  \<open>unsigned long\<close>.
\<close>

definition iso_libc :: "64 word libc" where
  "iso_libc =
     \<lparr>srand = (\<lambda>seed. ucast seed),
      rand = (\<lambda>next. let n = next * 1103515245 + 12345 in (ucast ((n div 65536) mod 32768), n)),
      RAND_MAX = 32767\<rparr>"

text \<open>The state of the library when the program starts: as if after \<open>srand(1)\<close>.\<close>

definition rng_at_start :: "'g libc \<Rightarrow> 'g rng" where
  "rng_at_start lc = \<lparr>rng_state = 0, gen = srand lc 1\<rparr>"

text \<open>
  The reference unit with a mathematical library that returns zero: no example calls
  \<open>sqrt\<close>, \<open>log\<close> or \<open>cos\<close>.
\<close>

definition ieee754_unit :: fpu where
  "ieee754_unit = ieee754 (\<lambda>x. 0) (\<lambda>x. 0) (\<lambda>x. 0)"

text \<open>Tensors of \<open>int32_t\<close>, \<open>uint8_t\<close> and \<open>float\<close> elements with contiguous layout.\<close>

definition int32_tensor :: "size_t list \<Rightarrow> size_t list \<Rightarrow> 32 word list \<Rightarrow> Tensor" where
  "int32_tensor shp strd xs =
     tensor_of TENSR_INT32 shp strd (of_nat (length xs)) (concat (map to_bytes xs))"

definition uint8_tensor :: "size_t list \<Rightarrow> size_t list \<Rightarrow> 8 word list \<Rightarrow> Tensor" where
  "uint8_tensor shp strd xs = tensor_of TENSR_UINT8 shp strd (of_nat (length xs)) xs"

definition float_tensor :: "size_t list \<Rightarrow> size_t list \<Rightarrow> float list \<Rightarrow> Tensor" where
  "float_tensor shp strd xs =
     tensor_of TENSR_FLOAT32 shp strd (of_nat (length xs)) (concat (map to_bytes xs))"

text \<open>A file system with no file, where every name can be opened for writing.\<close>

definition empty_disk :: filesys where
  "empty_disk = \<lparr>files = (\<lambda>name. None), writable = (\<lambda>name. True)\<rparr>"

text \<open>A file system that holds one file.\<close>

definition disk_with :: "string \<Rightarrow> byte list \<Rightarrow> filesys" where
  "disk_with name bytes = \<lparr>files = (\<lambda>n. if n = name then Some bytes else None),
     writable = (\<lambda>n. True)\<rparr>"

text \<open>A heap on which every request succeeds; fresh memory holds zero bytes.\<close>

definition heap_zero :: heap where
  "heap_zero = \<lparr>can_alloc = (\<lambda>n. True), junk = (\<lambda>i. 0)\<rparr>"

text \<open>A heap on which every request succeeds; fresh memory holds the given bytes.\<close>

definition heap_holding :: "byte list \<Rightarrow> heap" where
  "heap_holding bytes =
     \<lparr>can_alloc = (\<lambda>n. True), junk = (\<lambda>i. if i < length bytes then bytes ! i else 0)\<rparr>"

section \<open>The invariant of a contiguous tensor\<close>

text \<open>
  What the data model asks of a contiguous tensor: \<open>shape\<close> and \<open>strides\<close> have \<open>ndim\<close>
  entries, \<open>strides[ndim-1] == 1\<close>, \<open>strides[i] == strides[i+1] * shape[i+1]\<close> for
  \<open>i < ndim - 1\<close>, and \<open>size\<close> is the product of \<open>shape\<close>. The products are those of
  \<open>size_t\<close>, as in the C expressions.
\<close>

definition contiguous :: "Tensor \<Rightarrow> bool" where
  "contiguous t \<longleftrightarrow>
     length (shape t) = unat (ndim t) \<and> length (strides t) = unat (ndim t)
     \<and> strides t ! (unat (ndim t) - 1) = 1
     \<and> (\<forall>i \<in> {0..<unat (ndim t) - 1}. strides t ! i = strides t ! (i + 1) * shape t ! (i + 1))
     \<and> tsize t = prod_list (shape t)"

section \<open>Well-formed tensors\<close>

text \<open>
  A tensor as \<open>tensr_create\<close> makes it when nothing overflows: at least one dimension,
  \<open>ndim\<close> entries in \<open>shape\<close>, \<open>size\<close> the product of \<open>shape\<close>, and a buffer of
  \<open>size * tensr_dtype_size(dtype)\<close> bytes.
\<close>

definition well_formed :: "Tensor \<Rightarrow> bool" where
  "well_formed t \<longleftrightarrow>
     ndim t \<noteq> 0 \<and> unat (ndim t) < 2 ^ 31 \<and> length (shape t) = unat (ndim t)
     \<and> tsize t = compute_size (shape t) (ndim t)
     \<and> unat (tsize t) * unat (tensr_dtype_size (dtype t)) < 2 ^ 64
     \<and> length (data t) = unat (tsize t) * unat (tensr_dtype_size (dtype t))"

section \<open>What an element-wise result is\<close>

text \<open>
  \<open>r\<close> carries the shape, the type and the device of \<open>a\<close>, and its flat element \<open>i\<close> is
  \<open>g a[i] b[i]\<close> for every \<open>i < size\<close>, the elements being of the type \<open>'a word\<close>.
\<close>

definition elementwise ::
  "('a::len word \<Rightarrow> 'a word \<Rightarrow> 'a word) \<Rightarrow> Tensor \<Rightarrow> Tensor \<Rightarrow> Tensor \<Rightarrow> bool" where
  "elementwise g a b r \<longleftrightarrow>
     shape r = shape a \<and> ndim r = ndim a \<and> tsize r = tsize a \<and> dtype r = dtype a
     \<and> device r = device a
     \<and> (\<forall>i \<in> {0..<unat (tsize a)}.
           case (rd (data a) i, rd (data b) i) of
             (Some x, Some y) \<Rightarrow> rd (data r) i = Some (g x y)
           | _ \<Rightarrow> False)"

section \<open>What a matrix product is\<close>

text \<open>
  The element \<open>[i, j]\<close> of a row-major matrix with \<open>cols\<close> columns held in the buffer \<open>d\<close>,
  and the entry \<open>[i, j]\<close> of the product of an \<open>m \<times> k\<close> matrix with a \<open>k \<times> n\<close> matrix:
  the sum over \<open>p < k\<close> of \<open>a[i, p] * b[p, j]\<close>, added up from zero in the order of \<open>p\<close>.
  \<open>r\<close> is the product of \<open>a\<close> and \<open>b\<close> when it has the shape \<open>[m, n]\<close>, the type and the
  device of \<open>a\<close>, and these entries.
\<close>

definition matrix_entry :: "byte list \<Rightarrow> nat \<Rightarrow> nat \<Rightarrow> nat \<Rightarrow> 'a::len word" where
  "matrix_entry d cols i j = (case rd d (i * cols + j) of None \<Rightarrow> 0 | Some x \<Rightarrow> x)"

definition product_entry ::
  "('a::len word \<Rightarrow> 'a word \<Rightarrow> 'a word) \<Rightarrow> ('a word \<Rightarrow> 'a word \<Rightarrow> 'a word) \<Rightarrow> 'a word
     \<Rightarrow> byte list \<Rightarrow> byte list \<Rightarrow> nat \<Rightarrow> nat \<Rightarrow> nat \<Rightarrow> nat \<Rightarrow> 'a word" where
  "product_entry add mul zero da db k n i j =
     foldl (\<lambda>acc p. add acc (mul (matrix_entry da k i p) (matrix_entry db n p j))) zero [0..<k]"

definition matrix_product ::
  "('a::len word \<Rightarrow> 'a word \<Rightarrow> 'a word) \<Rightarrow> ('a word \<Rightarrow> 'a word \<Rightarrow> 'a word) \<Rightarrow> 'a word
     \<Rightarrow> size_t \<Rightarrow> size_t \<Rightarrow> size_t \<Rightarrow> Tensor \<Rightarrow> Tensor \<Rightarrow> Tensor \<Rightarrow> bool" where
  "matrix_product add mul zero m k n a b r \<longleftrightarrow>
     shape r = [m, n] \<and> ndim r = 2 \<and> tsize r = m * n \<and> dtype r = dtype a \<and> device r = device a
     \<and> (\<forall>i \<in> {0..<unat m}. \<forall>j \<in> {0..<unat n}.
           rd (data r) (i * unat n + j)
             = Some (product_entry add mul zero (data a) (data b) (unat k) (unat n) i j))"

section \<open>Loops, bytes and strides\<close>

lemma for_loop_rule:
  assumes "I i s" and "i \<le> n"
    and "\<And>j s. i \<le> j \<Longrightarrow> j < n \<Longrightarrow> I j s \<Longrightarrow> \<exists>s'. body j s = Some s' \<and> I (Suc j) s'"
  shows "\<exists>s'. for_loop i n body s = Some s' \<and> I n s'"
  using assms
proof (induction i n body s rule: for_loop.induct)
  case (1 i n body s)
  show ?case
  proof (cases "i < n")
    case True
    then obtain s' where s': "body i s = Some s'" "I (Suc i) s'"
      using "1.prems" by blast
    have "\<exists>s''. for_loop (Suc i) n body s' = Some s'' \<and> I n s''"
      using "1.IH" [OF True s'(1) s'(2)] True "1.prems"(3) by simp
    then show ?thesis
      using True s' by (subst for_loop.simps) simp
  next
    case False
    then show ?thesis
      using "1.prems" by (subst for_loop.simps) simp
  qed
qed

lemma for_loop_empty: "n \<le> i \<Longrightarrow> for_loop i n body s = Some s"
  by (subst for_loop.simps) simp

lemma strides_loop_spec:
  assumes "- 1 \<le> i" and "nat (i + 1) < length strd"
  shows "length (strides_loop i strd shp) = length strd
       \<and> (\<forall>j. nat (i + 1) \<le> j \<and> j < length strd \<longrightarrow> strides_loop i strd shp ! j = strd ! j)
       \<and> (\<forall>j < nat (i + 1). strides_loop i strd shp ! j
              = strides_loop i strd shp ! (j + 1) * shp ! (j + 1))"
  using assms
proof (induction i strd shp rule: strides_loop.induct)
  case (1 i strd shp)
  show ?case
  proof (cases "0 \<le> i")
    case False
    then show ?thesis
      using "1.prems" by (subst (1 2 3 4) strides_loop.simps) simp
  next
    case True
    let ?s = "strd[nat i := strd ! (nat i + 1) * shp ! (nat i + 1)]"
    let ?r = "strides_loop (i - 1) ?s shp"
    have eq: "strides_loop i strd shp = ?r"
      using True by (subst strides_loop.simps) simp
    have ih: "length ?r = length ?s"
      "\<And>j. nat i \<le> j \<Longrightarrow> j < length ?s \<Longrightarrow> ?r ! j = ?s ! j"
      "\<And>j. j < nat i \<Longrightarrow> ?r ! j = ?r ! (j + 1) * shp ! (j + 1)"
      using "1.IH" [OF True] True "1.prems" by (simp_all add: nat_add_distrib)
    have i1: "nat (i + 1) = nat i + 1"
      using True by (simp add: nat_add_distrib)
    have len: "nat i + 1 < length strd"
      using "1.prems" i1 by simp
    have a: "?r ! nat i = strd ! (nat i + 1) * shp ! (nat i + 1)"
      using ih(2) [of "nat i"] len by simp
    have b: "?r ! (nat i + 1) = strd ! (nat i + 1)"
      using ih(2) [of "nat i + 1"] len by simp
    show ?thesis
      unfolding eq i1
    proof (intro conjI allI impI)
      show "length ?r = length strd" using ih(1) by simp
    next
      fix j assume "nat i + 1 \<le> j \<and> j < length strd"
      then show "?r ! j = strd ! j" using ih(2) [of j] by simp
    next
      fix j assume "j < nat i + 1"
      then consider "j < nat i" | "j = nat i" by linarith
      then show "?r ! j = ?r ! (j + 1) * shp ! (j + 1)"
      proof cases
        case 1 then show ?thesis using ih(3) by simp
      next
        case 2 then show ?thesis using a b by simp
      qed
    qed
  qed
qed

lemma sint_ucast_ndim:
  assumes "unat (nd :: size_t) < 2 ^ 31"
  shows "sint (ucast nd :: 32 word) = int (unat nd)"
proof -
  have lt: "uint nd < 2 ^ 31"
  proof -
    have "int (unat nd) < int (2 ^ 31)"
      using assms by (simp only: of_nat_less_iff)
    then show ?thesis by simp
  qed
  have "uint (ucast nd :: 32 word) = take_bit 32 (uint nd)"
    by (simp add: unsigned_ucast_eq)
  also have "\<dots> = uint nd"
    using lt by (simp add: take_bit_int_eq_self)
  finally have u: "uint (ucast nd :: 32 word) = uint nd" .
  have "sint (ucast nd :: 32 word) = signed_take_bit 31 (uint nd)"
    by (simp add: sint_uint u)
  also have "\<dots> = uint nd"
  proof (rule signed_take_bit_int_eq_self)
    have "- (2 ^ 31) \<le> (0::int)" by simp
    also have "(0::int) \<le> uint nd" by simp
    finally show "- (2 ^ 31) \<le> uint nd" .
    show "uint nd < 2 ^ 31" using lt .
  qed
  finally show ?thesis by simp
qed

lemma length_to_bytes [simp]: "length (to_bytes (w :: 'a::len word)) = LENGTH('a) div 8"
  by (simp add: to_bytes_def)

lemma bit_of_bytes:
  "bit (of_bytes bs :: 'a::len word) n
     \<longleftrightarrow> n < LENGTH('a) \<and> n div 8 < length bs \<and> bit (bs ! (n div 8)) (n mod 8)"
proof (induction bs arbitrary: n)
  case Nil
  then show ?case by (simp add: of_bytes_def)
next
  case (Cons b bs)
  have step: "of_bytes (b # bs) = (ucast b OR push_bit 8 (of_bytes bs) :: 'a word)"
    by (simp add: of_bytes_def)
  show ?case
  proof (cases "n < 8")
    case True
    then show ?thesis
      by (auto simp: step bit_simps dest: bit_imp_le_length)
  next
    case False
    then have n: "n div 8 = Suc ((n - 8) div 8)" "n mod 8 = (n - 8) mod 8"
      by (simp_all add: le_div_geq le_mod_geq)
    have "\<not> bit b n"
      using False by (auto dest: bit_imp_le_length)
    then show ?thesis
      using False Cons.IH [of "n - 8"] by (auto simp: step bit_simps n)
  qed
qed

lemma of_bytes_to_bytes:
  assumes "8 dvd LENGTH('a::len)"
  shows "of_bytes (to_bytes w) = (w :: 'a word)"
proof (rule bit_word_eqI)
  fix n assume n: "n < LENGTH('a)"
  from assms obtain c where c: "LENGTH('a) = 8 * c" by (elim dvdE)
  have k: "n div 8 < LENGTH('a) div 8"
    using n c by (simp add: less_mult_imp_div_less mult.commute)
  have "bit (to_bytes w ! (n div 8)) (n mod 8) \<longleftrightarrow> bit w (8 * (n div 8) + n mod 8)"
    using k by (simp add: to_bytes_def bit_simps)
  then show "bit (of_bytes (to_bytes w) :: 'a word) n \<longleftrightarrow> bit w n"
    using n k by (simp add: bit_of_bytes)
qed

lemma wr_Some:
  "(i + 1) * (LENGTH('a::len) div 8) \<le> length bs \<Longrightarrow> \<exists>bs'. wr bs i (v :: 'a word) = Some bs'"
  by (simp add: wr_def Let_def)

lemma length_wr:
  assumes "wr bs i (v :: 'a::len word) = Some bs'"
  shows "length bs' = length bs"
proof -
  let ?w = "LENGTH('a) div 8"
  have le: "(i + 1) * ?w \<le> length bs" and bs': "bs' = take (i * ?w) bs @ to_bytes v @ drop ((i + 1) * ?w) bs"
    using assms by (auto simp: wr_def Let_def split: if_splits)
  have "i * ?w \<le> length bs" using le by simp
  then show ?thesis using le by (simp add: bs')
qed

lemma rd_wr_same:
  assumes "8 dvd LENGTH('a::len)" and "wr bs i (v :: 'a word) = Some bs'"
  shows "rd bs' i = Some v"
proof -
  let ?w = "LENGTH('a) div 8"
  have le: "(i + 1) * ?w \<le> length bs" and bs': "bs' = take (i * ?w) bs @ to_bytes v @ drop ((i + 1) * ?w) bs"
    using assms(2) by (auto simp: wr_def Let_def split: if_splits)
  have l: "length (take (i * ?w) bs) = i * ?w" using le by simp
  have "take ?w (drop (i * ?w) bs') = to_bytes v"
    unfolding bs' using l by simp
  moreover have "(i + 1) * ?w \<le> length bs'"
    using le length_wr [OF assms(2)] by simp
  ultimately show ?thesis
    using of_bytes_to_bytes [OF assms(1), of v] by (simp add: rd_def)
qed

lemma rd_wr_other:
  assumes "wr bs i (v :: 'a::len word) = Some bs'" and "j \<noteq> i"
  shows "(rd bs' j :: 'a word option) = rd bs j"
proof -
  let ?w = "LENGTH('a) div 8"
  have le: "(i + 1) * ?w \<le> length bs" and bs': "bs' = take (i * ?w) bs @ to_bytes v @ drop ((i + 1) * ?w) bs"
    using assms(1) by (auto simp: wr_def Let_def split: if_splits)
  have len: "length bs' = length bs" by (rule length_wr [OF assms(1)])
  have l1: "length (take (i * ?w) bs) = i * ?w" using le by simp
  have "take ?w (drop (j * ?w) bs') = take ?w (drop (j * ?w) bs)" if "(j + 1) * ?w \<le> length bs"
  proof (rule nth_equalityI)
    show "length (take ?w (drop (j * ?w) bs')) = length (take ?w (drop (j * ?w) bs))"
      using len by simp
  next
    fix k assume "k < length (take ?w (drop (j * ?w) bs'))"
    then have k: "k < ?w" by simp
    have in_bs: "j * ?w + k < length bs" using that k by simp
    consider "j < i" | "i < j" using assms(2) by linarith
    then have "bs' ! (j * ?w + k) = bs ! (j * ?w + k)"
    proof cases
      case 1
      then have "(j + 1) * ?w \<le> i * ?w" by (intro mult_le_mono1) simp
      then have "j * ?w + k < i * ?w" using k by simp
      then show ?thesis unfolding bs' using in_bs by (simp add: nth_append)
    next
      case 2
      then have "(i + 1) * ?w \<le> j * ?w" by (intro mult_le_mono1) simp
      then have ge: "i * ?w + ?w \<le> j * ?w + k" by simp
      then have "\<not> j * ?w + k < i * ?w" "\<not> j * ?w + k - i * ?w < ?w" by linarith+
      moreover have "(i + 1) * ?w + (j * ?w + k - i * ?w - ?w) = j * ?w + k"
        using ge by simp
      ultimately show ?thesis unfolding bs' using le by (simp add: nth_append l1)
    qed
    then show "take ?w (drop (j * ?w) bs') ! k = take ?w (drop (j * ?w) bs) ! k"
      using k in_bs len by simp
  qed
  then show ?thesis
    by (auto simp: rd_def len Let_def)
qed

lemma rd_Some:
  "(i + 1) * (LENGTH('a::len) div 8) \<le> length bs \<Longrightarrow> \<exists>x. (rd bs i :: 'a word option) = Some x"
  by (simp add: rd_def Let_def)

lemma foldl_mult_prod_list: "foldl (\<lambda>sz d. sz * d) a xs = a * prod_list (xs :: 'a::comm_monoid_mult list)"
  by (induction xs arbitrary: a) (simp_all add: mult.assoc)

lemma compute_size_prod: "compute_size shp nd = prod_list (take (unat nd) shp)"
  by (simp add: compute_size_def foldl_mult_prod_list)

lemma compute_strides_ok:
  assumes "nd \<noteq> 0" and "unat nd < 2 ^ 31" and "length strd = unat nd" and "length shp = unat nd"
  shows "\<exists>r. compute_strides strd shp nd = Inr r \<and> length r = unat nd \<and> r ! (unat nd - 1) = 1
           \<and> (\<forall>j. j + 1 < unat nd \<longrightarrow> r ! j = r ! (j + 1) * shp ! (j + 1))"
proof -
  define n where "n = unat nd"
  let ?s = "strd[n - 1 := 1]"
  let ?i = "int n - 2"
  have pos: "0 < n" using assms(1) by (simp add: unat_gt_0 n_def)
  have i: "- 1 \<le> ?i" "nat (?i + 1) = n - 1" using pos by auto
  have "nat (?i + 1) < length ?s" using pos assms(3) i by (simp add: n_def)
  from strides_loop_spec [OF i(1) this, of shp]
  have r: "length (strides_loop ?i ?s shp) = length ?s"
    "\<And>j. n - 1 \<le> j \<Longrightarrow> j < length ?s \<Longrightarrow> strides_loop ?i ?s shp ! j = ?s ! j"
    "\<And>j. j < n - 1 \<Longrightarrow> strides_loop ?i ?s shp ! j = strides_loop ?i ?s shp ! (j + 1) * shp ! (j + 1)"
    unfolding i(2) by auto
  have "sint (ucast nd :: 32 word) - 2 = ?i"
    unfolding n_def using sint_ucast_ndim [OF assms(2)] by (simp only:)
  then have eq: "compute_strides strd shp nd = Inr (strides_loop ?i ?s shp)"
    using assms(1,3,4) unfolding compute_strides_def n_def by (simp only: if_False simp_thms order.strict_iff_not order_refl)
  have last: "strides_loop ?i ?s shp ! (n - 1) = 1"
    using r(2) [of "n - 1"] pos assms(3) by (simp add: n_def)
  have len: "length (strides_loop ?i ?s shp) = n"
    using r(1) assms(3) by (simp add: n_def)
  show ?thesis
    unfolding eq n_def [symmetric] using len r(3) last by auto
qed

lemma tensr_create_Inr:
  assumes "tensr_create h shp nd dt dev = Inr r" and "unat nd < 2 ^ 31"
  shows "contiguous r" and "shape r = take (unat nd) shp" and "ndim r = nd" and "dtype r = dt"
    and "device r = dev" and "tsize r = compute_size shp nd"
    and "data r = map (junk h) [0..<unat (compute_size shp nd * tensr_dtype_size dt)]"
    and "nd \<noteq> 0" and "unat nd \<le> length shp"
proof -
  have a: "can_alloc h sizeof_Tensor" "can_alloc h (unat (nd * 8))" "unat nd \<le> length shp"
    using assms(1) by (auto simp: tensr_create_def split: if_splits)
  obtain strd where strd: "compute_strides (junk_words h (unat nd)) (take (unat nd) shp) nd = Inr strd"
    using assms(1) a by (auto simp: tensr_create_def split: if_splits sum.splits)
  then show nz: "nd \<noteq> 0"
    by (auto simp: compute_strides_def split: if_splits)
  have r: "r = \<lparr>data = map (junk h) [0..<unat (compute_size shp nd * tensr_dtype_size dt)],
                shape = take (unat nd) shp, strides = strd, ndim = nd,
                tsize = compute_size shp nd, dtype = dt, device = dev, device_id = 0,
                owns_data = True\<rparr>"
    using assms(1) a strd
    by (auto simp: tensr_create_def malloc_def Let_def split: if_splits option.splits)
  show "shape r = take (unat nd) shp" "ndim r = nd" "dtype r = dt" "device r = dev"
    "tsize r = compute_size shp nd"
    "data r = map (junk h) [0..<unat (compute_size shp nd * tensr_dtype_size dt)]"
    "unat nd \<le> length shp"
    using a by (simp_all add: r)
  have "length (junk_words h (unat nd)) = unat nd" "length (take (unat nd) shp) = unat nd"
    using a by (simp_all add: junk_words_def)
  from compute_strides_ok [OF nz assms(2) this] strd
  have s: "length strd = unat nd" "strd ! (unat nd - 1) = 1"
    "\<And>j. j + 1 < unat nd \<Longrightarrow> strd ! j = strd ! (j + 1) * take (unat nd) shp ! (j + 1)"
    by auto
  show "contiguous r"
    using s a by (auto simp: contiguous_def r compute_size_prod)
qed

lemma tensr_create_ok:
  assumes "can_alloc h sizeof_Tensor" and "can_alloc h (unat (nd * 8))" and "nd \<noteq> 0"
    and "unat nd \<le> length shp"
    and "can_alloc h (unat (compute_size shp nd * tensr_dtype_size dt))"
  shows "\<exists>r. tensr_create h shp nd dt dev = Inr r"
  using assms
  by (simp add: tensr_create_def compute_strides_def junk_words_def malloc_def Let_def)

lemma unat_compute_size_one [simp]: "compute_size [1] 1 = 1"
  by (simp add: compute_size_def)

lemma scalar_result:
  assumes "tensr_create h [1] 1 dt dev = Inr result" and "8 dvd LENGTH('a::len)"
    and "unat (tensr_dtype_size dt) = LENGTH('a) div 8"
  shows "\<exists>r. store_scalar result (Some (x :: 'a word)) = Inr r \<and> shape r = [1] \<and> ndim r = 1
           \<and> tsize r = 1 \<and> dtype r = dt \<and> device r = dev \<and> rd (data r) 0 = Some x"
proof -
  have "unat (1 :: size_t) < 2 ^ 31" by simp
  note c = tensr_create_Inr [OF assms(1) this]
  have len: "length (data result) = LENGTH('a) div 8"
    using c(7) assms(3) by simp
  then obtain d where d: "wr (data result) 0 x = Some d"
    using wr_Some [of 0 "data result" x] by auto
  have "rd d 0 = Some x"
    by (rule rd_wr_same [OF assms(2) d])
  then show ?thesis
    using c(2-6) d by (simp add: store_scalar_def stored_def)
qed

lemma reduce_loop_empty: "reduce_loop f init d 0 = Some init"
  by (simp add: reduce_loop_def for_loop_empty)

lemma dtype_sizes [simp]:
  "tensr_dtype_size TENSR_FLOAT32 = 4" "tensr_dtype_size TENSR_FLOAT64 = 8"
  "tensr_dtype_size TENSR_INT32 = 4" "tensr_dtype_size TENSR_INT64 = 8"
  "tensr_dtype_size TENSR_UINT8 = 1" "tensr_dtype_size TENSR_BOOL = 1"
  by (simp_all add: tensr_dtype_size_def dtype_defs)

lemma dtype_distinct [simp]:
  "TENSR_FLOAT32 \<noteq> TENSR_FLOAT64" "TENSR_FLOAT32 \<noteq> TENSR_INT32" "TENSR_FLOAT32 \<noteq> TENSR_INT64"
  "TENSR_FLOAT64 \<noteq> TENSR_FLOAT32" "TENSR_FLOAT64 \<noteq> TENSR_INT32" "TENSR_FLOAT64 \<noteq> TENSR_INT64"
  "TENSR_INT32 \<noteq> TENSR_FLOAT32" "TENSR_INT32 \<noteq> TENSR_FLOAT64" "TENSR_INT32 \<noteq> TENSR_INT64"
  "TENSR_INT64 \<noteq> TENSR_FLOAT32" "TENSR_INT64 \<noteq> TENSR_FLOAT64" "TENSR_INT64 \<noteq> TENSR_INT32"
  by (simp_all add: dtype_defs)

lemma for_loop_inv:
  assumes "for_loop i n body s = Some s'" and "I i s" and "i \<le> n"
    and "\<And>j s s''. i \<le> j \<Longrightarrow> j < n \<Longrightarrow> I j s \<Longrightarrow> body j s = Some s'' \<Longrightarrow> I (Suc j) s''"
  shows "I n s'"
  using assms
proof (induction i n body s rule: for_loop.induct)
  case (1 i n body s)
  show ?case
  proof (cases "i < n")
    case True
    with "1.prems"(1) obtain s1 where s1: "body i s = Some s1" "for_loop (Suc i) n body s1 = Some s'"
      by (subst (asm) for_loop.simps) (auto split: option.splits)
    have "I (Suc i) s1"
      using "1.prems"(4) [of i s s1] True "1.prems"(2) s1(1) by simp
    then show ?thesis
      using "1.IH" [OF True s1(1) s1(2)] True "1.prems"(4) by simp
  next
    case False
    then have "s' = s" "i = n"
      using "1.prems"(1,3) by (subst (asm) for_loop.simps, simp)+
    then show ?thesis using "1.prems"(2) by simp
  qed
qed

lemma stored_Inr: "stored t x = Inr r \<Longrightarrow> \<exists>d. r = t\<lparr>data := d\<rparr>"
  by (auto simp: stored_def split: option.splits)

lemma contiguous_data [simp]: "contiguous (t\<lparr>data := d\<rparr>) = contiguous t"
  by (simp add: contiguous_def)

lemma stored_contiguous: "stored t x = Inr r \<Longrightarrow> contiguous t \<Longrightarrow> contiguous r"
  by (auto dest: stored_Inr)

lemma tensr_zeros_Inr:
  assumes "tensr_zeros h shp nd dt dev = Inr r"
  shows "\<exists>t d. tensr_create h shp nd dt dev = Inr t \<and> r = t\<lparr>data := d\<rparr>"
  using assms by (auto simp: tensr_zeros_def split: sum.splits option.splits)

lemma permute_shape_spec:
  assumes "permute_shape src axes n dst = Some shp" and "n \<le> length dst"
  shows "length shp = length dst
       \<and> (\<forall>i < n. i < length axes \<and> unat (axes ! i) < length src \<and> shp ! i = src ! unat (axes ! i))"
proof -
  let ?I = "\<lambda>k s. length s = length dst
       \<and> (\<forall>i < k. i < length axes \<and> unat (axes ! i) < length src \<and> s ! i = src ! unat (axes ! i))"
  have "?I n shp"
  proof (rule for_loop_inv [where I = ?I, OF assms(1) [unfolded permute_shape_def]])
    show "?I 0 dst" by simp
    show "0 \<le> n" by simp
  next
    fix j s s''
    assume j: "0 \<le> j" "j < n" and I: "?I j s"
      and b: "(if j < length axes \<and> unat (axes ! j) < length src \<and> j < length s
               then Some (s[j := src ! unat (axes ! j)]) else None) = Some s''"
    then have c: "j < length axes" "unat (axes ! j) < length src" "j < length s"
      and s'': "s'' = s[j := src ! unat (axes ! j)]"
      by (auto split: if_splits)
    show "?I (Suc j) s''"
      using I c by (auto simp: s'' less_Suc_eq nth_list_update)
  qed
  then show ?thesis by simp
qed

lemma compute_strides_Inr:
  assumes "compute_strides strd shp nd = Inr r" and "unat nd < 2 ^ 31"
    and "length strd = unat nd" and "length shp = unat nd"
  shows "length r = unat nd" and "r ! (unat nd - 1) = 1"
    and "\<And>j. j + 1 < unat nd \<Longrightarrow> r ! j = r ! (j + 1) * shp ! (j + 1)" and "nd \<noteq> 0"
proof -
  show nz: "nd \<noteq> 0"
    using assms(1) by (auto simp: compute_strides_def split: if_splits)
  from compute_strides_ok [OF nz assms(2-4)] assms(1)
  show "length r = unat nd" "r ! (unat nd - 1) = 1"
    "\<And>j. j + 1 < unat nd \<Longrightarrow> r ! j = r ! (j + 1) * shp ! (j + 1)"
    by auto
qed

lemma tensr_reshape_contiguous:
  assumes "tensr_reshape h t new_shape new_ndim = Inr r" and "unat new_ndim < 2 ^ 31"
  shows "contiguous r"
proof -
  let ?n = "unat new_ndim"
  have a: "?n \<le> length new_shape" "compute_size new_shape new_ndim = tsize t"
    using assms(1) by (auto simp: tensr_reshape_def split: if_splits)
  obtain strd where strd: "compute_strides (junk_words h ?n) (take ?n new_shape) new_ndim = Inr strd"
    and r: "r = \<lparr>data = data t, shape = take ?n new_shape, strides = strd, ndim = new_ndim,
                 tsize = tsize t, dtype = dtype t, device = device t, device_id = device_id t,
                 owns_data = False\<rparr>"
    using assms(1) by (auto simp: tensr_reshape_def split: if_splits sum.splits)
  have "length (junk_words h ?n) = ?n" "length (take ?n new_shape) = ?n"
    using a by (simp_all add: junk_words_def)
  note s = compute_strides_Inr [OF strd assms(2) this]
  show ?thesis
    using s(1-3) a by (auto simp: contiguous_def r compute_size_prod)
qed

lemma map_nth_upt_take: "n \<le> length xs \<Longrightarrow> map (\<lambda>i. f (xs ! i)) [0..<n] = map f (take n xs)"
  by (rule nth_equalityI) simp_all

lemma mset_reversal: "mset (map (\<lambda>i. n - 1 - i) [0..<n]) = mset [0..<n]"
proof -
  have "map (\<lambda>i. n - 1 - i) [0..<n] = rev [0..<n]"
    by (rule nth_equalityI) (simp_all add: rev_nth)
  then show ?thesis by simp
qed

lemma unat_reversed_axis:
  assumes "i < unat (nd :: size_t)"
  shows "unat (nd - 1 - of_nat i) = unat nd - 1 - i"
proof -
  have "i \<le> unat nd" using assms by simp
  then have i: "unat (of_nat i :: size_t) = i"
    by (rule le_unat_uoi)
  have nz: "nd \<noteq> 0"
    using assms by (auto simp: unat_gt_0 [symmetric])
  have one: "unat (nd - 1) = unat nd - 1"
    using nz by (simp add: unat_minus_one)
  have "of_nat i \<le> nd - 1"
    using assms i one by (simp add: word_le_nat_alt)
  then show ?thesis
    by (simp add: unat_sub i one)
qed

lemma prod_list_permuted:
  assumes "mset ks = mset [0..<length (xs :: 'a::comm_monoid_mult list)]"
  shows "prod_list (map (\<lambda>k. xs ! k) ks) = prod_list xs"
proof -
  have "prod_list (map (\<lambda>k. xs ! k) ks) = prod_mset (image_mset (\<lambda>k. xs ! k) (mset ks))"
    by (simp only: prod_mset_prod_list [symmetric] mset_map)
  also have "\<dots> = prod_mset (mset (map (\<lambda>k. xs ! k) [0..<length xs]))"
    by (simp add: assms)
  also have "\<dots> = prod_list xs"
    by (simp only: map_nth prod_mset_prod_list)
  finally show ?thesis .
qed

lemma tensr_transpose_contiguous:
  assumes tr: "tensr_transpose h t axes naxes = Inr r" and nd: "unat (ndim t) < 2 ^ 31"
    and perm: "naxes = 0 \<or> mset (map unat (take (unat (ndim t)) axes)) = mset [0..<unat (ndim t)]"
  shows "contiguous r"
proof -
  define n where "n = unat (ndim t)"
  define axes' where
    "axes' = (if naxes = 0 then map (\<lambda>i. ndim t - 1 - of_nat i) [0..<unat (ndim t)] else axes)"
  obtain result shp strd where
    c: "tensr_create h (shape t) (ndim t) (dtype t) (device t) = Inr result"
    and p: "permute_shape (shape t) axes' (unat (ndim t)) (shape result) = Some shp"
    and s: "compute_strides (strides result) shp (ndim result) = Inr strd"
    and r: "r = result\<lparr>shape := shp, strides := strd\<rparr>"
    using tr unfolding tensr_transpose_def axes'_def [symmetric] Let_def
    by (auto split: if_splits sum.splits option.splits)
  note cr = tensr_create_Inr [OF c nd]
  have lr: "length (shape result) = n" "length (strides result) = n"
    using cr(1,3) by (simp_all add: contiguous_def n_def)
  have ps: "length shp = n"
    "\<And>i. i < n \<Longrightarrow> i < length axes' \<and> unat (axes' ! i) < length (shape t)
              \<and> shp ! i = shape t ! unat (axes' ! i)"
    using permute_shape_spec [OF p] lr by (simp_all add: n_def)
  have "length (strides result) = unat (ndim result)" "length shp = unat (ndim result)"
    using lr ps(1) cr(3) by (simp_all add: n_def)
  note st = compute_strides_Inr [OF s _ this]
  have st': "length strd = n" "strd ! (n - 1) = 1"
    "\<And>j. j + 1 < n \<Longrightarrow> strd ! j = strd ! (j + 1) * shp ! (j + 1)"
    using st(1-3) nd cr(3) by (simp_all add: n_def)
  have ms: "mset (map (\<lambda>i. unat (axes' ! i)) [0..<n]) = mset [0..<n]"
  proof (cases "naxes = 0")
    case True
    have "map (\<lambda>i. unat (axes' ! i)) [0..<n] = map (\<lambda>i. n - 1 - i) [0..<n]"
      using True by (auto simp: axes'_def n_def unat_reversed_axis)
    then show ?thesis by (simp only: mset_reversal)
  next
    case False
    then have ax: "axes' = axes" by (simp add: axes'_def)
    have "n \<le> length axes"
    proof (cases n)
      case 0 then show ?thesis by simp
    next
      case (Suc k)
      then show ?thesis using ps(2) [of k] ax by simp
    qed
    then have "map (\<lambda>i. unat (axes' ! i)) [0..<n] = map unat (take n axes)"
      unfolding ax by (rule map_nth_upt_take)
    then show ?thesis using perm False by (simp add: n_def)
  qed
  have len_take: "length (take n (shape t)) = n"
    using cr(9) by (simp add: n_def)
  have "shp = map (\<lambda>i. shape t ! unat (axes' ! i)) [0..<n]"
    by (rule nth_equalityI) (simp_all add: ps)
  also have "\<dots> = map (\<lambda>k. take n (shape t) ! k) (map (\<lambda>i. unat (axes' ! i)) [0..<n])"
  proof -
    have "unat (axes' ! i) < n" if "i < n" for i
    proof -
      have "unat (axes' ! i) \<in> set (map (\<lambda>i. unat (axes' ! i)) [0..<n])"
        using that by simp
      then have "unat (axes' ! i) \<in># mset [0..<n]"
        by (simp only: ms [symmetric] set_mset_mset)
      then show ?thesis by simp
    qed
    then show ?thesis by simp
  qed
  finally have "prod_list shp = prod_list (take n (shape t))"
    using prod_list_permuted [of "map (\<lambda>i. unat (axes' ! i)) [0..<n]" "take n (shape t)"] ms len_take
    by simp
  then have sz: "tsize result = prod_list shp"
    using cr(6) by (simp add: compute_size_prod n_def)
  show ?thesis
    using st' ps(1) sz cr(3) by (auto simp: contiguous_def r n_def)
qed

lemma unat_prod_list:
  "prod_list (map unat ws) < 2 ^ LENGTH('a) \<Longrightarrow> unat (prod_list ws) = prod_list (map unat (ws :: 'a::len word list))"
proof (induction ws)
  case Nil
  then show ?case by simp
next
  case (Cons w ws)
  show ?case
  proof (cases "w = 0")
    case True
    then show ?thesis by simp
  next
    case False
    then have "0 < unat w" by (simp add: unat_gt_0)
    then have "prod_list (map unat ws) \<le> unat w * prod_list (map unat ws)" by simp
    moreover have "unat w * prod_list (map unat ws) < 2 ^ LENGTH('a)"
      using Cons.prems by simp
    ultimately have "prod_list (map unat ws) < 2 ^ LENGTH('a)"
      by (rule le_less_trans)
    then have ih: "unat (prod_list ws) = prod_list (map unat ws)" by (rule Cons.IH)
    have "unat w * unat (prod_list ws) < 2 ^ LENGTH('a)"
      using Cons.prems ih by simp
    then have "unat (w * prod_list ws) = unat w * unat (prod_list ws)"
      by (simp only: unat_mult_lem)
    then show ?thesis using ih by simp
  qed
qed

lemma tensr_zeros_contiguous:
  "tensr_zeros h shp nd dt dev = Inr r \<Longrightarrow> unat nd < 2 ^ 31 \<Longrightarrow> contiguous r"
  by (auto dest!: tensr_zeros_Inr dest: tensr_create_Inr(1))

lemma tensr_ones_contiguous:
  "tensr_ones h shp nd dt dev = Inr r \<Longrightarrow> unat nd < 2 ^ 31 \<Longrightarrow> contiguous r"
  by (auto simp: tensr_ones_def split: sum.splits if_splits
      dest: stored_contiguous tensr_create_Inr(1))

lemma tensr_full_contiguous:
  "tensr_full fp h shp nd v dt dev = Inr r \<Longrightarrow> unat nd < 2 ^ 31 \<Longrightarrow> contiguous r"
  by (auto simp: tensr_full_def split: sum.splits if_splits
      dest: stored_contiguous tensr_create_Inr(1))

lemma small_ndim: "unat (1 :: size_t) < 2 ^ 31" "unat (2 :: size_t) < 2 ^ 31"
  by simp_all

lemma tensr_arange_contiguous:
  "tensr_arange fp h start stop step dt dev = Inr r \<Longrightarrow> contiguous r"
  by (auto simp: tensr_arange_def split: sum.splits if_splits option.splits
      dest: stored_contiguous tensr_create_Inr(1) [OF _ small_ndim(1)])

lemma tensr_linspace_contiguous:
  "tensr_linspace fp h start stop num dt dev = Inr r \<Longrightarrow> contiguous r"
  by (auto simp: tensr_linspace_def Let_def split: sum.splits if_splits
      dest: stored_contiguous tensr_create_Inr(1) [OF _ small_ndim(1)])

lemma tensr_eye_contiguous:
  "tensr_eye h n dt dev = Inr r \<Longrightarrow> contiguous r"
  by (auto simp: tensr_eye_def split: sum.splits if_splits
      dest: stored_contiguous tensr_zeros_contiguous [OF _ small_ndim(2)])

lemma tensr_copy_contiguous:
  "tensr_copy h src = Inr r \<Longrightarrow> unat (ndim src) < 2 ^ 31 \<Longrightarrow> contiguous r"
  by (auto simp: tensr_copy_def split: sum.splits
      dest: stored_contiguous tensr_create_Inr(1))

lemma binary_loop_total:
  assumes w: "8 dvd LENGTH('a::len)"
    and la: "n * (LENGTH('a) div 8) \<le> length ra"
    and lb: "n * (LENGTH('a) div 8) \<le> length rb"
    and lr: "n * (LENGTH('a) div 8) \<le> length rr"
  shows "\<exists>rr'. binary_loop (\<lambda>x y. Some (g x y)) ra rb n rr = Some rr' \<and> length rr' = length rr
           \<and> (\<forall>i < n. \<exists>x y. rd ra i = Some x \<and> rd rb i = Some y
                  \<and> rd rr' i = Some (g x y :: 'a word))"
proof -
  let ?w = "LENGTH('a) div 8"
  let ?I = "\<lambda>k s. length s = length rr
              \<and> (\<forall>i < k. \<exists>x y. rd ra i = Some x \<and> rd rb i = Some y \<and> rd s i = Some (g x y :: 'a word))"
  have "\<exists>s'. for_loop 0 n
          (\<lambda>i rr. case rd ra i of None \<Rightarrow> None
             | Some x \<Rightarrow> (case rd rb i of None \<Rightarrow> None
                 | Some y \<Rightarrow> (case Some (g x y) of None \<Rightarrow> None | Some z \<Rightarrow> wr rr i (z :: 'a word)))) rr
            = Some s' \<and> ?I n s'"
  proof (rule for_loop_rule [where I = ?I])
    show "?I 0 rr" by simp
    show "0 \<le> n" by simp
  next
    fix j s assume j: "0 \<le> j" "j < n" and I: "?I j s"
    have b: "(j + 1) * ?w \<le> n * ?w"
      using j by (intro mult_le_mono1) simp
    obtain x :: "'a word" where x: "rd ra j = Some x"
      using rd_Some [of j ra] b la by (meson le_trans)
    obtain y :: "'a word" where y: "rd rb j = Some y"
      using rd_Some [of j rb] b lb by (meson le_trans)
    have "(j + 1) * ?w \<le> length s" using b lr I by simp
    then obtain s' where s': "wr s j (g x y) = Some s'"
      using wr_Some [of j s "g x y"] by blast
    have "?I (Suc j) s'"
    proof (intro conjI allI impI)
      show "length s' = length rr" using length_wr [OF s'] I by simp
    next
      fix i assume "i < Suc j"
      then consider "i < j" | "i = j" by linarith
      then show "\<exists>x y. rd ra i = Some x \<and> rd rb i = Some y \<and> rd s' i = Some (g x y)"
      proof cases
        case 1
        then show ?thesis using I rd_wr_other [OF s', of i] by auto
      next
        case 2
        then show ?thesis using x y rd_wr_same [OF w s'] by simp
      qed
    qed
    then show "\<exists>s'. (case rd ra j of None \<Rightarrow> None
             | Some x \<Rightarrow> (case rd rb j of None \<Rightarrow> None
                 | Some y \<Rightarrow> (case Some (g x y) of None \<Rightarrow> None | Some z \<Rightarrow> wr s j (z :: 'a word))))
            = Some s' \<and> ?I (Suc j) s'"
      using x y s' by simp
  qed
  then show ?thesis
    by (simp add: binary_loop_def)
qed

lemma well_formed_create:
  assumes "well_formed a" and "can_alloc h sizeof_Tensor" and "can_alloc h (unat (ndim a * 8))"
    and "can_alloc h (unat (tsize a * tensr_dtype_size dt))"
  shows "\<exists>r. tensr_create h (shape a) (ndim a) dt dev = Inr r \<and> shape r = shape a
           \<and> ndim r = ndim a \<and> tsize r = tsize a \<and> dtype r = dt \<and> device r = dev
           \<and> length (data r) = unat (tsize a * tensr_dtype_size dt)"
proof -
  have a: "ndim a \<noteq> 0" "unat (ndim a) < 2 ^ 31" "length (shape a) = unat (ndim a)"
    "tsize a = compute_size (shape a) (ndim a)"
    using assms(1) by (simp_all add: well_formed_def)
  obtain r where r: "tensr_create h (shape a) (ndim a) dt dev = Inr r"
    using tensr_create_ok [of h "ndim a" "shape a" dt dev] assms(2-4) a by auto
  note c = tensr_create_Inr [OF r a(2)]
  show ?thesis
    using r c(2-7) a by simp
qed

lemma BINARY_OP_mismatch:
  "tsize a \<noteq> tsize b \<or> dtype a \<noteq> dtype b \<Longrightarrow> BINARY_OP opf opd opi opl h a b = Inl ReturnedNULL"
  by (simp add: BINARY_OP_def)

lemma unat_size_bytes:
  assumes "unat (sz :: size_t) * unat (w :: size_t) < 2 ^ 64"
  shows "unat (sz * w) = unat sz * unat w"
  using assms by (simp add: unat_mult_lem [where 'a = 64, simplified])

lemma BINARY_OP_elementwise:
  fixes g :: "'a::len word \<Rightarrow> 'a word \<Rightarrow> 'a word"
  assumes wa: "well_formed a" and wb: "well_formed b"
    and al: "can_alloc h sizeof_Tensor" "can_alloc h (unat (ndim a * 8))"
      "can_alloc h (unat (tsize a * tensr_dtype_size (dtype a)))"
    and eq: "tsize a = tsize b" "dtype a = dtype b"
    and w: "8 dvd LENGTH('a)" "unat (tensr_dtype_size (dtype a)) = LENGTH('a) div 8"
    and br: "\<And>result. BINARY_OP opf opd opi opl h a b
               = (case tensr_create h (shape a) (ndim a) (dtype a) (device a) of
                    Inl e \<Rightarrow> Inl e
                  | Inr result \<Rightarrow> stored result
                      (binary_loop (\<lambda>x y. Some (g x y)) (data a) (data b) (unat (tsize a)) (data result)))"
  shows "\<exists>r. BINARY_OP opf opd opi opl h a b = Inr r \<and> shape r = shape a \<and> ndim r = ndim a
           \<and> tsize r = tsize a \<and> dtype r = dtype a \<and> device r = device a
           \<and> (\<forall>i < unat (tsize a). \<exists>x y. rd (data a) i = Some x \<and> rd (data b) i = Some y
                  \<and> rd (data r) i = Some (g x y))"
proof -
  obtain result where c: "tensr_create h (shape a) (ndim a) (dtype a) (device a) = Inr result"
    and p: "shape result = shape a" "ndim result = ndim a" "tsize result = tsize a"
      "dtype result = dtype a" "device result = device a"
      "length (data result) = unat (tsize a * tensr_dtype_size (dtype a))"
    using well_formed_create [OF wa al, of "device a"] by blast
  have la0: "length (data a) = unat (tsize a) * unat (tensr_dtype_size (dtype a))"
    and no: "unat (tsize a) * unat (tensr_dtype_size (dtype a)) < 2 ^ 64"
    using wa unfolding well_formed_def by blast+
  have lb0: "length (data b) = unat (tsize b) * unat (tensr_dtype_size (dtype b))"
    using wb unfolding well_formed_def by blast
  have la: "length (data a) = unat (tsize a) * (LENGTH('a) div 8)"
    using la0 w(2) by simp
  have lb: "length (data b) = unat (tsize a) * (LENGTH('a) div 8)"
    using lb0 w(2) eq by simp
  have lr: "length (data result) = unat (tsize a) * (LENGTH('a) div 8)"
    using p(6) unat_size_bytes [OF no] w(2) by simp
  obtain rr where rr: "binary_loop (\<lambda>x y. Some (g x y)) (data a) (data b) (unat (tsize a)) (data result) = Some rr"
    and el: "\<forall>i < unat (tsize a). \<exists>x y. rd (data a) i = Some x \<and> rd (data b) i = Some y
                  \<and> rd rr i = Some (g x y)"
    using binary_loop_total [OF w(1), of "unat (tsize a)" "data a" "data b" "data result" g] la lb lr
    by auto
  show ?thesis
    using br c rr el p by (simp add: stored_def)
qed

lemma BINARY_OP_elementwise':
  fixes g :: "'a::len word \<Rightarrow> 'a word \<Rightarrow> 'a word"
  assumes "well_formed a" and "well_formed b"
    and "can_alloc h sizeof_Tensor" "can_alloc h (unat (ndim a * 8))"
      "can_alloc h (unat (tsize a * tensr_dtype_size (dtype a)))"
    and "tsize a = tsize b" "dtype a = dtype b"
    and "8 dvd LENGTH('a)" "unat (tensr_dtype_size (dtype a)) = LENGTH('a) div 8"
    and "\<And>result. BINARY_OP opf opd opi opl h a b
               = (case tensr_create h (shape a) (ndim a) (dtype a) (device a) of
                    Inl e \<Rightarrow> Inl e
                  | Inr result \<Rightarrow> stored result
                      (binary_loop (\<lambda>x y. Some (g x y)) (data a) (data b) (unat (tsize a)) (data result)))"
  shows "\<exists>r. BINARY_OP opf opd opi opl h a b = Inr r \<and> elementwise g a b r"
  using BINARY_OP_elementwise [OF assms] unfolding elementwise_def by fastforce

lemma int_add_fun: "int_add = (\<lambda>x y. Some (x + y))"
  by (intro ext) (simp add: int_add_def)

lemma fread_exact:
  "length pre = sz * n \<Longrightarrow> length buf \<le> sz * n \<Longrightarrow> fread buf sz n (pre @ rest) = (pre, rest)"
  by (simp add: fread_def Let_def)

lemma length_concat_to_bytes:
  "length (concat (map to_bytes (ws :: 'a::len word list))) = (LENGTH('a) div 8) * length ws"
  by (induction ws) simp_all

lemma take_drop_concat_to_bytes:
  "i < length ws \<Longrightarrow>
   take (LENGTH('a) div 8) (drop ((LENGTH('a) div 8) * i) (concat (map to_bytes ws)))
     = to_bytes (ws ! i :: 'a::len word)"
proof (induction ws arbitrary: i)
  case Nil
  then show ?case by simp
next
  case (Cons w ws)
  show ?case
  proof (cases i)
    case 0
    then show ?thesis by simp
  next
    case (Suc k)
    then show ?thesis using Cons by simp
  qed
qed

lemma words_of_concat: "words_of (concat (map to_bytes ws)) = (ws :: size_t list)"
proof (rule nth_equalityI)
  show len: "length (words_of (concat (map to_bytes ws))) = length ws"
    by (simp add: words_of_def length_concat_to_bytes)
  fix i assume "i < length (words_of (concat (map to_bytes ws)))"
  then have i: "i < length ws" using len by simp
  have "take 8 (drop (8 * i) (concat (map to_bytes ws))) = to_bytes (ws ! i)"
    using take_drop_concat_to_bytes [OF i] by simp
  then show "words_of (concat (map to_bytes ws)) ! i = ws ! i"
    using i by (simp add: words_of_def length_concat_to_bytes of_bytes_to_bytes)
qed

lemma unat_ndim_bytes:
  assumes "unat (nd :: size_t) < 2 ^ 31"
  shows "unat (nd * 8) = 8 * unat nd"
proof -
  have "unat nd * unat (8 :: size_t) < 2 ^ 64"
    using assms by simp
  then show ?thesis
    using unat_size_bytes [of nd 8] by simp
qed

lemma tensr_load_unopened:
  "files fs filename = None \<Longrightarrow> tensr_load h locals fs filename = Inl ReturnedNULL"
  by (simp add: tensr_load_def)

lemma tensr_load_complete_header:
  assumes img: "files fs filename
              = Some (to_bytes nd @ to_bytes dt @ to_bytes (sz :: size_t) @ concat (map to_bytes shp)
                      @ payload)"
    and shp: "length shp = unat nd" "nd \<noteq> 0" "unat nd < 2 ^ 31"
    and al: "can_alloc h sizeof_Tensor" "can_alloc h (unat (nd * 8))"
      "can_alloc h (unat (compute_size shp nd * tensr_dtype_size dt))"
    and fit: "length payload \<le> unat (compute_size shp nd * tensr_dtype_size dt)"
  shows "\<exists>t. tensr_load h locals fs filename = Inr t \<and> ndim t = nd \<and> shape t = shp
           \<and> dtype t = dt \<and> tsize t = compute_size shp nd
           \<and> take (length (take (unat (tensr_dtype_size dt) * unat sz) payload)) (data t)
               = take (unat (tensr_dtype_size dt) * unat sz) payload"
proof -
  define n where "n = unat nd"
  define w where "w = unat (tensr_dtype_size dt)"
  define hdr where "hdr = concat (map to_bytes shp)"
  have lh: "length hdr = 8 * n"
    using shp(1) by (simp add: hdr_def length_concat_to_bytes n_def)
  have nb: "unat (nd * 8) = 8 * n"
    using unat_ndim_bytes shp(3) by (simp add: n_def)
  obtain ndim0 dtype0 size0 where locals: "locals = (ndim0, dtype0, size0)"
    by (cases locals) auto
  have r1: "fread (to_bytes ndim0) 8 (Suc 0) (to_bytes nd @ to_bytes dt @ to_bytes sz @ hdr @ payload)
              = (to_bytes nd, to_bytes dt @ to_bytes sz @ hdr @ payload)"
    by (rule fread_exact) simp_all
  have r2: "fread (to_bytes dtype0) 4 (Suc 0) (to_bytes dt @ to_bytes sz @ hdr @ payload)
              = (to_bytes dt, to_bytes sz @ hdr @ payload)"
    by (rule fread_exact) simp_all
  have r3: "fread (to_bytes size0) 8 (Suc 0) (to_bytes sz @ hdr @ payload)
              = (to_bytes sz, hdr @ payload)"
    by (rule fread_exact) simp_all
  have r4: "fread (map (junk h) [0..<8 * n]) 8 n (hdr @ payload) = (hdr, payload)"
    by (rule fread_exact) (simp_all add: lh)
  obtain t0 where c: "tensr_create h shp nd dt TENSR_CPU = Inr t0"
    using tensr_create_ok [of h nd shp dt TENSR_CPU] al shp by auto
  note t0 = tensr_create_Inr [OF c shp(3)]
  have ld: "length (data t0) = unat (compute_size shp nd * tensr_dtype_size dt)"
    using t0(7) by simp
  define got where "got = take (w * unat sz) payload"
  have lg: "length got \<le> length (data t0)"
    using fit ld by (simp add: got_def)
  have tk: "take (8 * n) (hdr @ payload) = hdr"
    using lh by simp
  have al': "can_alloc h (8 * n)"
    using al(2) nb by simp
  have wo: "words_of hdr = shp"
    by (simp add: hdr_def words_of_concat)
  have ob: "(of_bytes (to_bytes nd) :: size_t) = nd" "(of_bytes (to_bytes dt) :: TensrDType) = dt"
    "(of_bytes (to_bytes sz) :: size_t) = sz"
    by (simp_all add: of_bytes_to_bytes)
  have load: "tensr_load h locals fs filename
                = Inr (t0\<lparr>data := got @ drop (length got) (data t0)\<rparr>)"
    unfolding tensr_load_def img locals hdr_def [symmetric]
    using lg
    by (simp add: Let_def r1 r2 r3 ob malloc_def al' nb n_def [symmetric] r4 tk lh wo c
        w_def [symmetric] got_def [symmetric] fread_def)
  have "take (length got) (got @ drop (length got) (data t0)) = got"
    by simp
  then show ?thesis
    using load t0(2-6) shp(1) unfolding got_def w_def by simp
qed

lemma for_loop_foldl:
  assumes "\<And>p s. p < n \<Longrightarrow> body p s = Some (f s p)"
  shows "for_loop 0 n body s = Some (foldl f s [0..<n])"
proof -
  have "\<exists>s'. for_loop 0 n body s = Some s' \<and> s' = foldl f s [0..<n]"
  proof (rule for_loop_rule [where I = "\<lambda>p s'. s' = foldl f s [0..<p]"])
    show "s = foldl f s [0..<0]" by simp
    show "0 \<le> n" by simp
  next
    fix j s' assume "0 \<le> j" "j < n" "s' = foldl f s [0..<j]"
    then show "\<exists>s''. body j s' = Some s'' \<and> s'' = foldl f s [0..<Suc j]"
      using assms by simp
  qed
  then show ?thesis by simp
qed

lemma unat_flat_index:
  assumes "i < unat (m :: size_t)" and "j < unat (n :: size_t)" and "unat m * unat n < 2 ^ 64"
  shows "unat (of_nat i * n + of_nat j) = i * unat n + j"
proof -
  have "i * unat n + j < unat m * unat n"
  proof -
    have "i * unat n + j < i * unat n + unat n" using assms(2) by simp
    also have "\<dots> = (i + 1) * unat n" by simp
    also have "\<dots> \<le> unat m * unat n" using assms(1) by (intro mult_le_mono1) simp
    finally show ?thesis .
  qed
  then have lt: "i * unat n + j < 2 ^ 64"
    using assms(3) by simp
  have w: "of_nat i * n + of_nat j = (of_nat (i * unat n + j) :: size_t)"
    by simp
  have "unat (of_nat (i * unat n + j) :: size_t) = (i * unat n + j) mod 2 ^ LENGTH(64)"
    by (rule unat_of_nat)
  also have "\<dots> = i * unat n + j"
    using lt by simp
  finally show ?thesis
    by (simp only: w)
qed

lemma flat_index_bound:
  assumes "i < m" and "j < (n :: nat)"
  shows "(i * n + j + 1) * w \<le> m * n * w"
proof -
  have "i * n + j + 1 \<le> i * n + n" using assms(2) by simp
  also have "\<dots> = (i + 1) * n" by simp
  also have "\<dots> \<le> m * n" using assms(1) by (intro mult_le_mono1) simp
  finally show ?thesis by (intro mult_le_mono1)
qed

lemma flat_index_inj:
  assumes "j < n" and "j' < (n :: nat)" and "i * n + j = i' * n + j'"
  shows "i = i' \<and> j = j'"
proof -
  have "(i * n + j) div n = i" "(i' * n + j') div n = i'"
    using assms(1,2) by simp_all
  then have "i = i'" using assms(3) by simp
  then show ?thesis using assms(3) by simp
qed

lemma dot_loop_product_entry:
  fixes add mul :: "'a::len word \<Rightarrow> 'a word \<Rightarrow> 'a word"
  assumes i: "i < unat (m :: size_t)" and j: "j < unat n"
    and mk: "unat m * unat k < 2 ^ 64" and kn: "unat k * unat n < 2 ^ 64"
    and la: "unat m * unat k * (LENGTH('a) div 8) \<le> length da"
    and lb: "unat k * unat n * (LENGTH('a) div 8) \<le> length db"
  shows "dot_loop add mul zero da db k n i j
           = Some (product_entry add mul zero da db (unat k) (unat n) i j)"
  unfolding dot_loop_def product_entry_def
proof (rule for_loop_foldl)
  fix p acc assume p: "p < unat k"
  have ia: "unat (of_nat i * k + of_nat p) = i * unat k + p"
    by (rule unat_flat_index [OF i p mk])
  have ib: "unat (of_nat p * n + of_nat j) = p * unat n + j"
    by (rule unat_flat_index [OF p j kn])
  have "(i * unat k + p + 1) * (LENGTH('a) div 8) \<le> length da"
    using flat_index_bound [OF i p, of "LENGTH('a) div 8"] la by simp
  then obtain x :: "'a word" where x: "rd da (i * unat k + p) = Some x"
    using rd_Some by blast
  have "(p * unat n + j + 1) * (LENGTH('a) div 8) \<le> length db"
    using flat_index_bound [OF p j, of "LENGTH('a) div 8"] lb by simp
  then obtain y :: "'a word" where y: "rd db (p * unat n + j) = Some y"
    using rd_Some by blast
  show "(case rd da (unat (of_nat i * k + of_nat p)) of None \<Rightarrow> None
         | Some x \<Rightarrow> (case rd db (unat (of_nat p * n + of_nat j)) of None \<Rightarrow> None
             | Some y \<Rightarrow> Some (add acc (mul x y))))
        = Some (add acc (mul (matrix_entry da (unat k) i p) (matrix_entry db (unat n) p j)))"
    by (simp add: ia ib x y matrix_entry_def)
qed

lemma matmul_loops_product:
  fixes add mul :: "'a::len word \<Rightarrow> 'a word \<Rightarrow> 'a word"
  assumes w8: "8 dvd LENGTH('a)"
    and mk: "unat (m :: size_t) * unat k < 2 ^ 64" and kn: "unat k * unat n < 2 ^ 64"
    and mn: "unat m * unat n < 2 ^ 64"
    and la: "unat m * unat k * (LENGTH('a) div 8) \<le> length da"
    and lb: "unat k * unat n * (LENGTH('a) div 8) \<le> length db"
    and lr: "unat m * unat n * (LENGTH('a) div 8) \<le> length dr"
  shows "\<exists>dr'. matmul_loops add mul zero da db m n k dr = Some dr' \<and> length dr' = length dr
           \<and> (\<forall>i < unat m. \<forall>j < unat n.
                 rd dr' (i * unat n + j)
                   = Some (product_entry add mul zero da db (unat k) (unat n) i j))"
proof -
  let ?w = "LENGTH('a) div 8"
  define E where "E = product_entry add mul zero da db (unat k) (unat n)"
  define inner where
    "inner = (\<lambda>i j dr. case dot_loop add mul zero da db k n i j of
                     None \<Rightarrow> None
                   | Some acc \<Rightarrow> wr dr (unat (of_nat i * n + of_nat j)) acc)"
  let ?I = "\<lambda>i s. length s = length dr \<and> (\<forall>i' < i. \<forall>j < unat n. rd s (i' * unat n + j) = Some (E i' j))"
  have "\<exists>dr'. for_loop 0 (unat m) (\<lambda>i dr. for_loop 0 (unat n) (inner i) dr) dr = Some dr' \<and> ?I (unat m) dr'"
  proof (rule for_loop_rule [where I = ?I])
    show "?I 0 dr" by simp
    show "0 \<le> unat m" by simp
  next
    fix i s assume i: "0 \<le> i" "i < unat m" and I: "?I i s"
    let ?J = "\<lambda>j s'. length s' = length dr
                \<and> (\<forall>i' < i. \<forall>j' < unat n. rd s' (i' * unat n + j') = Some (E i' j'))
                \<and> (\<forall>j' < j. rd s' (i * unat n + j') = Some (E i j'))"
    have "\<exists>s'. for_loop 0 (unat n) (inner i) s = Some s' \<and> ?J (unat n) s'"
    proof (rule for_loop_rule [where I = ?J])
      show "?J 0 s" using I by simp
      show "0 \<le> unat n" by simp
    next
      fix j s1 assume j: "0 \<le> j" "j < unat n" and J: "?J j s1"
      have d: "dot_loop add mul zero da db k n i j = Some (E i j)"
        unfolding E_def by (rule dot_loop_product_entry [OF i(2) j(2) mk kn la lb])
      have idx: "unat (of_nat i * n + of_nat j) = i * unat n + j"
        by (rule unat_flat_index [OF i(2) j(2) mn])
      have "(i * unat n + j + 1) * ?w \<le> length s1"
        using flat_index_bound [OF i(2) j(2), of ?w] lr J by simp
      then obtain s2 where s2: "wr s1 (i * unat n + j) (E i j) = Some s2"
        using wr_Some by blast
      have other: "rd s2 (i' * unat n + j') = (rd s1 (i' * unat n + j') :: 'a word option)"
        if "j' < unat n" "i' \<noteq> i \<or> j' \<noteq> j" for i' j'
      proof (rule rd_wr_other [OF s2])
        show "i' * unat n + j' \<noteq> i * unat n + j"
          using flat_index_inj [OF that(1) j(2), of i' i] that(2) by blast
      qed
      have "?J (Suc j) s2"
      proof (intro conjI allI impI)
        show "length s2 = length dr" using length_wr [OF s2] J by simp
      next
        fix i' j' assume "i' < i" "j' < unat n"
        then show "rd s2 (i' * unat n + j') = Some (E i' j')"
          using other [of j' i'] J by simp
      next
        fix j' assume "j' < Suc j"
        then consider "j' < j" | "j' = j" by linarith
        then show "rd s2 (i * unat n + j') = Some (E i j')"
        proof cases
          case 1
          then show ?thesis using other [of j' i] J j(2) by simp
        next
          case 2
          then show ?thesis using rd_wr_same [OF w8 s2] by simp
        qed
      qed
      then show "\<exists>s'. inner i j s1 = Some s' \<and> ?J (Suc j) s'"
        using d idx s2 by (simp add: inner_def)
    qed
    then obtain s' where s': "for_loop 0 (unat n) (inner i) s = Some s'" and J: "?J (unat n) s'"
      by blast
    have "?I (Suc i) s'"
      using J by (auto simp: less_Suc_eq)
    then show "\<exists>s'. for_loop 0 (unat n) (inner i) s = Some s' \<and> ?I (Suc i) s'"
      using s' by blast
  qed
  then show ?thesis
    unfolding matmul_loops_def inner_def E_def by blast
qed

lemma tensr_zeros_matrix:
  assumes al: "can_alloc h sizeof_Tensor" "can_alloc h 16"
      "can_alloc h (unat (m * n * tensr_dtype_size dt))"
  shows "\<exists>r. tensr_zeros h [m, n] 2 dt dev = Inr r \<and> shape r = [m, n] \<and> ndim r = 2
           \<and> tsize r = m * n \<and> dtype r = dt \<and> device r = dev
           \<and> length (data r) = unat (m * n * tensr_dtype_size dt)"
proof -
  have cs: "compute_size [m, n] 2 = m * n"
    by (simp add: compute_size_def)
  obtain t where t: "tensr_create h [m, n] 2 dt dev = Inr t"
    using tensr_create_ok [of h 2 "[m, n]" dt dev] al by (auto simp: cs)
  note c = tensr_create_Inr [OF t small_ndim(2)]
  have len: "length (data t) = unat (m * n * tensr_dtype_size dt)"
    using c(7) by (simp add: cs)
  show ?thesis
    using t c(2-6) len by (simp add: tensr_zeros_def memset_def cs)
qed

lemma well_formed_matrix:
  assumes "well_formed a" and "shape a = [m, k]" and "unat m * unat k < 2 ^ 64"
  shows "ndim a = 2" and "length (data a) = unat m * unat k * unat (tensr_dtype_size (dtype a))"
proof -
  have f: "length (shape a) = unat (ndim a)" "tsize a = compute_size (shape a) (ndim a)"
    "length (data a) = unat (tsize a) * unat (tensr_dtype_size (dtype a))"
    using assms(1) unfolding well_formed_def by blast+
  have "unat (ndim a) = unat (2 :: size_t)"
    using f(1) assms(2) by simp
  then show nd: "ndim a = 2"
    by (simp only: word_unat_eq_iff)
  have "tsize a = m * k"
    using f(2) assms(2) nd by (simp add: compute_size_def)
  moreover have "unat (m * k) = unat m * unat k"
    using assms(3) by (rule unat_size_bytes)
  ultimately show "length (data a) = unat m * unat k * unat (tensr_dtype_size (dtype a))"
    using f(3) by simp
qed

lemma tensr_matmul_product:
  fixes add mul :: "'a::len word \<Rightarrow> 'a word \<Rightarrow> 'a word"
  assumes wa: "well_formed a" and wb: "well_formed b"
    and sa: "shape a = [m, k]" and sb: "shape b = [k, n]" and dt: "dtype b = dtype a"
    and mk: "unat m * unat k < 2 ^ 64" and kn: "unat k * unat n < 2 ^ 64"
    and mn: "unat m * unat n * unat (tensr_dtype_size (dtype a)) < 2 ^ 64"
    and al: "can_alloc h sizeof_Tensor" "can_alloc h 16"
      "can_alloc h (unat (m * n * tensr_dtype_size (dtype a)))"
    and w: "8 dvd LENGTH('a)" "unat (tensr_dtype_size (dtype a)) = LENGTH('a) div 8"
    and br: "\<And>result. tensr_zeros h [m, n] 2 (dtype a) (device a) = Inr result \<Longrightarrow>
               tensr_matmul fp h a b
                 = stored result (matmul_loops add mul zero (data a) (data b) m n k (data result))"
  shows "\<exists>r. tensr_matmul fp h a b = Inr r \<and> matrix_product add mul zero m k n a b r"
proof -
  obtain result where z: "tensr_zeros h [m, n] 2 (dtype a) (device a) = Inr result"
    and p: "shape result = [m, n]" "ndim result = 2" "tsize result = m * n"
      "dtype result = dtype a" "device result = device a"
      "length (data result) = unat (m * n * tensr_dtype_size (dtype a))"
    using tensr_zeros_matrix [OF al, of "device a"] by blast
  have pos: "0 < LENGTH('a) div 8"
  proof -
    from w(1) obtain c where c: "LENGTH('a) = 8 * c" by (elim dvdE)
    have "0 < LENGTH('a)" by simp
    then have "0 < c" unfolding c by simp
    then show ?thesis by (simp add: c)
  qed
  have mn': "unat m * unat n < 2 ^ 64"
  proof -
    have "unat m * unat n \<le> unat m * unat n * (LENGTH('a) div 8)" using pos by simp
    moreover have "unat m * unat n * (LENGTH('a) div 8) < 2 ^ 64" using mn w(2) by simp
    ultimately show ?thesis by (rule le_less_trans)
  qed
  have la: "unat m * unat k * (LENGTH('a) div 8) \<le> length (data a)"
    using well_formed_matrix(2) [OF wa sa mk] w(2) by simp
  have lb: "unat k * unat n * (LENGTH('a) div 8) \<le> length (data b)"
    using well_formed_matrix(2) [OF wb sb kn] w(2) dt by simp
  have "unat (m * n) = unat m * unat n"
    using mn' by (rule unat_size_bytes)
  moreover have "unat (m * n * tensr_dtype_size (dtype a)) = unat (m * n) * unat (tensr_dtype_size (dtype a))"
    using mn calculation by (intro unat_size_bytes) simp
  ultimately have lr: "unat m * unat n * (LENGTH('a) div 8) \<le> length (data result)"
    using p(6) w(2) by simp
  obtain dr where dr: "matmul_loops add mul zero (data a) (data b) m n k (data result) = Some dr"
    and el: "\<forall>i < unat m. \<forall>j < unat n. rd dr (i * unat n + j)
               = Some (product_entry add mul zero (data a) (data b) (unat k) (unat n) i j)"
    using matmul_loops_product [OF w(1) mk kn mn' la lb lr, of add mul zero] by blast
  show ?thesis
    using br [OF z] dr el p by (simp add: stored_def matrix_product_def)
qed

section \<open>Transposition (C1)\<close>

lemma tensr_transpose_ignores_data:
  "tensr_transpose h (t\<lparr>data := d\<rparr>) axes naxes = tensr_transpose h t axes naxes"
  by (simp add: tensr_transpose_def cong: sum.case_cong)

text \<open>
  C1 asks that the transposed tensor holds, at the permuted coordinates, the element of
  \<open>t\<close> at the original coordinates. The code does not: the default transposition of the
  matrix \<open>[[1, 2, 3], [4, 5, 6]]\<close> returns a tensor of shape \<open>[3, 2]\<close> with the contiguous
  strides \<open>[2, 1]\<close> over the fresh buffer of \<open>tensr_create\<close>, into which nothing was
  stored. The element \<open>[1, 0]\<close> of the matrix is \<open>4.0\<close> (\<open>0x40800000\<close>); the element
  \<open>[0, 1]\<close> of the result is what the allocator left there. Even on a heap where the
  fresh buffer happens to hold the bytes of the matrix, the element \<open>[0, 1]\<close> of the result
  is \<open>2.0\<close> (\<open>0x40000000\<close>): the shape is relabelled over the row-major data.
\<close>

theorem tensr_transpose_keeps_no_element:
  "tensr_transpose heap_ok matrix_2x3 [] 0
     = Inr (tensor_of TENSR_FLOAT32 [3, 2] [2, 1] 6 (replicate 24 0xAA))
   \<and> float_at matrix_2x3 [1, 0] = Some 0x40800000
   \<and> float_at (tensor_of TENSR_FLOAT32 [3, 2] [2, 1] 6 (replicate 24 0xAA)) [0, 1]
       = Some 0xAAAAAAAA
   \<and> tensr_transpose (heap_holding (data matrix_2x3)) matrix_2x3 [] 0
     = Inr (tensor_of TENSR_FLOAT32 [3, 2] [2, 1] 6 (data matrix_2x3))
   \<and> float_at (tensor_of TENSR_FLOAT32 [3, 2] [2, 1] 6 (data matrix_2x3)) [0, 1]
       = Some 0x40000000"
  by code_simp

section \<open>Sums over axes (C5)\<close>

lemma tensr_sum_axes:
  "tensr_sum fp h t axes naxes keepdims
     = (if naxes = 0 then tensr_sum fp h t [] 0 keepdims else Inl ReturnedNULL)"
  by (simp add: tensr_sum_def)

text \<open>
  C5 asks for the sums over the selected axes. The code has no such branch: with one
  axis given (\<open>axes = {0}\<close>, \<open>naxes = 1\<close>) \<open>tensr_sum\<close> returns \<open>NULL\<close>, whatever the tensor.
\<close>

theorem tensr_sum_axis_returns_null:
  "tensr_sum fp h t [0] 1 keepdims = Inl ReturnedNULL"
  by (simp add: tensr_sum_def)

section \<open>The inverse (C6)\<close>

lemma tensr_inv_square:
  "ndim t = 2 \<Longrightarrow> shape t = [n, n] \<Longrightarrow> tensr_inv h t = tensr_copy h t"
  by (simp add: tensr_inv_def)

text \<open>
  C6 asks for the inverse of a non-singular matrix and for a failure on a singular one.
  The code copies: the zero matrix, which is singular, comes back as it is, and so does
  twice the identity, whose inverse is half the identity.
\<close>

theorem tensr_inv_returns_copy:
  "tensr_inv heap_ok zero_2x2 = Inr zero_2x2
   \<and> tensr_inv heap_ok twice_identity_2x2 = Inr twice_identity_2x2"
  by code_simp

section \<open>Full maximum and minimum of an empty tensor (C10)\<close>

text \<open>
  C10: for a \<open>float\<close> (or \<open>double\<close>) tensor with \<open>size == 0\<close>, \<open>tensr_max\<close> returns a
  tensor of shape \<open>[1]\<close> holding \<open>-FLT_MAX\<close> (or \<open>-DBL_MAX\<close>) and \<open>tensr_min\<close> one holding
  \<open>FLT_MAX\<close> (or \<open>DBL_MAX\<close>), whatever \<open>axes\<close>, \<open>naxes\<close> and \<open>keepdims\<close> are. The three
  allocations of \<open>tensr_create\<close> (the \<open>Tensor\<close>, 8 bytes each for \<open>shape\<close> and \<open>strides\<close>,
  4 or 8 bytes of data) are taken to succeed.
\<close>

theorem tensr_max_min_of_empty:
  assumes "tsize t = 0" and "can_alloc h sizeof_Tensor" and "can_alloc h 8" and "can_alloc h 4"
  shows "(dtype t = TENSR_FLOAT32 \<longrightarrow>
            (\<exists>r. tensr_max fp h t axes naxes keepdims = Inr r \<and> shape r = [1] \<and> ndim r = 1
                  \<and> tsize r = 1 \<and> dtype r = TENSR_FLOAT32 \<and> rd (data r) 0 = Some (f32_neg FLT_MAX))
          \<and> (\<exists>r. tensr_min fp h t axes naxes keepdims = Inr r \<and> shape r = [1] \<and> ndim r = 1
                  \<and> tsize r = 1 \<and> dtype r = TENSR_FLOAT32 \<and> rd (data r) 0 = Some FLT_MAX))
       \<and> (dtype t = TENSR_FLOAT64 \<longrightarrow>
            (\<exists>r. tensr_max fp h t axes naxes keepdims = Inr r \<and> shape r = [1] \<and> ndim r = 1
                  \<and> tsize r = 1 \<and> dtype r = TENSR_FLOAT64 \<and> rd (data r) 0 = Some (f64_neg DBL_MAX))
          \<and> (\<exists>r. tensr_min fp h t axes naxes keepdims = Inr r \<and> shape r = [1] \<and> ndim r = 1
                  \<and> tsize r = 1 \<and> dtype r = TENSR_FLOAT64 \<and> rd (data r) 0 = Some DBL_MAX))"
proof (intro conjI impI)
  assume dt: "dtype t = TENSR_FLOAT32"
  obtain result where c: "tensr_create h [1] 1 TENSR_FLOAT32 (device t) = Inr result"
    using tensr_create_ok [of h 1 "[1]" TENSR_FLOAT32 "device t"] assms by auto
  have w: "8 dvd LENGTH(32)" "unat (tensr_dtype_size TENSR_FLOAT32) = LENGTH(32) div 8" by simp_all
  show "\<exists>r. tensr_max fp h t axes naxes keepdims = Inr r \<and> shape r = [1] \<and> ndim r = 1
          \<and> tsize r = 1 \<and> dtype r = TENSR_FLOAT32 \<and> rd (data r) 0 = Some (f32_neg FLT_MAX)"
    using scalar_result [OF c w, of "f32_neg FLT_MAX"]
    by (auto simp: tensr_max_def dt c assms(1) reduce_loop_empty)
  show "\<exists>r. tensr_min fp h t axes naxes keepdims = Inr r \<and> shape r = [1] \<and> ndim r = 1
          \<and> tsize r = 1 \<and> dtype r = TENSR_FLOAT32 \<and> rd (data r) 0 = Some FLT_MAX"
    using scalar_result [OF c w, of FLT_MAX]
    by (auto simp: tensr_min_def dt c assms(1) reduce_loop_empty)
next
  assume dt: "dtype t = TENSR_FLOAT64"
  obtain result where c: "tensr_create h [1] 1 TENSR_FLOAT64 (device t) = Inr result"
    using tensr_create_ok [of h 1 "[1]" TENSR_FLOAT64 "device t"] assms by auto
  have w: "8 dvd LENGTH(64)" "unat (tensr_dtype_size TENSR_FLOAT64) = LENGTH(64) div 8" by simp_all
  show "\<exists>r. tensr_max fp h t axes naxes keepdims = Inr r \<and> shape r = [1] \<and> ndim r = 1
          \<and> tsize r = 1 \<and> dtype r = TENSR_FLOAT64 \<and> rd (data r) 0 = Some (f64_neg DBL_MAX)"
    using scalar_result [OF c w, of "f64_neg DBL_MAX"]
    by (auto simp: tensr_max_def dt c assms(1) reduce_loop_empty)
  show "\<exists>r. tensr_min fp h t axes naxes keepdims = Inr r \<and> shape r = [1] \<and> ndim r = 1
          \<and> tsize r = 1 \<and> dtype r = TENSR_FLOAT64 \<and> rd (data r) 0 = Some DBL_MAX"
    using scalar_result [OF c w, of DBL_MAX]
    by (auto simp: tensr_min_def dt c assms(1) reduce_loop_empty)
qed

theorem tensr_max_min_of_empty_witness:
  "tsize empty_f32 = 0 \<and> dtype empty_f32 = TENSR_FLOAT32 \<and> can_alloc heap_ok sizeof_Tensor
   \<and> can_alloc heap_ok 8 \<and> can_alloc heap_ok 4
   \<and> (\<forall>fp. (\<exists>r. tensr_max fp heap_ok empty_f32 [] 0 False = Inr r \<and> shape r = [1] \<and> ndim r = 1
                  \<and> tsize r = 1 \<and> dtype r = TENSR_FLOAT32 \<and> rd (data r) 0 = Some (f32_neg FLT_MAX))
          \<and> (\<exists>r. tensr_min fp heap_ok empty_f32 [] 0 False = Inr r \<and> shape r = [1] \<and> ndim r = 1
                  \<and> tsize r = 1 \<and> dtype r = TENSR_FLOAT32 \<and> rd (data r) 0 = Some FLT_MAX))
   \<and> f32_neg FLT_MAX = 0xFF7FFFFF \<and> f64_neg DBL_MAX = 0xFFEFFFFFFFFFFFFF"
proof -
  have a: "tsize empty_f32 = 0" "can_alloc heap_ok sizeof_Tensor" "can_alloc heap_ok 8"
    "can_alloc heap_ok 4"
    by (simp_all add: empty_f32_def tensor_of_def heap_ok_def)
  have b: "dtype empty_f32 = TENSR_FLOAT32"
    by (simp add: empty_f32_def tensor_of_def)
  have c: "f32_neg FLT_MAX = 0xFF7FFFFF" "f64_neg DBL_MAX = 0xFFEFFFFFFFFFFFFF"
    by (simp_all add: f32_neg_def f64_neg_def FLT_MAX_def DBL_MAX_def)
  show ?thesis
    using tensr_max_min_of_empty [OF a, of _ "[]" 0 False] a b c by blast
qed

section \<open>The invariant of the creation and shape operations (C9)\<close>

text \<open>
  C9 as amended. Every tensor of at most \<open>2\<^sup>3\<^sup>1 - 1\<close> dimensions returned by \<open>tensr_create\<close>,
  \<open>tensr_zeros\<close>, \<open>tensr_ones\<close>, \<open>tensr_full\<close>, \<open>tensr_arange\<close>, \<open>tensr_linspace\<close>,
  \<open>tensr_eye\<close>, \<open>tensr_copy\<close> and \<open>tensr_reshape\<close>, and by \<open>tensr_transpose\<close> when \<open>naxes\<close> is
  \<open>0\<close> or the first \<open>ndim\<close> entries of \<open>axes\<close> are a permutation of \<open>0, ..., ndim - 1\<close>, is
  contiguous: \<open>strides[ndim-1] == 1\<close>, \<open>strides[i] == strides[i+1] * shape[i+1]\<close> for
  \<open>i < ndim - 1\<close>, and \<open>size\<close> is the product of \<open>shape\<close>, the products being those of
  \<open>size_t\<close>, modulo \<open>2\<^sup>6\<^sup>4\<close>. The last part adds that \<open>size\<close> is the product of the extents as
  numbers whenever that product is below \<open>2\<^sup>6\<^sup>4\<close>.
\<close>

theorem creation_and_shape_operations_contiguous:
  "(unat nd < 2 ^ 31 \<longrightarrow>
       (tensr_create h shp nd dt dev = Inr r1 \<longrightarrow> contiguous r1)
     \<and> (tensr_zeros h shp nd dt dev = Inr r2 \<longrightarrow> contiguous r2)
     \<and> (tensr_ones h shp nd dt dev = Inr r3 \<longrightarrow> contiguous r3)
     \<and> (tensr_full fp h shp nd v dt dev = Inr r4 \<longrightarrow> contiguous r4))
   \<and> (tensr_arange fp h start stop step dt dev = Inr r5 \<longrightarrow> contiguous r5)
   \<and> (tensr_linspace fp h start stop num dt dev = Inr r6 \<longrightarrow> contiguous r6)
   \<and> (tensr_eye h n dt dev = Inr r7 \<longrightarrow> contiguous r7)
   \<and> (unat (ndim src) < 2 ^ 31 \<longrightarrow> tensr_copy h src = Inr r8 \<longrightarrow> contiguous r8)
   \<and> (unat new_ndim < 2 ^ 31 \<longrightarrow> tensr_reshape h t new_shape new_ndim = Inr r9 \<longrightarrow> contiguous r9)
   \<and> (unat (ndim t) < 2 ^ 31 \<longrightarrow>
        (naxes = 0 \<or> mset (map unat (take (unat (ndim t)) axes)) = mset [0..<unat (ndim t)]) \<longrightarrow>
        tensr_transpose h t axes naxes = Inr r10 \<longrightarrow> contiguous r10)
   \<and> (contiguous r \<longrightarrow> prod_list (map unat (shape r)) < 2 ^ 64 \<longrightarrow>
        unat (tsize r) = prod_list (map unat (shape r)))"
proof (intro conjI impI)
  assume "contiguous r" and "prod_list (map unat (shape r)) < 2 ^ 64"
  then show "unat (tsize r) = prod_list (map unat (shape r))"
    using unat_prod_list [of "shape r"] by (simp add: contiguous_def)
qed (blast intro: tensr_create_Inr(1) tensr_zeros_contiguous tensr_ones_contiguous
      tensr_full_contiguous tensr_arange_contiguous tensr_linspace_contiguous
      tensr_eye_contiguous tensr_copy_contiguous tensr_reshape_contiguous
      tensr_transpose_contiguous)+

theorem creation_and_shape_operations_contiguous_witness:
  "(\<exists>r. tensr_create heap_ok [2, 3] 2 TENSR_FLOAT32 TENSR_CPU = Inr r \<and> contiguous r)
   \<and> (\<exists>r. tensr_zeros heap_ok [2, 3] 2 TENSR_FLOAT32 TENSR_CPU = Inr r \<and> contiguous r)
   \<and> (\<exists>r. tensr_ones heap_ok [2, 3] 2 TENSR_INT32 TENSR_CPU = Inr r \<and> contiguous r)
   \<and> (\<forall>sq lg cs.
        (\<exists>r. tensr_full (ieee754 sq lg cs) heap_ok [2, 3] 2 0x4000000000000000 TENSR_FLOAT32 TENSR_CPU
               = Inr r \<and> contiguous r)
      \<and> (\<exists>r. tensr_arange (ieee754 sq lg cs) heap_ok 0 0x4024000000000000 0x4000000000000000
                TENSR_UINT8 TENSR_CPU = Inr r \<and> contiguous r)
      \<and> (\<exists>r. tensr_linspace (ieee754 sq lg cs) heap_ok 0 0x3FF0000000000000 5 TENSR_UINT8 TENSR_CPU
               = Inr r \<and> contiguous r))
   \<and> (\<exists>r. tensr_eye heap_ok 3 TENSR_INT32 TENSR_CPU = Inr r \<and> contiguous r)
   \<and> (\<exists>r. tensr_copy heap_ok matrix_2x3 = Inr r \<and> contiguous r)
   \<and> (\<exists>r. tensr_reshape heap_ok matrix_2x3 [3, 2] 2 = Inr r \<and> contiguous r)
   \<and> (\<exists>r. tensr_transpose heap_ok matrix_2x3 [] 0 = Inr r \<and> contiguous r)
   \<and> (\<exists>r. tensr_transpose heap_ok matrix_2x3 [1, 0] 2 = Inr r \<and> contiguous r \<and> shape r = [3, 2]
          \<and> unat (tsize r) = 6)"
proof -
  note main = creation_and_shape_operations_contiguous
  have nd: "unat (2 :: size_t) < 2 ^ 31" "unat (ndim matrix_2x3) < 2 ^ 31"
    by (simp_all add: matrix_2x3_def tensor_of_def)
  have e1: "tensr_create heap_ok [2, 3] 2 TENSR_FLOAT32 TENSR_CPU
              = Inr (tensor_of TENSR_FLOAT32 [2, 3] [3, 1] 6 (replicate 24 0xAA))"
    by code_simp
  have e2: "tensr_zeros heap_ok [2, 3] 2 TENSR_FLOAT32 TENSR_CPU
              = Inr (tensor_of TENSR_FLOAT32 [2, 3] [3, 1] 6 (replicate 24 0))"
    by code_simp
  have e3: "tensr_ones heap_ok [2, 3] 2 TENSR_INT32 TENSR_CPU
              = Inr (tensor_of TENSR_INT32 [2, 3] [3, 1] 6 (concat (replicate 6 (to_bytes (1 :: 32 word)))))"
    by code_simp
  have e4: "tensr_full (ieee754 sq lg cs) heap_ok [2, 3] 2 0x4000000000000000 TENSR_FLOAT32 TENSR_CPU
              = Inr (tensor_of TENSR_FLOAT32 [2, 3] [3, 1] 6
                  (concat (replicate 6 (to_bytes (0x40000000 :: float)))))" for sq lg cs
    by code_simp
  have e5: "tensr_arange (ieee754 sq lg cs) heap_ok 0 0x4024000000000000 0x4000000000000000
              TENSR_UINT8 TENSR_CPU = Inr (tensor_of TENSR_UINT8 [5] [1] 5 (replicate 5 0xAA))"
    for sq lg cs
    by code_simp
  have e6: "tensr_linspace (ieee754 sq lg cs) heap_ok 0 0x3FF0000000000000 5 TENSR_UINT8 TENSR_CPU
              = Inr (tensor_of TENSR_UINT8 [5] [1] 5 (replicate 5 0xAA))" for sq lg cs
    by code_simp
  have e7: "tensr_eye heap_ok 3 TENSR_INT32 TENSR_CPU
              = Inr (tensor_of TENSR_INT32 [3, 3] [3, 1] 9
                  (concat (map to_bytes [1, 0, 0, 0, 1, 0, 0, 0, 1 :: 32 word])))"
    by code_simp
  have e8: "tensr_copy heap_ok matrix_2x3 = Inr matrix_2x3"
    by code_simp
  have e9: "tensr_reshape heap_ok matrix_2x3 [3, 2] 2
              = Inr ((tensor_of TENSR_FLOAT32 [3, 2] [2, 1] 6 (data matrix_2x3))\<lparr>owns_data := False\<rparr>)"
    by code_simp
  have e10: "tensr_transpose heap_ok matrix_2x3 [] 0
              = Inr (tensor_of TENSR_FLOAT32 [3, 2] [2, 1] 6 (replicate 24 0xAA))"
    by code_simp
  have e11: "tensr_transpose heap_ok matrix_2x3 [1, 0] 2
              = Inr (tensor_of TENSR_FLOAT32 [3, 2] [2, 1] 6 (replicate 24 0xAA))"
    by code_simp
  have perm: "mset (map unat (take (unat (ndim matrix_2x3)) [1, 0 :: size_t])) = mset [0..<unat (ndim matrix_2x3)]"
  proof -
    have "[0..<2] = [0, Suc 0]" by (simp add: upt_rec)
    then show ?thesis
      by (simp add: matrix_2x3_def tensor_of_def add_mset_commute)
  qed
  have sh: "shape (tensor_of TENSR_FLOAT32 [3, 2] [2, 1] 6 (replicate 24 0xAA)) = [3, 2]"
    by (simp add: tensor_of_def)
  note A = main [THEN conjunct1, rule_format]
  note k1 = A [THEN conjunct1, rule_format]
  note k2 = A [THEN conjunct2, THEN conjunct1, rule_format]
  note k3 = A [THEN conjunct2, THEN conjunct2, THEN conjunct1, rule_format]
  note k4 = A [THEN conjunct2, THEN conjunct2, THEN conjunct2, rule_format]
  note B = main [THEN conjunct2]
  note k5 = B [THEN conjunct1, rule_format]
  note k6 = B [THEN conjunct2, THEN conjunct1, rule_format]
  note k7 = B [THEN conjunct2, THEN conjunct2, THEN conjunct1, rule_format]
  note C = B [THEN conjunct2, THEN conjunct2, THEN conjunct2]
  note k8 = C [THEN conjunct1, rule_format]
  note k9 = C [THEN conjunct2, THEN conjunct1, rule_format]
  note k10 = C [THEN conjunct2, THEN conjunct2, THEN conjunct1, rule_format]
  note k11 = C [THEN conjunct2, THEN conjunct2, THEN conjunct2, rule_format]
  note c1 = k1 [OF nd(1) e1]
  note c2 = k2 [OF nd(1) e2]
  note c3 = k3 [OF nd(1) e3]
  note c4 = k4 [OF nd(1) e4]
  note c5 = k5 [OF e5]
  note c6 = k6 [OF e6]
  note c7 = k7 [OF e7]
  note c8 = k8 [OF nd(2) e8]
  note c9 = k9 [OF nd(1) e9]
  note c10 = k10 [OF nd(2) disjI1 [OF refl] e10]
  note c11 = k10 [OF nd(2) disjI2 [OF perm] e11]
  have sz: "unat (tsize (tensor_of TENSR_FLOAT32 [3, 2] [2, 1] 6 (replicate 24 0xAA))) = 6"
    using k11 [OF c11] by (simp add: tensor_of_def)
  show ?thesis
    using e1 e2 e3 e4 e5 e6 e7 e8 e9 e10 e11 c1 c2 c3 c4 c5 c6 c7 c8 c9 c10 c11 sh sz by simp
qed

text \<open>
  C9 as stated fails. \<open>tensr_transpose\<close> never checks its axes: with the axes \<open>{0, 0}\<close> the
  matrix \<open>[[1, 2, 3], [4, 5, 6]]\<close> gives a tensor of shape \<open>[2, 2]\<close> whose \<open>size\<close> is still
  the \<open>6\<close> of \<open>tensr_create\<close>, while the product of its shape is \<open>4\<close>. And the products are
  those of \<open>size_t\<close>: \<open>tensr_create\<close> with the shape \<open>[2\<^sup>3\<^sup>2, 2\<^sup>3\<^sup>2]\<close> returns a tensor of
  \<open>size\<close> \<open>0\<close> and stride \<open>2\<^sup>3\<^sup>2\<close>, while the product of the extents is \<open>2\<^sup>6\<^sup>4\<close>.
\<close>

theorem tensr_transpose_counterexample:
  "tensr_transpose heap_ok matrix_2x3 [0, 0] 2
     = Inr (tensor_of TENSR_FLOAT32 [2, 2] [2, 1] 6 (replicate 24 0xAA))
   \<and> tsize (tensor_of TENSR_FLOAT32 [2, 2] [2, 1] 6 (replicate 24 0xAA)) = 6
   \<and> prod_list (shape (tensor_of TENSR_FLOAT32 [2, 2] [2, 1] 6 (replicate 24 0xAA))) = 4
   \<and> \<not> contiguous (tensor_of TENSR_FLOAT32 [2, 2] [2, 1] 6 (replicate 24 0xAA))
   \<and> tensr_create heap_ok [0x100000000, 0x100000000] 2 TENSR_FLOAT32 TENSR_CPU
     = Inr (tensor_of TENSR_FLOAT32 [0x100000000, 0x100000000] [0x100000000, 1] 0 [])
   \<and> prod_list (map uint
         (shape (tensor_of TENSR_FLOAT32 [0x100000000, 0x100000000] [0x100000000, 1] 0 [])))
     = 2 ^ 64"
proof -
  have a: "tensr_transpose heap_ok matrix_2x3 [0, 0] 2
     = Inr (tensor_of TENSR_FLOAT32 [2, 2] [2, 1] 6 (replicate 24 0xAA))"
    by code_simp
  have b: "tensr_create heap_ok [0x100000000, 0x100000000] 2 TENSR_FLOAT32 TENSR_CPU
     = Inr (tensor_of TENSR_FLOAT32 [0x100000000, 0x100000000] [0x100000000, 1] 0 [])"
    by code_simp
  show ?thesis
    using a b by (simp add: tensor_of_def contiguous_def)
qed

section \<open>Seeding (C8)\<close>

text \<open>
  After a seed other than \<open>0\<close> the generating functions do not look at the clock, and
  they leave \<open>rng_state\<close> as it is: what they return is a function of the seed and of the
  calls alone.
\<close>

lemma seed_if_unseeded_seeded:
  "rng_state st \<noteq> 0 \<Longrightarrow> seed_if_unseeded lc now st = st"
  by (simp add: seed_if_unseeded_def)

lemma drawn_rng_state: "rng_state (snd (drawn st t x)) = rng_state st"
  by (auto simp: drawn_def split: option.splits)

lemma tensr_rand_seeded:
  assumes "rng_state st \<noteq> 0"
  shows "tensr_rand lc fp h now st shp nd dev = tensr_rand lc fp h now' st shp nd dev"
    and "rng_state (snd (tensr_rand lc fp h now st shp nd dev)) = rng_state st"
  using assms
  by (auto simp: tensr_rand_def seed_if_unseeded_seeded drawn_rng_state split: sum.splits)

lemma tensr_randn_seeded:
  assumes "rng_state st \<noteq> 0"
  shows "tensr_randn lc fp h now st shp nd dev = tensr_randn lc fp h now' st shp nd dev"
    and "rng_state (snd (tensr_randn lc fp h now st shp nd dev)) = rng_state st"
  using assms
  by (auto simp: tensr_randn_def seed_if_unseeded_seeded drawn_rng_state split: sum.splits)

lemma tensr_randint_seeded:
  assumes "rng_state st \<noteq> 0"
  shows "tensr_randint lc h now st low high shp nd dev = tensr_randint lc h now' st low high shp nd dev"
    and "rng_state (snd (tensr_randint lc h now st low high shp nd dev)) = rng_state st"
  using assms
  by (auto simp: tensr_randint_def seed_if_unseeded_seeded drawn_rng_state split: sum.splits)

lemma tensr_seed_state: "tensr_seed lc s st = tensr_seed lc s st'" "rng_state (tensr_seed lc s st) = s"
  by (simp_all add: tensr_seed_def)

text \<open>
  C8 asks that two runs which call \<open>tensr_seed(s)\<close> and then make the same calls get the
  same tensors, for every \<open>s\<close>. For \<open>s = 0\<close> they do not: \<open>tensr_seed(0)\<close> leaves
  \<open>rng_state == 0\<close>, which the generating functions read as "never seeded", and they seed
  again from \<open>time(NULL)\<close>. With the example generator of the C standard, a run at clock
  \<open>1\<close> draws \<open>16838, 5758\<close> and a run at clock \<open>2\<close> draws \<open>908, 22817\<close>.
\<close>

theorem seed_zero_follows_the_clock:
  "fst (tensr_randint iso_libc heap_ok 1 (tensr_seed iso_libc 0 (rng_at_start iso_libc))
          0 100000 [2] 1 TENSR_CPU)
     = Inr (tensor_of TENSR_INT32 [2] [1] 2 (to_bytes (16838 :: 32 word) @ to_bytes (5758 :: 32 word)))
   \<and> fst (tensr_randint iso_libc heap_ok 2 (tensr_seed iso_libc 0 (rng_at_start iso_libc))
          0 100000 [2] 1 TENSR_CPU)
     = Inr (tensor_of TENSR_INT32 [2] [1] 2 (to_bytes (908 :: 32 word) @ to_bytes (22817 :: 32 word)))"
  by code_simp

section \<open>Element-wise addition (C2)\<close>

text \<open>
  C2 as amended. \<open>tensr_add\<close>, \<open>tensr_sub\<close>, \<open>tensr_mul\<close> and \<open>tensr_div\<close> return \<open>NULL\<close>
  when the sizes (the element counts) differ or the types differ. For well-formed
  \<open>a\<close> and \<open>b\<close> of equal size and equal type, the type being \<open>float\<close>, \<open>double\<close>,
  \<open>int32_t\<close> or \<open>int64_t\<close>, and with the allocations of the result succeeding, \<open>tensr_add\<close>
  returns a tensor with the shape, the type and the device of \<open>a\<close> whose flat element
  \<open>i\<close> is \<open>a[i] + b[i]\<close>: the sum of the unit for the floating types, the sum modulo
  \<open>2\<^sup>3\<^sup>2\<close> or \<open>2\<^sup>6\<^sup>4\<close> for the integer types.
\<close>

theorem tensr_add_equal_size_and_dtype:
  "(tsize a \<noteq> tsize b \<or> dtype a \<noteq> dtype b \<longrightarrow>
       tensr_add fp h a b = Inl ReturnedNULL \<and> tensr_sub fp h a b = Inl ReturnedNULL
     \<and> tensr_mul fp h a b = Inl ReturnedNULL \<and> tensr_div fp h a b = Inl ReturnedNULL)
   \<and> (well_formed a \<and> well_formed b \<and> tsize a = tsize b \<and> dtype a = dtype b
       \<and> can_alloc h sizeof_Tensor \<and> can_alloc h (unat (ndim a * 8))
       \<and> can_alloc h (unat (tsize a * tensr_dtype_size (dtype a))) \<longrightarrow>
        (dtype a = TENSR_FLOAT32 \<longrightarrow>
           (\<exists>r. tensr_add fp h a b = Inr r \<and> elementwise (f32_add fp) a b r))
      \<and> (dtype a = TENSR_FLOAT64 \<longrightarrow>
           (\<exists>r. tensr_add fp h a b = Inr r \<and> elementwise (f64_add fp) a b r))
      \<and> (dtype a = TENSR_INT32 \<longrightarrow>
           (\<exists>r. tensr_add fp h a b = Inr r \<and> elementwise (\<lambda>x y :: 32 word. x + y) a b r))
      \<and> (dtype a = TENSR_INT64 \<longrightarrow>
           (\<exists>r. tensr_add fp h a b = Inr r \<and> elementwise (\<lambda>x y :: 64 word. x + y) a b r)))"
proof (intro conjI impI)
  assume "tsize a \<noteq> tsize b \<or> dtype a \<noteq> dtype b"
  then show "tensr_add fp h a b = Inl ReturnedNULL" "tensr_sub fp h a b = Inl ReturnedNULL"
    "tensr_mul fp h a b = Inl ReturnedNULL" "tensr_div fp h a b = Inl ReturnedNULL"
    by (simp_all add: tensr_add_def tensr_sub_def tensr_mul_def tensr_div_def BINARY_OP_mismatch)
next
  assume p: "well_formed a \<and> well_formed b \<and> tsize a = tsize b \<and> dtype a = dtype b
       \<and> can_alloc h sizeof_Tensor \<and> can_alloc h (unat (ndim a * 8))
       \<and> can_alloc h (unat (tsize a * tensr_dtype_size (dtype a)))"
  then have q: "well_formed a" "well_formed b" "can_alloc h sizeof_Tensor"
    "can_alloc h (unat (ndim a * 8))" "can_alloc h (unat (tsize a * tensr_dtype_size (dtype a)))"
    "tsize a = tsize b" "dtype a = dtype b"
    by blast+
  {
    assume dt: "dtype a = TENSR_FLOAT32"
    show "\<exists>r. tensr_add fp h a b = Inr r \<and> elementwise (f32_add fp) a b r"
      unfolding tensr_add_def
      by (rule BINARY_OP_elementwise' [OF q]) (simp_all add: dt BINARY_OP_def q(6,7) [symmetric] split: sum.splits)
  next
    assume dt: "dtype a = TENSR_FLOAT64"
    show "\<exists>r. tensr_add fp h a b = Inr r \<and> elementwise (f64_add fp) a b r"
      unfolding tensr_add_def
      by (rule BINARY_OP_elementwise' [OF q]) (simp_all add: dt BINARY_OP_def q(6,7) [symmetric] split: sum.splits)
  next
    assume dt: "dtype a = TENSR_INT32"
    show "\<exists>r. tensr_add fp h a b = Inr r \<and> elementwise (\<lambda>x y :: 32 word. x + y) a b r"
      unfolding tensr_add_def
      by (rule BINARY_OP_elementwise' [OF q])
        (simp_all add: dt BINARY_OP_def q(6,7) [symmetric] int_add_fun split: sum.splits)
  next
    assume dt: "dtype a = TENSR_INT64"
    show "\<exists>r. tensr_add fp h a b = Inr r \<and> elementwise (\<lambda>x y :: 64 word. x + y) a b r"
      unfolding tensr_add_def
      by (rule BINARY_OP_elementwise' [OF q])
        (simp_all add: dt BINARY_OP_def q(6,7) [symmetric] int_add_fun split: sum.splits)
  }
qed

text \<open>
  C2 as stated fails twice. Two \<open>int32_t\<close> tensors of shapes \<open>[2, 3]\<close> and \<open>[3, 2]\<close> are
  added without a failure, since only the sizes are compared. And for \<open>uint8_t\<close>, a
  supported type, nothing is computed: the sum of \<open>[1]\<close> and \<open>[2]\<close> is the fresh buffer.
\<close>

theorem tensr_add_counterexample:
  "tensr_add ieee754_unit heap_ok (int32_tensor [2, 3] [3, 1] [1, 2, 3, 4, 5, 6])
       (int32_tensor [3, 2] [2, 1] [10, 20, 30, 40, 50, 60])
     = Inr (int32_tensor [2, 3] [3, 1] [11, 22, 33, 44, 55, 66])
   \<and> tensr_add ieee754_unit heap_ok (uint8_tensor [1] [1] [1]) (uint8_tensor [1] [1] [2])
     = Inr (uint8_tensor [1] [1] [0xAA])"
  by code_simp

theorem tensr_add_equal_size_and_dtype_witness:
  "tensr_add ieee754_unit heap_ok (int32_tensor [2] [1] [1, 2]) (int32_tensor [3] [1] [1, 2, 3])
     = Inl ReturnedNULL
   \<and> tensr_div ieee754_unit heap_ok (int32_tensor [2] [1] [1, 2]) (float_tensor [2] [1] [0, 0])
     = Inl ReturnedNULL
   \<and> well_formed (float_tensor [2, 2] [2, 1] [0x3F800000, 0x3F800000, 0x3F800000, 0x3F800000])
   \<and> well_formed (float_tensor [2, 2] [2, 1] [0x40000000, 0x40000000, 0x40000000, 0x40000000])
   \<and> (\<exists>r. tensr_add ieee754_unit heap_ok
             (float_tensor [2, 2] [2, 1] [0x3F800000, 0x3F800000, 0x3F800000, 0x3F800000])
             (float_tensor [2, 2] [2, 1] [0x40000000, 0x40000000, 0x40000000, 0x40000000]) = Inr r
          \<and> elementwise (f32_add ieee754_unit)
               (float_tensor [2, 2] [2, 1] [0x3F800000, 0x3F800000, 0x3F800000, 0x3F800000])
               (float_tensor [2, 2] [2, 1] [0x40000000, 0x40000000, 0x40000000, 0x40000000]) r
          \<and> r = float_tensor [2, 2] [2, 1] [0x40400000, 0x40400000, 0x40400000, 0x40400000])"
proof -
  let ?a = "float_tensor [2, 2] [2, 1] [0x3F800000, 0x3F800000, 0x3F800000, 0x3F800000]"
  let ?b = "float_tensor [2, 2] [2, 1] [0x40000000, 0x40000000, 0x40000000, 0x40000000]"
  let ?c = "float_tensor [2, 2] [2, 1] [0x40400000, 0x40400000, 0x40400000, 0x40400000]"
  let ?i2 = "int32_tensor [2] [1] [1, 2]"
  let ?i3 = "int32_tensor [3] [1] [1, 2, 3]"
  let ?f2 = "float_tensor [2] [1] [0, 0]"
  note main = tensr_add_equal_size_and_dtype
  have s: "tsize ?i2 \<noteq> tsize ?i3 \<or> dtype ?i2 \<noteq> dtype ?i3"
    "tsize ?i2 \<noteq> tsize ?f2 \<or> dtype ?i2 \<noteq> dtype ?f2"
    by (simp_all add: int32_tensor_def float_tensor_def tensor_of_def dtype_defs)
  have f1: "tensr_add ieee754_unit heap_ok ?i2 ?i3 = Inl ReturnedNULL"
    using main [THEN conjunct1, rule_format, OF s(1)] by blast
  have f2: "tensr_div ieee754_unit heap_ok ?i2 ?f2 = Inl ReturnedNULL"
    using main [THEN conjunct1, rule_format, OF s(2)] by blast
  have wa: "well_formed ?a"
    by (simp add: well_formed_def float_tensor_def tensor_of_def compute_size_def)
  have wb: "well_formed ?b"
    by (simp add: well_formed_def float_tensor_def tensor_of_def compute_size_def)
  have p: "well_formed ?a \<and> well_formed ?b \<and> tsize ?a = tsize ?b \<and> dtype ?a = dtype ?b
       \<and> can_alloc heap_ok sizeof_Tensor \<and> can_alloc heap_ok (unat (ndim ?a * 8))
       \<and> can_alloc heap_ok (unat (tsize ?a * tensr_dtype_size (dtype ?a)))"
    using wa wb by (simp add: heap_ok_def float_tensor_def tensor_of_def)
  have dt: "dtype ?a = TENSR_FLOAT32"
    by (simp add: float_tensor_def tensor_of_def)
  obtain r where r: "tensr_add ieee754_unit heap_ok ?a ?b = Inr r"
    "elementwise (f32_add ieee754_unit) ?a ?b r"
    using main [THEN conjunct2, rule_format, OF p, THEN conjunct1, rule_format, OF dt] by blast
  have "tensr_add ieee754_unit heap_ok ?a ?b = Inr ?c"
    by code_simp
  then have "r = ?c" using r(1) by simp
  then show ?thesis
    using f1 f2 wa wb r by blast
qed

section \<open>Saving and loading (C3)\<close>

text \<open>
  C3: \<open>tensr_save\<close> followed by \<open>tensr_load\<close> gives back \<open>ndim\<close>, \<open>shape\<close>, \<open>dtype\<close>, \<open>size\<close>
  and the bytes of the payload, for every well-formed tensor (of any type tag, the six
  supported ones among them), whatever the uninitialised locals of \<open>tensr_load\<close> hold.
  The file can be opened for writing, and the allocations of \<open>tensr_load\<close> succeed.
\<close>

theorem save_load_roundtrip:
  "well_formed t \<and> writable fs filename \<and> can_alloc h sizeof_Tensor
   \<and> can_alloc h (unat (ndim t * 8)) \<and> can_alloc h (unat (tsize t * tensr_dtype_size (dtype t)))
   \<longrightarrow> (\<exists>fs'. tensr_save fs filename t = Inr (0, fs')
          \<and> (\<exists>t'. tensr_load h locals fs' filename = Inr t' \<and> ndim t' = ndim t
                \<and> shape t' = shape t \<and> dtype t' = dtype t \<and> tsize t' = tsize t
                \<and> data t' = data t))"
proof
  assume p: "well_formed t \<and> writable fs filename \<and> can_alloc h sizeof_Tensor
   \<and> can_alloc h (unat (ndim t * 8)) \<and> can_alloc h (unat (tsize t * tensr_dtype_size (dtype t)))"
  then have wf: "well_formed t" and wr: "writable fs filename"
    and al: "can_alloc h sizeof_Tensor" "can_alloc h (unat (ndim t * 8))"
      "can_alloc h (unat (tsize t * tensr_dtype_size (dtype t)))"
    by blast+
  define n where "n = unat (ndim t)"
  define w where "w = unat (tensr_dtype_size (dtype t))"
  have f: "ndim t \<noteq> 0" "n < 2 ^ 31" "length (shape t) = n"
    "tsize t = compute_size (shape t) (ndim t)" "unat (tsize t) * w < 2 ^ 64"
    "length (data t) = unat (tsize t) * w"
    using wf unfolding well_formed_def n_def w_def by blast+
  define hdr where "hdr = concat (map to_bytes (shape t))"
  define image where
    "image = to_bytes (ndim t) @ to_bytes (dtype t) @ to_bytes (tsize t) @ hdr @ data t"
  define fs' where "fs' = fs\<lparr>files := (files fs)(filename \<mapsto> image)\<rparr>"
  have save: "tensr_save fs filename t = Inr (0, fs')"
    using wr f(3,6) unfolding tensr_save_def fs'_def image_def hdr_def n_def w_def
    by (simp add: mult.commute)
  have lh: "length hdr = 8 * n"
    using f(3) by (simp add: hdr_def length_concat_to_bytes)
  have nb: "unat (ndim t * 8) = 8 * n"
    using unat_ndim_bytes f(2) by (simp add: n_def)
  obtain ndim0 dtype0 size0 where locals: "locals = (ndim0, dtype0, size0)"
    by (cases locals) auto
  have r1: "fread (to_bytes ndim0) 8 (Suc 0) image
              = (to_bytes (ndim t), to_bytes (dtype t) @ to_bytes (tsize t) @ hdr @ data t)"
    unfolding image_def by (rule fread_exact) simp_all
  have r2: "fread (to_bytes dtype0) 4 (Suc 0) (to_bytes (dtype t) @ to_bytes (tsize t) @ hdr @ data t)
              = (to_bytes (dtype t), to_bytes (tsize t) @ hdr @ data t)"
    by (rule fread_exact) simp_all
  have r3: "fread (to_bytes size0) 8 (Suc 0) (to_bytes (tsize t) @ hdr @ data t)
              = (to_bytes (tsize t), hdr @ data t)"
    by (rule fread_exact) simp_all
  have r4: "fread (map (junk h) [0..<8 * n]) 8 n (hdr @ data t) = (hdr, data t)"
    by (rule fread_exact) (simp_all add: lh)
  obtain t0 where c: "tensr_create h (shape t) (ndim t) (dtype t) TENSR_CPU = Inr t0"
    and t0: "shape t0 = shape t" "ndim t0 = ndim t" "tsize t0 = tsize t" "dtype t0 = dtype t"
      "length (data t0) = unat (tsize t * tensr_dtype_size (dtype t))"
    using well_formed_create [OF wf al, of TENSR_CPU] by blast
  have ld: "length (data t0) = length (data t)"
    using t0(5) unat_size_bytes [of "tsize t" "tensr_dtype_size (dtype t)"] f(5,6)
    by (simp add: w_def)
  have r5: "fread (data t0) w (unat (tsize t)) (data t) = (data t, [])"
    using fread_exact [of "data t" w "unat (tsize t)" "data t0" "[]"] f(6) ld
    by (simp add: mult.commute)
  have tk: "take (8 * n) (hdr @ data t) = hdr" "take (w * unat (tsize t)) (data t) = data t"
    using lh f(6) by (simp_all add: mult.commute)
  have hz: "hdr \<noteq> []"
    using lh f(1) by (auto simp: n_def unat_gt_0 [symmetric])
  have al': "can_alloc h (8 * n)"
    using al(2) nb by simp
  have wo: "words_of hdr = shape t"
    by (simp add: hdr_def words_of_concat)
  have ob: "(of_bytes (to_bytes (ndim t)) :: size_t) = ndim t"
    "(of_bytes (to_bytes (dtype t)) :: TensrDType) = dtype t"
    "(of_bytes (to_bytes (tsize t)) :: size_t) = tsize t"
    by (simp_all add: of_bytes_to_bytes)
  have load: "tensr_load h locals fs' filename = Inr (t0\<lparr>data := data t\<rparr>)"
    unfolding tensr_load_def fs'_def locals
    by (simp add: Let_def r1 r2 r3 ob malloc_def al' nb n_def [symmetric] r4 tk lh
        wo c w_def [symmetric] ld r5)
  show "\<exists>fs'. tensr_save fs filename t = Inr (0, fs')
          \<and> (\<exists>t'. tensr_load h locals fs' filename = Inr t' \<and> ndim t' = ndim t
                \<and> shape t' = shape t \<and> dtype t' = dtype t \<and> tsize t' = tsize t
                \<and> data t' = data t)"
    using save load t0 by simp
qed

theorem save_load_roundtrip_witness:
  "well_formed matrix_2x3 \<and> writable empty_disk ''t.bin'' \<and> can_alloc heap_ok sizeof_Tensor
   \<and> can_alloc heap_ok (unat (ndim matrix_2x3 * 8))
   \<and> can_alloc heap_ok (unat (tsize matrix_2x3 * tensr_dtype_size (dtype matrix_2x3)))
   \<and> (\<exists>fs'. tensr_save empty_disk ''t.bin'' matrix_2x3 = Inr (0, fs')
          \<and> (\<exists>t'. tensr_load heap_ok (0, 0, 0) fs' ''t.bin'' = Inr t' \<and> ndim t' = ndim matrix_2x3
                \<and> shape t' = shape matrix_2x3 \<and> dtype t' = dtype matrix_2x3
                \<and> tsize t' = tsize matrix_2x3 \<and> data t' = data matrix_2x3))"
proof -
  have p: "well_formed matrix_2x3 \<and> writable empty_disk ''t.bin'' \<and> can_alloc heap_ok sizeof_Tensor
   \<and> can_alloc heap_ok (unat (ndim matrix_2x3 * 8))
   \<and> can_alloc heap_ok (unat (tsize matrix_2x3 * tensr_dtype_size (dtype matrix_2x3)))"
    by (simp add: well_formed_def matrix_2x3_def tensor_of_def compute_size_def empty_disk_def
        heap_ok_def)
  show ?thesis
    using p save_load_roundtrip [rule_format, OF p, of "(0, 0, 0)"] by blast
qed

section \<open>Failures of loading (C4)\<close>

text \<open>
  C4 asks that \<open>tensr_load\<close> fails when the file cannot be opened, when a read is short
  and when the stored type tag is not a recognised one. The code returns \<open>NULL\<close> for a file
  that cannot be opened, and there it stops checking: it looks neither at what \<open>fread\<close>
  returns nor at the tag. From a file that holds a complete header (\<open>ndim\<close> at least one,
  any 32-bit value as the type tag, any \<open>size\<close>), the \<open>ndim\<close> entries of the shape and a
  payload no longer than the buffer made for that shape, a truncated payload included, it
  constructs a tensor with the \<open>ndim\<close>, the shape and the type tag of the file. So a
  file that declares two \<open>float\<close> elements and holds one is loaded, the second element
  being what the allocator left; a file with the type tag \<open>7\<close> is loaded as a tensor of
  type \<open>7\<close>; a file of three bytes is loaded too, \<open>ndim\<close> being made of these bytes and of
  what the stack held; and a file whose \<open>size\<close> is \<open>2\<close> over the shape \<open>[1]\<close> is read past the
  end of the buffer of one element.
\<close>

theorem tensr_load_constructs_from_bad_files:
  "(files fs filename = None \<longrightarrow> tensr_load h locals fs filename = Inl ReturnedNULL)
   \<and> (files fs filename
         = Some (to_bytes nd @ to_bytes dt @ to_bytes (sz :: size_t) @ concat (map to_bytes shp)
                 @ payload)
       \<and> length shp = unat nd \<and> nd \<noteq> 0 \<and> unat nd < 2 ^ 31
       \<and> can_alloc h sizeof_Tensor \<and> can_alloc h (unat (nd * 8))
       \<and> can_alloc h (unat (compute_size shp nd * tensr_dtype_size dt))
       \<and> length payload \<le> unat (compute_size shp nd * tensr_dtype_size dt) \<longrightarrow>
        (\<exists>t. tensr_load h locals fs filename = Inr t \<and> ndim t = nd \<and> shape t = shp
              \<and> dtype t = dt \<and> tsize t = compute_size shp nd))
   \<and> tensr_load heap_ok (0, 0, 0)
       (disk_with ''t.bin''
          (to_bytes (1 :: size_t) @ to_bytes TENSR_FLOAT32 @ to_bytes (2 :: size_t)
           @ to_bytes (2 :: size_t) @ [0, 0, 0x80, 0x3F])) ''t.bin''
     = Inr (tensor_of TENSR_FLOAT32 [2] [1] 2 [0, 0, 0x80, 0x3F, 0xAA, 0xAA, 0xAA, 0xAA])
   \<and> tensr_load heap_ok (0, 0, 0)
       (disk_with ''t.bin''
          (to_bytes (1 :: size_t) @ to_bytes (7 :: TensrDType) @ to_bytes (1 :: size_t)
           @ to_bytes (1 :: size_t))) ''t.bin''
     = Inr (tensor_of 7 [1] [1] 1 [])
   \<and> tensr_load heap_zero (0, 0, 0) (disk_with ''t.bin'' [1, 0, 0]) ''t.bin''
     = Inr (tensor_of TENSR_FLOAT32 [0] [1] 0 [])
   \<and> tensr_load heap_ok (0, 0, 0)
       (disk_with ''t.bin''
          (to_bytes (1 :: size_t) @ to_bytes TENSR_FLOAT32 @ to_bytes (2 :: size_t)
           @ to_bytes (1 :: size_t) @ [0, 0, 0x80, 0x3F, 0, 0, 0, 0x40])) ''t.bin''
     = Inl UndefinedBehaviour"
proof (intro conjI impI)
  assume "files fs filename = None"
  then show "tensr_load h locals fs filename = Inl ReturnedNULL"
    by (rule tensr_load_unopened)
next
  assume p: "files fs filename
         = Some (to_bytes nd @ to_bytes dt @ to_bytes (sz :: size_t) @ concat (map to_bytes shp)
                 @ payload)
       \<and> length shp = unat nd \<and> nd \<noteq> 0 \<and> unat nd < 2 ^ 31
       \<and> can_alloc h sizeof_Tensor \<and> can_alloc h (unat (nd * 8))
       \<and> can_alloc h (unat (compute_size shp nd * tensr_dtype_size dt))
       \<and> length payload \<le> unat (compute_size shp nd * tensr_dtype_size dt)"
  then have q: "files fs filename
         = Some (to_bytes nd @ to_bytes dt @ to_bytes (sz :: size_t) @ concat (map to_bytes shp)
                 @ payload)"
    "length shp = unat nd" "nd \<noteq> 0" "unat nd < 2 ^ 31"
    "can_alloc h sizeof_Tensor" "can_alloc h (unat (nd * 8))"
    "can_alloc h (unat (compute_size shp nd * tensr_dtype_size dt))"
    "length payload \<le> unat (compute_size shp nd * tensr_dtype_size dt)"
    by blast+
  show "\<exists>t. tensr_load h locals fs filename = Inr t \<and> ndim t = nd \<and> shape t = shp
              \<and> dtype t = dt \<and> tsize t = compute_size shp nd"
    using tensr_load_complete_header [OF q, of locals] by blast
next
  show "tensr_load heap_ok (0, 0, 0)
       (disk_with ''t.bin''
          (to_bytes (1 :: size_t) @ to_bytes TENSR_FLOAT32 @ to_bytes (2 :: size_t)
           @ to_bytes (2 :: size_t) @ [0, 0, 0x80, 0x3F])) ''t.bin''
     = Inr (tensor_of TENSR_FLOAT32 [2] [1] 2 [0, 0, 0x80, 0x3F, 0xAA, 0xAA, 0xAA, 0xAA])"
    by code_simp
next
  show "tensr_load heap_ok (0, 0, 0)
       (disk_with ''t.bin''
          (to_bytes (1 :: size_t) @ to_bytes (7 :: TensrDType) @ to_bytes (1 :: size_t)
           @ to_bytes (1 :: size_t))) ''t.bin''
     = Inr (tensor_of 7 [1] [1] 1 [])"
    by code_simp
next
  show "tensr_load heap_zero (0, 0, 0) (disk_with ''t.bin'' [1, 0, 0]) ''t.bin''
     = Inr (tensor_of TENSR_FLOAT32 [0] [1] 0 [])"
    by code_simp
next
  show "tensr_load heap_ok (0, 0, 0)
       (disk_with ''t.bin''
          (to_bytes (1 :: size_t) @ to_bytes TENSR_FLOAT32 @ to_bytes (2 :: size_t)
           @ to_bytes (1 :: size_t) @ [0, 0, 0x80, 0x3F, 0, 0, 0, 0x40])) ''t.bin''
     = Inl UndefinedBehaviour"
    by code_simp
qed

theorem tensr_load_constructs_from_bad_files_witness:
  "files empty_disk ''t.bin'' = None
   \<and> tensr_load heap_ok (0, 0, 0) empty_disk ''t.bin'' = Inl ReturnedNULL
   \<and> files (disk_with ''t.bin''
         (to_bytes (1 :: size_t) @ to_bytes (7 :: TensrDType) @ to_bytes (2 :: size_t)
          @ concat (map to_bytes [2 :: size_t]) @ [])) ''t.bin''
       = Some (to_bytes (1 :: size_t) @ to_bytes (7 :: TensrDType) @ to_bytes (2 :: size_t)
          @ concat (map to_bytes [2 :: size_t]) @ [])
   \<and> (\<exists>t. tensr_load heap_ok (0, 0, 0)
             (disk_with ''t.bin''
                (to_bytes (1 :: size_t) @ to_bytes (7 :: TensrDType) @ to_bytes (2 :: size_t)
                 @ concat (map to_bytes [2 :: size_t]) @ [])) ''t.bin'' = Inr t
          \<and> ndim t = 1 \<and> shape t = [2] \<and> dtype t = 7 \<and> tsize t = compute_size [2] 1)"
proof -
  let ?fs = "disk_with ''t.bin''
         (to_bytes (1 :: size_t) @ to_bytes (7 :: TensrDType) @ to_bytes (2 :: size_t)
          @ concat (map to_bytes [2 :: size_t]) @ [])"
  note main = tensr_load_constructs_from_bad_files
  have a: "files empty_disk ''t.bin'' = None"
    by (simp add: empty_disk_def)
  have b: "files ?fs ''t.bin''
       = Some (to_bytes (1 :: size_t) @ to_bytes (7 :: TensrDType) @ to_bytes (2 :: size_t)
          @ concat (map to_bytes [2 :: size_t]) @ [])"
    by (simp add: disk_with_def)
  have c: "files ?fs ''t.bin''
         = Some (to_bytes (1 :: size_t) @ to_bytes (7 :: TensrDType) @ to_bytes (2 :: size_t)
          @ concat (map to_bytes [2 :: size_t]) @ [])
       \<and> length [2 :: size_t] = unat (1 :: size_t) \<and> (1 :: size_t) \<noteq> 0 \<and> unat (1 :: size_t) < 2 ^ 31
       \<and> can_alloc heap_ok sizeof_Tensor \<and> can_alloc heap_ok (unat ((1 :: size_t) * 8))
       \<and> can_alloc heap_ok (unat (compute_size [2] 1 * tensr_dtype_size 7))
       \<and> length ([] :: byte list) \<le> unat (compute_size [2] 1 * tensr_dtype_size 7)"
    using b by (simp add: heap_ok_def)
  show ?thesis
    using a b main [THEN conjunct1, rule_format, OF a, of heap_ok "(0, 0, 0)"]
      main [THEN conjunct2, THEN conjunct1, rule_format, OF c, of "(0, 0, 0)"]
    by blast
qed

section \<open>The matrix product (C7)\<close>

text \<open>
  C7 asks that the product of two matrices of the same supported type is the standard
  matrix product. \<open>tensr_matmul\<close> has a branch for \<open>float\<close> and a branch for \<open>double\<close> and
  none for any other type: for matrices \<open>a\<close> of shape \<open>[m, k]\<close> and \<open>b\<close> of shape \<open>[k, n]\<close>
  of another type it returns what \<open>tensr_zeros\<close> returned, untouched. The product of the
  \<open>int32_t\<close> matrix \<open>[[1, 2], [3, 4]]\<close> with the identity is the zero matrix; the same
  matrices of type \<open>float\<close> give \<open>[[1, 2], [3, 4]]\<close>.
\<close>

theorem tensr_matmul_integer_is_zeros:
  "(ndim a = 2 \<and> ndim b = 2 \<and> shape a = [m, k] \<and> shape b = [k, n]
       \<and> dtype a \<noteq> TENSR_FLOAT32 \<and> dtype a \<noteq> TENSR_FLOAT64 \<longrightarrow>
        tensr_matmul fp h a b = tensr_zeros h [m, n] 2 (dtype a) (device a))
   \<and> tensr_matmul ieee754_unit heap_ok (int32_tensor [2, 2] [2, 1] [1, 2, 3, 4])
       (int32_tensor [2, 2] [2, 1] [1, 0, 0, 1])
     = Inr (int32_tensor [2, 2] [2, 1] [0, 0, 0, 0])
   \<and> tensr_matmul ieee754_unit heap_ok
       (float_tensor [2, 2] [2, 1] [0x3F800000, 0x40000000, 0x40400000, 0x40800000])
       (float_tensor [2, 2] [2, 1] [0x3F800000, 0, 0, 0x3F800000])
     = Inr (float_tensor [2, 2] [2, 1] [0x3F800000, 0x40000000, 0x40400000, 0x40800000])"
proof (intro conjI impI)
  assume "ndim a = 2 \<and> ndim b = 2 \<and> shape a = [m, k] \<and> shape b = [k, n]
       \<and> dtype a \<noteq> TENSR_FLOAT32 \<and> dtype a \<noteq> TENSR_FLOAT64"
  then show "tensr_matmul fp h a b = tensr_zeros h [m, n] 2 (dtype a) (device a)"
    by (simp add: tensr_matmul_def split: sum.splits)
next
  show "tensr_matmul ieee754_unit heap_ok (int32_tensor [2, 2] [2, 1] [1, 2, 3, 4])
       (int32_tensor [2, 2] [2, 1] [1, 0, 0, 1])
     = Inr (int32_tensor [2, 2] [2, 1] [0, 0, 0, 0])"
    by code_simp
next
  show "tensr_matmul ieee754_unit heap_ok
       (float_tensor [2, 2] [2, 1] [0x3F800000, 0x40000000, 0x40400000, 0x40800000])
       (float_tensor [2, 2] [2, 1] [0x3F800000, 0, 0, 0x3F800000])
     = Inr (float_tensor [2, 2] [2, 1] [0x3F800000, 0x40000000, 0x40400000, 0x40800000])"
    by code_simp
qed

theorem tensr_matmul_integer_is_zeros_witness:
  "ndim (int32_tensor [2, 2] [2, 1] [1, 2, 3, 4]) = 2
   \<and> ndim (int32_tensor [2, 2] [2, 1] [1, 0, 0, 1]) = 2
   \<and> shape (int32_tensor [2, 2] [2, 1] [1, 2, 3, 4]) = [2, 2]
   \<and> shape (int32_tensor [2, 2] [2, 1] [1, 0, 0, 1]) = [2, 2]
   \<and> dtype (int32_tensor [2, 2] [2, 1] [1, 2, 3, 4]) \<noteq> TENSR_FLOAT32
   \<and> dtype (int32_tensor [2, 2] [2, 1] [1, 2, 3, 4]) \<noteq> TENSR_FLOAT64
   \<and> tensr_matmul ieee754_unit heap_ok (int32_tensor [2, 2] [2, 1] [1, 2, 3, 4])
       (int32_tensor [2, 2] [2, 1] [1, 0, 0, 1])
     = tensr_zeros heap_ok [2, 2] 2 TENSR_INT32 TENSR_CPU
   \<and> tensr_zeros heap_ok [2, 2] 2 TENSR_INT32 TENSR_CPU
     = Inr (int32_tensor [2, 2] [2, 1] [0, 0, 0, 0])"
proof -
  let ?a = "int32_tensor [2, 2] [2, 1] [1, 2, 3, 4]"
  let ?b = "int32_tensor [2, 2] [2, 1] [1, 0, 0, 1]"
  note main = tensr_matmul_integer_is_zeros
  have p: "ndim ?a = 2 \<and> ndim ?b = 2 \<and> shape ?a = [2, 2] \<and> shape ?b = [2, 2]
       \<and> dtype ?a \<noteq> TENSR_FLOAT32 \<and> dtype ?a \<noteq> TENSR_FLOAT64"
    by (simp add: int32_tensor_def tensor_of_def dtype_defs)
  have d: "dtype ?a = TENSR_INT32" "device ?a = TENSR_CPU"
    by (simp_all add: int32_tensor_def tensor_of_def)
  have e: "tensr_matmul ieee754_unit heap_ok ?a ?b
             = tensr_zeros heap_ok [2, 2] 2 TENSR_INT32 TENSR_CPU"
    using main [THEN conjunct1, rule_format, OF p, of ieee754_unit heap_ok] by (simp only: d)
  have z: "tensr_zeros heap_ok [2, 2] 2 TENSR_INT32 TENSR_CPU
             = Inr (int32_tensor [2, 2] [2, 1] [0, 0, 0, 0])"
    by code_simp
  show ?thesis
    using p e z by simp
qed

subsection \<open>The branches for \<open>float\<close> and \<open>double\<close>\<close>

text \<open>
  What the two branches that exist compute. \<open>tensr_matmul\<close> returns \<open>NULL\<close> when the inner
  dimensions differ. For well-formed matrices \<open>a\<close> of shape \<open>[m, k]\<close> and \<open>b\<close> of shape
  \<open>[k, n]\<close>, both of type \<open>float\<close> or both of type \<open>double\<close>, with element counts that fit
  \<open>size_t\<close> and the allocations of the result succeeding, it returns the tensor of shape
  \<open>[m, n]\<close> whose entry \<open>[i, j]\<close> is the sum over \<open>p\<close> of \<open>a[i, p] * b[p, j]\<close>, added up from
  \<open>0.0\<close> in the order of \<open>p\<close> in the arithmetic of the type. On the reference unit, the
  product of \<open>full([2, 3], 2.0)\<close> and \<open>full([3, 2], 3.0)\<close> is the \<open>2 \<times> 2\<close> tensor of \<open>18.0\<close>
  (\<open>0x41900000\<close>).
\<close>

theorem tensr_matmul_float:
  "(ndim a = 2 \<and> ndim b = 2 \<and> shape a = [m, k] \<and> shape b = [k', n] \<and> k \<noteq> k' \<longrightarrow>
        tensr_matmul fp h a b = Inl ReturnedNULL)
   \<and> (well_formed a \<and> well_formed b \<and> shape a = [m, k] \<and> shape b = [k, n] \<and> dtype b = dtype a
       \<and> unat m * unat k < 2 ^ 64 \<and> unat k * unat n < 2 ^ 64
       \<and> unat m * unat n * unat (tensr_dtype_size (dtype a)) < 2 ^ 64
       \<and> can_alloc h sizeof_Tensor \<and> can_alloc h 16
       \<and> can_alloc h (unat (m * n * tensr_dtype_size (dtype a))) \<longrightarrow>
        (dtype a = TENSR_FLOAT32 \<longrightarrow>
           (\<exists>r. tensr_matmul fp h a b = Inr r
                \<and> matrix_product (f32_add fp) (f32_mul fp) f32_zero m k n a b r))
      \<and> (dtype a = TENSR_FLOAT64 \<longrightarrow>
           (\<exists>r. tensr_matmul fp h a b = Inr r
                \<and> matrix_product (f64_add fp) (f64_mul fp) f64_zero m k n a b r)))
   \<and> (case (tensr_full (ieee754 sq lg cs) heap_ok [2, 3] 2 0x4000000000000000 TENSR_FLOAT32 TENSR_CPU,
             tensr_full (ieee754 sq lg cs) heap_ok [3, 2] 2 0x4008000000000000 TENSR_FLOAT32 TENSR_CPU) of
         (Inr x, Inr y) \<Rightarrow> tensr_matmul (ieee754 sq lg cs) heap_ok x y
       | _ \<Rightarrow> Inl UndefinedBehaviour)
       = Inr (float_tensor [2, 2] [2, 1] [0x41900000, 0x41900000, 0x41900000, 0x41900000])"
proof (intro conjI impI)
  assume "ndim a = 2 \<and> ndim b = 2 \<and> shape a = [m, k] \<and> shape b = [k', n] \<and> k \<noteq> k'"
  then show "tensr_matmul fp h a b = Inl ReturnedNULL"
    by (simp add: tensr_matmul_def)
next
  assume p: "well_formed a \<and> well_formed b \<and> shape a = [m, k] \<and> shape b = [k, n] \<and> dtype b = dtype a
       \<and> unat m * unat k < 2 ^ 64 \<and> unat k * unat n < 2 ^ 64
       \<and> unat m * unat n * unat (tensr_dtype_size (dtype a)) < 2 ^ 64
       \<and> can_alloc h sizeof_Tensor \<and> can_alloc h 16
       \<and> can_alloc h (unat (m * n * tensr_dtype_size (dtype a)))"
  then have q: "well_formed a" "well_formed b" "shape a = [m, k]" "shape b = [k, n]"
    "dtype b = dtype a" "unat m * unat k < 2 ^ 64" "unat k * unat n < 2 ^ 64"
    "unat m * unat n * unat (tensr_dtype_size (dtype a)) < 2 ^ 64"
    "can_alloc h sizeof_Tensor" "can_alloc h 16"
    "can_alloc h (unat (m * n * tensr_dtype_size (dtype a)))"
    by blast+
  have nd: "ndim a = 2" "ndim b = 2"
    using well_formed_matrix(1) [OF q(1) q(3) q(6)] well_formed_matrix(1) [OF q(2) q(4) q(7)]
    by simp_all
  {
    assume dt: "dtype a = TENSR_FLOAT32"
    show "\<exists>r. tensr_matmul fp h a b = Inr r
            \<and> matrix_product (f32_add fp) (f32_mul fp) f32_zero m k n a b r"
      by (rule tensr_matmul_product [OF q]) (simp_all add: dt tensr_matmul_def nd q(3,4))
  next
    assume dt: "dtype a = TENSR_FLOAT64"
    show "\<exists>r. tensr_matmul fp h a b = Inr r
            \<and> matrix_product (f64_add fp) (f64_mul fp) f64_zero m k n a b r"
      by (rule tensr_matmul_product [OF q]) (simp_all add: dt tensr_matmul_def nd q(3,4))
  }
next
  show "(case (tensr_full (ieee754 sq lg cs) heap_ok [2, 3] 2 0x4000000000000000 TENSR_FLOAT32 TENSR_CPU,
             tensr_full (ieee754 sq lg cs) heap_ok [3, 2] 2 0x4008000000000000 TENSR_FLOAT32 TENSR_CPU) of
         (Inr x, Inr y) \<Rightarrow> tensr_matmul (ieee754 sq lg cs) heap_ok x y
       | _ \<Rightarrow> Inl UndefinedBehaviour)
       = Inr (float_tensor [2, 2] [2, 1] [0x41900000, 0x41900000, 0x41900000, 0x41900000])"
    by code_simp
qed

theorem tensr_matmul_float_witness:
  "tensr_matmul ieee754_unit heap_ok
       (float_tensor [2, 3] [3, 1] [0x40000000, 0x40000000, 0x40000000, 0x40000000, 0x40000000, 0x40000000])
       (float_tensor [2, 3] [3, 1] [0x40400000, 0x40400000, 0x40400000, 0x40400000, 0x40400000, 0x40400000])
     = Inl ReturnedNULL
   \<and> well_formed
       (float_tensor [2, 3] [3, 1] [0x40000000, 0x40000000, 0x40000000, 0x40000000, 0x40000000, 0x40000000])
   \<and> well_formed
       (float_tensor [3, 2] [2, 1] [0x40400000, 0x40400000, 0x40400000, 0x40400000, 0x40400000, 0x40400000])
   \<and> (\<exists>r. tensr_matmul ieee754_unit heap_ok
             (float_tensor [2, 3] [3, 1] [0x40000000, 0x40000000, 0x40000000, 0x40000000, 0x40000000, 0x40000000])
             (float_tensor [3, 2] [2, 1] [0x40400000, 0x40400000, 0x40400000, 0x40400000, 0x40400000, 0x40400000])
             = Inr r
          \<and> matrix_product (f32_add ieee754_unit) (f32_mul ieee754_unit) f32_zero 2 3 2
               (float_tensor [2, 3] [3, 1] [0x40000000, 0x40000000, 0x40000000, 0x40000000, 0x40000000, 0x40000000])
               (float_tensor [3, 2] [2, 1] [0x40400000, 0x40400000, 0x40400000, 0x40400000, 0x40400000, 0x40400000])
               r
          \<and> r = float_tensor [2, 2] [2, 1] [0x41900000, 0x41900000, 0x41900000, 0x41900000])"
proof -
  let ?a = "float_tensor [2, 3] [3, 1] [0x40000000, 0x40000000, 0x40000000, 0x40000000, 0x40000000, 0x40000000]"
  let ?b = "float_tensor [3, 2] [2, 1] [0x40400000, 0x40400000, 0x40400000, 0x40400000, 0x40400000, 0x40400000]"
  let ?b' = "float_tensor [2, 3] [3, 1] [0x40400000, 0x40400000, 0x40400000, 0x40400000, 0x40400000, 0x40400000]"
  let ?c = "float_tensor [2, 2] [2, 1] [0x41900000, 0x41900000, 0x41900000, 0x41900000]"
  note main = tensr_matmul_float
  have s: "ndim ?a = 2 \<and> ndim ?b' = 2 \<and> shape ?a = [2, 3] \<and> shape ?b' = [2, 3] \<and> (3 :: size_t) \<noteq> 2"
    by (simp add: float_tensor_def tensor_of_def)
  have f: "tensr_matmul ieee754_unit heap_ok ?a ?b' = Inl ReturnedNULL"
    by (rule main [THEN conjunct1, rule_format, OF s])
  have wa: "well_formed ?a"
    by (simp add: well_formed_def float_tensor_def tensor_of_def compute_size_def)
  have wb: "well_formed ?b"
    by (simp add: well_formed_def float_tensor_def tensor_of_def compute_size_def)
  have p: "well_formed ?a \<and> well_formed ?b \<and> shape ?a = [2, 3] \<and> shape ?b = [3, 2]
       \<and> dtype ?b = dtype ?a
       \<and> unat (2 :: size_t) * unat (3 :: size_t) < 2 ^ 64 \<and> unat (3 :: size_t) * unat (2 :: size_t) < 2 ^ 64
       \<and> unat (2 :: size_t) * unat (2 :: size_t) * unat (tensr_dtype_size (dtype ?a)) < 2 ^ 64
       \<and> can_alloc heap_ok sizeof_Tensor \<and> can_alloc heap_ok 16
       \<and> can_alloc heap_ok (unat (2 * 2 * tensr_dtype_size (dtype ?a)))"
    using wa wb by (simp add: heap_ok_def float_tensor_def tensor_of_def)
  have dt: "dtype ?a = TENSR_FLOAT32"
    by (simp add: float_tensor_def tensor_of_def)
  obtain r where r: "tensr_matmul ieee754_unit heap_ok ?a ?b = Inr r"
    "matrix_product (f32_add ieee754_unit) (f32_mul ieee754_unit) f32_zero 2 3 2 ?a ?b r"
    using main [THEN conjunct2, THEN conjunct1, rule_format, OF p, THEN conjunct1, rule_format, OF dt]
    by blast
  have "tensr_matmul ieee754_unit heap_ok ?a ?b = Inr ?c"
    by code_simp
  then have "r = ?c" using r(1) by simp
  then show ?thesis
    using f wa wb r by blast
qed

end
